theory Spec2Isabelle
  imports Complex_Main
begin

section \<open>Numbers, landmarks and gesture labels\<close>

text \<open>
  JavaScript numbers are modelled as mathematical reals (\<open>Math.PI\<close> is \<open>pi\<close>), and
  the millisecond clock \<open>Date.now()\<close> as an \<open>int\<close> that every function reading
  the clock receives as an argument. A landmark \<open>{x, y, z}\<close> is a record; the fields are
  called \<open>px\<close>, \<open>py\<close>, \<open>pz\<close>. A hand is the list of its landmarks, and the
  tracker's \<open>results\<close> object is \<open>None\<close> when it is null, \<open>Some None\<close> when its
  \<open>landmarks\<close> field is missing and \<open>Some (Some hands)\<close> otherwise.
  A private field \<open>_foo\<close> of a class is the record field \<open>u_foo\<close>.

  Arithmetic on reals is exact. The rounding of doubles is not modelled: a threshold is
  decided on the exact value, and the code can decide it the other way when the double it
  computes lies within rounding error of the threshold. Nothing overflows, and every
  coordinate is a number. Landmarks with a coordinate that is missing or \<open>NaN\<close> are
  the subject of a second embedding of the recognizer, after the first.
\<close>

record point =
  px :: real
  py :: real
  pz :: real

type_synonym hand = "point list"

type_synonym results = "hand list option option"

abbreviation (input) WRIST :: nat where "WRIST \<equiv> 0"
abbreviation (input) THUMB_CMC :: nat where "THUMB_CMC \<equiv> 1"
abbreviation (input) THUMB_TIP :: nat where "THUMB_TIP \<equiv> 4"
abbreviation (input) INDEX_MCP :: nat where "INDEX_MCP \<equiv> 5"
abbreviation (input) INDEX_PIP :: nat where "INDEX_PIP \<equiv> 6"
abbreviation (input) INDEX_TIP :: nat where "INDEX_TIP \<equiv> 8"
abbreviation (input) MIDDLE_MCP :: nat where "MIDDLE_MCP \<equiv> 9"
abbreviation (input) MIDDLE_PIP :: nat where "MIDDLE_PIP \<equiv> 10"
abbreviation (input) MIDDLE_TIP :: nat where "MIDDLE_TIP \<equiv> 12"
abbreviation (input) RING_PIP :: nat where "RING_PIP \<equiv> 14"
abbreviation (input) RING_TIP :: nat where "RING_TIP \<equiv> 16"
abbreviation (input) PINKY_MCP :: nat where "PINKY_MCP \<equiv> 17"
abbreviation (input) PINKY_PIP :: nat where "PINKY_PIP \<equiv> 18"
abbreviation (input) PINKY_TIP :: nat where "PINKY_TIP \<equiv> 20"

datatype gesture =
  GNone | Pinch | Fist | Point | OpenPalm | TwistPose | Spread | Squeeze | SwipeLeft | SwipeRight

datatype error = TypeError

section \<open>Geometry primitives\<close>

text \<open>\<open>dist\<close> and \<open>dist2D\<close> of the source; \<open>dist\<close> is called \<open>dist3D\<close> here.\<close>

definition dist3D :: "point \<Rightarrow> point \<Rightarrow> real" where
  "dist3D a b = sqrt ((px a - px b)\<^sup>2 + (py a - py b)\<^sup>2 + (pz a - pz b)\<^sup>2)"

definition dist2D :: "real \<times> real \<Rightarrow> real \<times> real \<Rightarrow> real" where
  "dist2D a b = sqrt ((fst a - fst b)\<^sup>2 + (snd a - snd b)\<^sup>2)"

definition clamp :: "real \<Rightarrow> real \<Rightarrow> real \<Rightarrow> real" where
  "clamp v lo hi = max lo (min hi v)"

definition wrapAngleDelta :: "real \<Rightarrow> real" where
  "wrapAngleDelta delta =
     (let d = delta;
          d = (if d > pi then d - 2 * pi else d);
          d = (if d < - pi then d + 2 * pi else d)
      in d)"

definition median :: "real list \<Rightarrow> real" where
  "median vs =
     (if length vs = 0 then 0
      else let sorted = sort vs; mid = length sorted div 2
           in if length sorted mod 2 = 0
              then (sorted ! (mid - 1) + sorted ! mid) / 2
              else sorted ! mid)"

definition stdDev :: "real list \<Rightarrow> real" where
  "stdDev vs =
     (if length vs \<le> 1 then 0
      else let avg = foldl (\<lambda>acc v. acc + v) 0 vs / real (length vs);
               variance = foldl (\<lambda>acc v. acc + (v - avg)\<^sup>2) 0 vs / real (length vs)
           in sqrt variance)"

text \<open>\<open>Math.atan2(y, x)\<close> on reals, with \<open>atan2(0, 0) = 0\<close>.\<close>

definition atan2 :: "real \<Rightarrow> real \<Rightarrow> real" where
  "atan2 b a =
     (if a > 0 then arctan (b / a)
      else if a < 0 \<and> b \<ge> 0 then arctan (b / a) + pi
      else if a < 0 then arctan (b / a) - pi
      else if b > 0 then pi / 2
      else if b < 0 then - (pi / 2)
      else 0)"

definition getPalmSize :: "hand \<Rightarrow> real" where
  "getPalmSize lm = (let d = dist3D (lm ! WRIST) (lm ! MIDDLE_MCP) in if d = 0 then 0.001 else d)"

definition getFingerCurl :: "hand \<Rightarrow> nat \<Rightarrow> nat \<Rightarrow> real" where
  "getFingerCurl lm pipIdx tipIdx =
     (let tipToWrist = dist3D (lm ! tipIdx) (lm ! WRIST);
          pipToWrist = dist3D (lm ! pipIdx) (lm ! WRIST)
      in if pipToWrist < 0.001 then 0
         else let ratio = tipToWrist / pipToWrist
              in max 0 (min 1 ((1.15 - ratio) / 0.5)))"

definition isThumbExtended :: "hand \<Rightarrow> bool" where
  "isThumbExtended lm =
     (let palmCenter = \<lparr> px = (px (lm ! WRIST) + px (lm ! INDEX_MCP) + px (lm ! PINKY_MCP)) / 3,
                          py = (py (lm ! WRIST) + py (lm ! INDEX_MCP) + py (lm ! PINKY_MCP)) / 3,
                          pz = (pz (lm ! WRIST) + pz (lm ! INDEX_MCP) + pz (lm ! PINKY_MCP)) / 3 \<rparr>;
          tipDist = dist3D (lm ! THUMB_TIP) palmCenter;
          cmcDist = dist3D (lm ! THUMB_CMC) palmCenter
      in tipDist > cmcDist * 1.3)"

section \<open>The gesture recognizer\<close>

record palm_entry =
  hx :: real
  hy :: real
  htime :: int

record finger_curls =
  fc_index :: real
  fc_middle :: real
  fc_ring :: real
  fc_pinky :: real
  fc_thumbExtended :: bool

text \<open>The object \<open>output\<close> that \<open>recognize\<close> returns (the GestureSample).\<close>

record sample =
  gesture :: gesture
  confidence :: real
  handPosition :: "(real \<times> real) option"
  palmDelta :: "(real \<times> real) option"
  handAngle :: real
  handAngleDelta :: real
  rawHandAngleDelta :: real
  twistPoseScore :: real
  twistPoseActive :: bool
  handsDetected :: nat
  twoHandDistance :: "real option"
  twoHandDelta :: real
  fingerCurls :: "finger_curls option"

text \<open>The mutable fields of a \<open>GestureRecognizer\<close>.\<close>

record recognizer =
  u_gestureBuffer :: "gesture list"
  u_palmHistory :: "palm_entry list"
  u_lastSwipeTime :: int
  u_smoothTwoHandDist :: "real option"
  u_prevHandAngle :: "real option"
  u_angleDeltaHistory :: "real list"
  u_filteredHandAngleDelta :: real
  u_prevPinchAxisAngle :: "real option"
  u_filteredPinchAxisDelta :: real
  u_twistPoseActive :: bool
  u_lastStableGesture :: gesture

definition STABILITY_BUFFER_SIZE :: nat where
  "STABILITY_BUFFER_SIZE = 5"

definition u_twoHandSmoothing :: real where
  "u_twoHandSmoothing = 0.3"

definition u_twistPoseEnterThreshold :: real where
  "u_twistPoseEnterThreshold = 0.58"

definition u_twistPoseExitThreshold :: real where
  "u_twistPoseExitThreshold = 0.42"

text \<open>The recognizer as its constructor leaves it.\<close>

definition newRecognizer :: recognizer where
  "newRecognizer =
     \<lparr> u_gestureBuffer = [], u_palmHistory = [], u_lastSwipeTime = 0,
       u_smoothTwoHandDist = None, u_prevHandAngle = None, u_angleDeltaHistory = [],
       u_filteredHandAngleDelta = 0, u_prevPinchAxisAngle = None,
       u_filteredPinchAxisDelta = 0, u_twistPoseActive = False,
       u_lastStableGesture = GNone \<rparr>"

text \<open>The initial value of \<open>output\<close> at the top of \<open>recognize\<close>.\<close>

definition output0 :: sample where
  "output0 =
     \<lparr> gesture = GNone, confidence = 0, handPosition = None, palmDelta = None,
       handAngle = 0, handAngleDelta = 0, rawHandAngleDelta = 0, twistPoseScore = 0,
       twistPoseActive = False, handsDetected = 0, twoHandDistance = None,
       twoHandDelta = 0, fingerCurls = None \<rparr>"

subsection \<open>Stabilization (\<open>_stabilize\<close>)\<close>

text \<open>
  The \<open>counts\<close> object is an association list in insertion order, which is the order
  \<open>Object.entries\<close> enumerates string keys in.
\<close>

fun countUp :: "(gesture \<times> nat) list \<Rightarrow> gesture \<Rightarrow> (gesture \<times> nat) list" where
  "countUp [] g = [(g, 1)]"
| "countUp ((k, c) # rest) g = (if k = g then (k, c + 1) # rest else (k, c) # countUp rest g)"

definition countGestures :: "gesture list \<Rightarrow> (gesture \<times> nat) list" where
  "countGestures buf = foldl countUp [] buf"

definition mostCommon :: "(gesture \<times> nat) list \<Rightarrow> gesture \<times> nat" where
  "mostCommon counts =
     foldl (\<lambda>(best, bestCount) (g, c). if c > bestCount then (g, c) else (best, bestCount))
       (GNone, 0) counts"

definition highPriority :: "gesture list" where
  "highPriority = [Pinch, Fist, Spread, Squeeze, SwipeLeft, SwipeRight]"

definition stabilize :: "gesture \<Rightarrow> sample \<Rightarrow> recognizer \<Rightarrow> sample \<times> recognizer" where
  "stabilize rawGesture output st =
     (let buf = u_gestureBuffer st @ [rawGesture];
          buf = (if length buf > STABILITY_BUFFER_SIZE then tl buf else buf);
          (best, bestCount) = mostCommon (countGestures buf);
          threshold = nat \<lceil>real STABILITY_BUFFER_SIZE * 0.6\<rceil>;
          g = (if bestCount \<ge> threshold then best else u_lastStableGesture st);
          g = (if rawGesture = SwipeLeft \<or> rawGesture = SwipeRight then rawGesture else g);
          g = (if u_twistPoseActive st \<and> rawGesture \<notin> set highPriority then TwistPose else g)
      in (output\<lparr>gesture := g\<rparr>,
          st\<lparr>u_gestureBuffer := buf, u_lastStableGesture := g\<rparr>))"

subsection \<open>Swipe detection (\<open>_detectSwipe\<close>)\<close>

text \<open>
  \<open>_detectSwipe\<close> reads the clock itself; \<open>now\<close> is the value it reads. The result is
  the swipe label, or \<open>None\<close> for \<open>null\<close>.
\<close>

definition detectSwipe :: "int \<Rightarrow> recognizer \<Rightarrow> gesture option \<times> recognizer" where
  "detectSwipe now st =
     (if now - u_lastSwipeTime st < 700 then (None, st)
      else if length (u_palmHistory st) < 5 then (None, st)
      else let cutoff = now - 250;
               recent = filter (\<lambda>p. htime p \<ge> cutoff) (u_palmHistory st)
           in if length recent < 4 then (None, st)
              else let first = recent ! 0;
                       lst = recent ! (length recent - 1);
                       dx = hx lst - hx first;
                       dy = hy lst - hy first;
                       dt = htime lst - htime first
                   in if dt < 50 then (None, st)
                      else let velocityX = dx / (real_of_int dt / 1000);
                               absVelX = \<bar>velocityX\<bar>
                           in if absVelX > 0.8 \<and> \<bar>dy\<bar> < \<bar>dx\<bar> * 0.5
                              then (Some (if dx > 0 then SwipeRight else SwipeLeft),
                                    st\<lparr>u_lastSwipeTime := now, u_palmHistory := []\<rparr>)
                              else (None, st))"

subsection \<open>Per-frame recognition (\<open>recognize\<close>)\<close>

text \<open>The reset that \<open>recognize\<close> performs when no hand is present.\<close>

definition resetOnLoss :: "recognizer \<Rightarrow> recognizer" where
  "resetOnLoss st =
     st\<lparr> u_palmHistory := [], u_smoothTwoHandDist := None, u_gestureBuffer := [],
         u_prevHandAngle := None, u_angleDeltaHistory := [], u_filteredHandAngleDelta := 0,
         u_prevPinchAxisAngle := None, u_filteredPinchAxisDelta := 0,
         u_twistPoseActive := False \<rparr>"

text \<open>Palm delta against the previous history entry, then the push onto the 20-entry ring.\<close>

definition trackPalm ::
  "int \<Rightarrow> real \<Rightarrow> real \<Rightarrow> palm_entry list \<Rightarrow> (real \<times> real) option \<times> palm_entry list" where
  "trackPalm now palmX palmY hist =
     (let delta =
            (if length hist > 0
             then let prev = hist ! (length hist - 1); dt = now - htime prev
                  in if dt > 0 \<and> dt < 200 then Some (palmX - hx prev, palmY - hy prev) else None
             else None);
          hist = hist @ [\<lparr> hx = palmX, hy = palmY, htime = now \<rparr>];
          hist = (if length hist > 20 then tl hist else hist)
      in (delta, hist))"

text \<open>The hysteresis update of \<open>_twistPoseActive\<close>.\<close>

definition twistHysteresis :: "bool \<Rightarrow> real \<Rightarrow> bool" where
  "twistHysteresis active score =
     (if \<not> active \<and> score \<ge> u_twistPoseEnterThreshold then True
      else if active \<and> score < u_twistPoseExitThreshold then False
      else active)"

text \<open>
  The hand-roll block: wrap-corrected deltas of both axes, their blend, outlier rejection,
  dead zone and low-pass filter. It returns \<open>(rawHandAngleDelta, handAngleDelta)\<close> as
  written to \<open>output\<close>, and the recognizer with its five angle fields updated.
\<close>

definition twistFilter ::
  "real \<Rightarrow> real \<Rightarrow> real \<Rightarrow> recognizer \<Rightarrow> (real \<times> real) \<times> recognizer" where
  "twistFilter palmAxisAngle pinchAxisAngle pinchDist st =
     (let hadPrevHandAngle = (u_prevHandAngle st \<noteq> None);
          palmAxisDelta =
            (case u_prevHandAngle st of None \<Rightarrow> 0
             | Some prev \<Rightarrow> wrapAngleDelta (palmAxisAngle - prev));
          pinchAxisDelta =
            (case u_prevPinchAxisAngle st of None \<Rightarrow> 0
             | Some prev \<Rightarrow> wrapAngleDelta (pinchAxisAngle - prev));
          st = st\<lparr>u_prevHandAngle := Some palmAxisAngle, u_prevPinchAxisAngle := Some pinchAxisAngle\<rparr>
      in if hadPrevHandAngle
         then let fp = u_filteredPinchAxisDelta st
                         + (pinchAxisDelta - u_filteredPinchAxisDelta st) * 0.35;
                  pinchBlend = clamp ((0.75 - pinchDist) / 0.35) 0 1;
                  rawDelta = palmAxisDelta * (1 - pinchBlend) + fp * pinchBlend;
                  hist = u_angleDeltaHistory st @ [rawDelta];
                  hist = (if length hist > 7 then tl hist else hist);
                  med = median hist;
                  sigma = stdDev hist;
                  outlierLimit = max 0.08 (sigma * 3.0);
                  kept = (if \<bar>rawDelta - med\<bar> > outlierLimit then med else rawDelta);
                  adaptiveDeadzone = 0.002 + min 0.02 (sigma * 1.6);
                  cleanedDelta = (if \<bar>kept\<bar> > adaptiveDeadzone then kept else 0);
                  fh = u_filteredHandAngleDelta st
                         + (cleanedDelta - u_filteredHandAngleDelta st) * 0.34
              in ((rawDelta, fh),
                  st\<lparr>u_filteredPinchAxisDelta := fp, u_angleDeltaHistory := hist,
                      u_filteredHandAngleDelta := fh\<rparr>)
         else ((0, 0), st))"

text \<open>
  The two-hand block up to its test of \<open>twoHandDelta\<close>: the smoothed wrist distance
  and its delta, or the reset of the smoothing state with fewer than two hands.
\<close>

definition twoHandTrack :: "hand list \<Rightarrow> sample \<Rightarrow> recognizer \<Rightarrow> sample \<times> recognizer" where
  "twoHandTrack landmarks output st =
     (if length landmarks \<ge> 2
      then let lm = landmarks ! 0;
               lm2 = landmarks ! 1;
               palm1 = (px (lm ! WRIST), py (lm ! WRIST));
               palm2 = (px (lm2 ! WRIST), py (lm2 ! WRIST));
               rawDist = dist2D palm1 palm2;
               (output, smooth) =
                 (case u_smoothTwoHandDist st of
                    None \<Rightarrow> (output, rawDist)
                  | Some prevSmooth \<Rightarrow>
                      let smooth = prevSmooth + (rawDist - prevSmooth) * u_twoHandSmoothing
                      in (output\<lparr>twoHandDelta := smooth - prevSmooth\<rparr>, smooth))
           in (output\<lparr>twoHandDistance := Some smooth\<rparr>, st\<lparr>u_smoothTwoHandDist := Some smooth\<rparr>)
      else (output, st\<lparr>u_smoothTwoHandDist := None\<rparr>))"

text \<open>
  The single-hand priority chain: the raw label and the confidence it assigns (\<open>None\<close>
  when no branch matches and \<open>output.confidence\<close> is left as it is).
\<close>

definition classify ::
  "real \<Rightarrow> real \<Rightarrow> nat \<Rightarrow> bool \<Rightarrow> bool \<Rightarrow> bool \<Rightarrow> bool \<Rightarrow> bool \<Rightarrow> real
     \<Rightarrow> gesture \<times> real option" where
  "classify pinchDist middleCurl extendedCount indexExtended middleExtended ringExtended
            pinkyExtended twistActive twistScore =
     (if pinchDist < 0.35 \<and> middleCurl > 0.3
        then (Pinch, Some (max 0 (1 - pinchDist / 0.35)))
      else if extendedCount \<le> 1 \<and> \<not> indexExtended \<and> \<not> middleExtended \<and> \<not> ringExtended
        then (Fist, Some (1 - real extendedCount / 5))
      else if twistActive
        then (TwistPose, Some twistScore)
      else if indexExtended \<and> \<not> middleExtended \<and> \<not> ringExtended \<and> \<not> pinkyExtended
        then (Point, Some 0.9)
      else if extendedCount \<ge> 3
        then (OpenPalm, Some (real extendedCount / 5))
      else (GNone, None))"

text \<open>
  The measurements \<open>recognize\<close> takes of the primary hand. They depend on the landmarks
  only, not on the recognizer: palm centre, finger curls and extension flags, the
  normalized thumb-index distance \<open>pinchDist\<close>, the twist-pose score and the angles of
  the two roll axes.
\<close>

record features =
  f_palmX :: real
  f_palmY :: real
  f_indexCurl :: real
  f_middleCurl :: real
  f_ringCurl :: real
  f_pinkyCurl :: real
  f_thumbExt :: bool
  f_indexExtended :: bool
  f_middleExtended :: bool
  f_ringExtended :: bool
  f_pinkyExtended :: bool
  f_extendedCount :: nat
  f_pinchDist :: real
  f_twistPoseScore :: real
  f_handAngle :: real
  f_pinchAxisAngle :: real

definition handFeatures :: "hand \<Rightarrow> features" where
  "handFeatures lm =
     (let palmSize = getPalmSize lm;
          indexCurl = getFingerCurl lm INDEX_PIP INDEX_TIP;
          middleCurl = getFingerCurl lm MIDDLE_PIP MIDDLE_TIP;
          ringCurl = getFingerCurl lm RING_PIP RING_TIP;
          pinkyCurl = getFingerCurl lm PINKY_PIP PINKY_TIP;
          thumbExt = isThumbExtended lm;
          indexExtended = (indexCurl < 0.4);
          middleExtended = (middleCurl < 0.4);
          ringExtended = (ringCurl < 0.4);
          pinkyExtended = (pinkyCurl < 0.4);
          pinchDist = dist3D (lm ! THUMB_TIP) (lm ! INDEX_TIP) / palmSize;
          curledOthersScore = (middleCurl + ringCurl + pinkyCurl) / 3;
          thumbReady = (thumbExt \<or> pinchDist < 0.72);
          indexReady = (indexExtended \<or> indexCurl < 0.55)
      in \<lparr> f_palmX = (px (lm ! WRIST) + px (lm ! INDEX_MCP) + px (lm ! PINKY_MCP)) / 3,
           f_palmY = (py (lm ! WRIST) + py (lm ! INDEX_MCP) + py (lm ! PINKY_MCP)) / 3,
           f_indexCurl = indexCurl, f_middleCurl = middleCurl, f_ringCurl = ringCurl,
           f_pinkyCurl = pinkyCurl, f_thumbExt = thumbExt,
           f_indexExtended = indexExtended, f_middleExtended = middleExtended,
           f_ringExtended = ringExtended, f_pinkyExtended = pinkyExtended,
           f_extendedCount =
             length (filter (\<lambda>b. b)
               [thumbExt, indexExtended, middleExtended, ringExtended, pinkyExtended]),
           f_pinchDist = pinchDist,
           f_twistPoseScore =
             clamp ((if thumbReady then 0.34 else 0) + (if indexReady then 0.34 else 0)
                      + curledOthersScore * 0.18 + (if pinchDist < 0.55 then 0.18 else 0))
               0 1,
           f_handAngle = atan2 (py (lm ! PINKY_MCP) - py (lm ! INDEX_MCP))
                               (px (lm ! PINKY_MCP) - px (lm ! INDEX_MCP)),
           f_pinchAxisAngle = atan2 (py (lm ! INDEX_TIP) - py (lm ! THUMB_TIP))
                                    (px (lm ! INDEX_TIP) - px (lm ! THUMB_TIP)) \<rparr>)"

text \<open>
  The tail of \<open>recognize\<close> on the single-hand path: the priority chain, the swipe check
  that overrides it, and the stabilization. \<open>swipeNow\<close> is the clock value read by
  \<open>_detectSwipe\<close>.
\<close>

definition singleHand :: "features \<Rightarrow> int \<Rightarrow> sample \<Rightarrow> recognizer \<Rightarrow> sample \<times> recognizer" where
  "singleHand f swipeNow output st =
     (let (rawGesture, conf) =
            classify (f_pinchDist f) (f_middleCurl f) (f_extendedCount f) (f_indexExtended f)
              (f_middleExtended f) (f_ringExtended f) (f_pinkyExtended f)
              (u_twistPoseActive st) (f_twistPoseScore f);
          output = (case conf of None \<Rightarrow> output | Some c \<Rightarrow> output\<lparr>confidence := c\<rparr>);
          (swipe, st) = detectSwipe swipeNow st;
          (rawGesture, output) =
            (case swipe of None \<Rightarrow> (rawGesture, output)
             | Some s \<Rightarrow> (s, output\<lparr>confidence := 0.85\<rparr>))
      in stabilize rawGesture output st)"

text \<open>
  The body of \<open>recognize\<close> for a frame with at least one hand. \<open>now\<close> is the clock
  value read by \<open>recognize\<close>. The fields of \<open>output\<close> that the source assigns one by
  one before the two-hand block are collected in one record.
\<close>

definition recognizeHands :: "hand list \<Rightarrow> int \<Rightarrow> int \<Rightarrow> recognizer \<Rightarrow> sample \<times> recognizer" where
  "recognizeHands landmarks now swipeNow st =
     (let f = handFeatures (landmarks ! 0);
          (delta, hist) = trackPalm now (f_palmX f) (f_palmY f) (u_palmHistory st);
          active = twistHysteresis (u_twistPoseActive st) (f_twistPoseScore f);
          st = st\<lparr>u_palmHistory := hist, u_twistPoseActive := active\<rparr>;
          ((rawDelta, filtered), st) =
            twistFilter (f_handAngle f) (f_pinchAxisAngle f) (f_pinchDist f) st;
          output =
            \<lparr> gesture = GNone, confidence = 0,
              handPosition = Some (f_palmX f, f_palmY f), palmDelta = delta,
              handAngle = f_handAngle f, handAngleDelta = filtered,
              rawHandAngleDelta = rawDelta, twistPoseScore = f_twistPoseScore f,
              twistPoseActive = active, handsDetected = length landmarks,
              twoHandDistance = None, twoHandDelta = 0,
              fingerCurls =
                Some \<lparr> fc_index = f_indexCurl f, fc_middle = f_middleCurl f,
                       fc_ring = f_ringCurl f, fc_pinky = f_pinkyCurl f,
                       fc_thumbExtended = f_thumbExt f \<rparr> \<rparr>;
          (output, st) = twoHandTrack landmarks output st
      in if length landmarks \<ge> 2 \<and> \<bar>twoHandDelta output\<bar> > 0.003
         then stabilize (if twoHandDelta output > 0 then Spread else Squeeze)
                (output\<lparr>confidence := min 1 (\<bar>twoHandDelta output\<bar> * 15)\<rparr>) st
         else singleHand f swipeNow output st)"

text \<open>
  \<open>recognize\<close>. Reading a landmark that a hand does not have is a \<open>TypeError\<close> in the
  source: the primary hand is read up to index 20, the second hand at the wrist. The
  recognizer left behind by such an exception is not modelled.
\<close>

definition noHands :: "results \<Rightarrow> bool" where
  "noHands res = (case res of None \<Rightarrow> True | Some None \<Rightarrow> True | Some (Some hs) \<Rightarrow> length hs = 0)"

definition recognize ::
  "results \<Rightarrow> int \<Rightarrow> int \<Rightarrow> recognizer \<Rightarrow> error + (sample \<times> recognizer)" where
  "recognize res now swipeNow st =
     (if noHands res then Inr (output0, resetOnLoss st)
      else let landmarks = the (the res)
           in if length (landmarks ! 0) < 21 then Inl TypeError
              else if length landmarks \<ge> 2 \<and> length (landmarks ! 1) < 1 then Inl TypeError
              else Inr (recognizeHands landmarks now swipeNow st))"

section \<open>The recognizer on landmarks with missing coordinates\<close>

text \<open>
  The embedding above takes every coordinate of a landmark to be a real number.
  The code reads the fields \<open>x\<close>, \<open>y\<close>, \<open>z\<close> of whatever object it is
  given: a field that is missing reads as \<open>undefined\<close>, which arithmetic turns into
  \<open>NaN\<close>, and a field can hold \<open>NaN\<close> itself. This section embeds \<open>recognize\<close> a
  second time, over numbers that are a real or \<open>NaN\<close> (type \<open>jsnum\<close>); every name of
  this embedding carries the suffix \<open>N\<close>. Arithmetic with \<open>NaN\<close> gives \<open>NaN\<close>, every
  comparison with \<open>NaN\<close> is false (so \<open>a \<le> b\<close> is not the negation of \<open>b < a\<close>),
  \<open>Math.sqrt\<close>, \<open>Math.abs\<close>, \<open>Math.max\<close> and \<open>Math.min\<close> hand \<open>NaN\<close> on, and
  \<open>NaN\<close> is falsy. Arithmetic on reals is exact here as above: rounding, overflow and
  the infinities are not modelled. No divisor on the embedded path is zero:
  \<open>getPalmSize\<close> never returns 0, \<open>getFingerCurl\<close> divides by a distance that is not
  below 0.001, and \<open>_detectSwipe\<close> by a time span of at least 50 ms. The operators
  \<open>+\<close>, \<open>-\<close>, \<open>*\<close>, \<open>/\<close>, \<open>**\<close>, \<open><\<close> and \<open>\<le>\<close> of the code are those of
  \<open>jsnum\<close>; \<open>inverse\<close> is defined for the sake of the notation \<open>a / b\<close> only.
\<close>

datatype jsnum = Num real | NaN

instantiation jsnum :: "{power, plus, minus, inverse, ord}"
begin

definition one_jsnum :: jsnum where
  "one_jsnum = Num 1"

definition plus_jsnum :: "jsnum \<Rightarrow> jsnum \<Rightarrow> jsnum" where
  "plus_jsnum a b = (case (a, b) of (Num x, Num y) \<Rightarrow> Num (x + y) | _ \<Rightarrow> NaN)"

definition minus_jsnum :: "jsnum \<Rightarrow> jsnum \<Rightarrow> jsnum" where
  "minus_jsnum a b = (case (a, b) of (Num x, Num y) \<Rightarrow> Num (x - y) | _ \<Rightarrow> NaN)"

definition times_jsnum :: "jsnum \<Rightarrow> jsnum \<Rightarrow> jsnum" where
  "times_jsnum a b = (case (a, b) of (Num x, Num y) \<Rightarrow> Num (x * y) | _ \<Rightarrow> NaN)"

definition divide_jsnum :: "jsnum \<Rightarrow> jsnum \<Rightarrow> jsnum" where
  "divide_jsnum a b = (case (a, b) of (Num x, Num y) \<Rightarrow> Num (x / y) | _ \<Rightarrow> NaN)"

definition inverse_jsnum :: "jsnum \<Rightarrow> jsnum" where
  "inverse_jsnum a = (case a of Num x \<Rightarrow> Num (1 / x) | NaN \<Rightarrow> NaN)"

definition less_jsnum :: "jsnum \<Rightarrow> jsnum \<Rightarrow> bool" where
  "less_jsnum a b = (case (a, b) of (Num x, Num y) \<Rightarrow> x < y | _ \<Rightarrow> False)"

definition less_eq_jsnum :: "jsnum \<Rightarrow> jsnum \<Rightarrow> bool" where
  "less_eq_jsnum a b = (case (a, b) of (Num x, Num y) \<Rightarrow> x \<le> y | _ \<Rightarrow> False)"

instance ..

end

definition Math_sqrt :: "jsnum \<Rightarrow> jsnum" where
  "Math_sqrt a = (case a of Num x \<Rightarrow> if x < 0 then NaN else Num (sqrt x) | NaN \<Rightarrow> NaN)"

definition Math_abs :: "jsnum \<Rightarrow> jsnum" where
  "Math_abs a = (case a of Num x \<Rightarrow> Num \<bar>x\<bar> | NaN \<Rightarrow> NaN)"

definition Math_max :: "jsnum \<Rightarrow> jsnum \<Rightarrow> jsnum" where
  "Math_max a b = (case (a, b) of (Num x, Num y) \<Rightarrow> Num (max x y) | _ \<Rightarrow> NaN)"

definition Math_min :: "jsnum \<Rightarrow> jsnum \<Rightarrow> jsnum" where
  "Math_min a b = (case (a, b) of (Num x, Num y) \<Rightarrow> Num (min x y) | _ \<Rightarrow> NaN)"

text \<open>Whether a number is truthy: neither 0 nor \<open>NaN\<close>.\<close>

definition truthy :: "jsnum \<Rightarrow> bool" where
  "truthy a = (case a of Num x \<Rightarrow> x \<noteq> 0 | NaN \<Rightarrow> False)"

record landmark =
  pxN :: jsnum
  pyN :: jsnum
  pzN :: jsnum

type_synonym handN = "landmark list"

type_synonym resultsN = "handN list option option"

definition distN :: "landmark \<Rightarrow> landmark \<Rightarrow> jsnum" where
  "distN a b = Math_sqrt ((pxN a - pxN b)\<^sup>2 + (pyN a - pyN b)\<^sup>2 + (pzN a - pzN b)\<^sup>2)"

definition dist2DN :: "jsnum \<times> jsnum \<Rightarrow> jsnum \<times> jsnum \<Rightarrow> jsnum" where
  "dist2DN a b = Math_sqrt ((fst a - fst b)\<^sup>2 + (snd a - snd b)\<^sup>2)"

definition clampN :: "jsnum \<Rightarrow> jsnum \<Rightarrow> jsnum \<Rightarrow> jsnum" where
  "clampN v lo hi = Math_max lo (Math_min hi v)"

definition getPalmSizeN :: "handN \<Rightarrow> jsnum" where
  "getPalmSizeN lm =
     (let d = distN (lm ! WRIST) (lm ! MIDDLE_MCP) in if truthy d then d else Num 0.001)"

definition getFingerCurlN :: "handN \<Rightarrow> nat \<Rightarrow> nat \<Rightarrow> jsnum" where
  "getFingerCurlN lm pipIdx tipIdx =
     (let tipToWrist = distN (lm ! tipIdx) (lm ! WRIST);
          pipToWrist = distN (lm ! pipIdx) (lm ! WRIST)
      in if pipToWrist < Num 0.001 then Num 0
         else let ratio = tipToWrist / pipToWrist
              in Math_max (Num 0) (Math_min (Num 1) ((Num 1.15 - ratio) / Num 0.5)))"

definition isThumbExtendedN :: "handN \<Rightarrow> bool" where
  "isThumbExtendedN lm =
     (let palmCenter =
            \<lparr> pxN = (pxN (lm ! WRIST) + pxN (lm ! INDEX_MCP) + pxN (lm ! PINKY_MCP)) / Num 3,
              pyN = (pyN (lm ! WRIST) + pyN (lm ! INDEX_MCP) + pyN (lm ! PINKY_MCP)) / Num 3,
              pzN = (pzN (lm ! WRIST) + pzN (lm ! INDEX_MCP) + pzN (lm ! PINKY_MCP)) / Num 3 \<rparr>;
          tipDist = distN (lm ! THUMB_TIP) palmCenter;
          cmcDist = distN (lm ! THUMB_CMC) palmCenter
      in tipDist > cmcDist * Num 1.3)"

record palm_entryN =
  hxN :: jsnum
  hyN :: jsnum
  htimeN :: int

record finger_curlsN =
  fc_indexN :: jsnum
  fc_middleN :: jsnum
  fc_ringN :: jsnum
  fc_pinkyN :: jsnum
  fc_thumbExtendedN :: bool

text \<open>
  The hand-roll block of \<open>recognize\<close> (from the comment \<open>Hand roll angle\<close> to the comment
  \<open>Two-hand gestures\<close>) is left out of this embedding, with the three fields of
  \<open>output\<close> and the five fields of the recognizer that it writes: \<open>handAngle\<close>,
  \<open>handAngleDelta\<close>, \<open>rawHandAngleDelta\<close>, \<open>_prevHandAngle\<close>, \<open>_angleDeltaHistory\<close>,
  \<open>_filteredHandAngleDelta\<close>, \<open>_prevPinchAxisAngle\<close> and \<open>_filteredPinchAxisDelta\<close>.
  The block reads the landmarks, \<open>pinchDist\<close> and those five fields, and no other
  statement of \<open>recognize\<close>, \<open>_detectSwipe\<close> or \<open>_stabilize\<close> reads what it writes.
  It has no \<open>return\<close> and cannot throw: the landmarks it reads have been read before
  it. With a \<open>NaN\<close> in its history, its median depends on how the engine sorts under
  a comparator that returns \<open>NaN\<close>. On landmarks whose coordinates are all numbers,
  this embedding returns what the first one returns (lemma \<open>recognizeN_numeric\<close>).
\<close>

record sampleN =
  gestureN :: gesture
  confidenceN :: jsnum
  handPositionN :: "(jsnum \<times> jsnum) option"
  palmDeltaN :: "(jsnum \<times> jsnum) option"
  twistPoseScoreN :: jsnum
  twistPoseActiveN :: bool
  handsDetectedN :: nat
  twoHandDistanceN :: "jsnum option"
  twoHandDeltaN :: jsnum
  fingerCurlsN :: "finger_curlsN option"

record recognizerN =
  u_gestureBufferN :: "gesture list"
  u_palmHistoryN :: "palm_entryN list"
  u_lastSwipeTimeN :: int
  u_smoothTwoHandDistN :: "jsnum option"
  u_twistPoseActiveN :: bool
  u_lastStableGestureN :: gesture

definition newRecognizerN :: recognizerN where
  "newRecognizerN =
     \<lparr> u_gestureBufferN = [], u_palmHistoryN = [], u_lastSwipeTimeN = 0,
       u_smoothTwoHandDistN = None, u_twistPoseActiveN = False,
       u_lastStableGestureN = GNone \<rparr>"

definition output0N :: sampleN where
  "output0N =
     \<lparr> gestureN = GNone, confidenceN = Num 0, handPositionN = None, palmDeltaN = None,
       twistPoseScoreN = Num 0, twistPoseActiveN = False, handsDetectedN = 0,
       twoHandDistanceN = None, twoHandDeltaN = Num 0, fingerCurlsN = None \<rparr>"

definition stabilizeN :: "gesture \<Rightarrow> sampleN \<Rightarrow> recognizerN \<Rightarrow> sampleN \<times> recognizerN" where
  "stabilizeN rawGesture output st =
     (let buf = u_gestureBufferN st @ [rawGesture];
          buf = (if length buf > STABILITY_BUFFER_SIZE then tl buf else buf);
          (best, bestCount) = mostCommon (countGestures buf);
          threshold = nat \<lceil>real STABILITY_BUFFER_SIZE * 0.6\<rceil>;
          g = (if bestCount \<ge> threshold then best else u_lastStableGestureN st);
          g = (if rawGesture = SwipeLeft \<or> rawGesture = SwipeRight then rawGesture else g);
          g = (if u_twistPoseActiveN st \<and> rawGesture \<notin> set highPriority then TwistPose else g)
      in (output\<lparr>gestureN := g\<rparr>,
          st\<lparr>u_gestureBufferN := buf, u_lastStableGestureN := g\<rparr>))"

definition detectSwipeN :: "int \<Rightarrow> recognizerN \<Rightarrow> gesture option \<times> recognizerN" where
  "detectSwipeN now st =
     (if now - u_lastSwipeTimeN st < 700 then (None, st)
      else if length (u_palmHistoryN st) < 5 then (None, st)
      else let cutoff = now - 250;
               recent = filter (\<lambda>p. htimeN p \<ge> cutoff) (u_palmHistoryN st)
           in if length recent < 4 then (None, st)
              else let first = recent ! 0;
                       lst = recent ! (length recent - 1);
                       dx = hxN lst - hxN first;
                       dy = hyN lst - hyN first;
                       dt = htimeN lst - htimeN first
                   in if dt < 50 then (None, st)
                      else let velocityX = dx / Num (real_of_int dt / 1000);
                               absVelX = Math_abs velocityX
                           in if absVelX > Num 0.8 \<and> Math_abs dy < Math_abs dx * Num 0.5
                              then (Some (if dx > Num 0 then SwipeRight else SwipeLeft),
                                    st\<lparr>u_lastSwipeTimeN := now, u_palmHistoryN := []\<rparr>)
                              else (None, st))"

definition resetOnLossN :: "recognizerN \<Rightarrow> recognizerN" where
  "resetOnLossN st =
     st\<lparr> u_palmHistoryN := [], u_smoothTwoHandDistN := None, u_gestureBufferN := [],
         u_twistPoseActiveN := False \<rparr>"

definition trackPalmN ::
  "int \<Rightarrow> jsnum \<Rightarrow> jsnum \<Rightarrow> palm_entryN list \<Rightarrow> (jsnum \<times> jsnum) option \<times> palm_entryN list" where
  "trackPalmN now palmX palmY hist =
     (let delta =
            (if length hist > 0
             then let prev = hist ! (length hist - 1); dt = now - htimeN prev
                  in if dt > 0 \<and> dt < 200 then Some (palmX - hxN prev, palmY - hyN prev) else None
             else None);
          hist = hist @ [\<lparr> hxN = palmX, hyN = palmY, htimeN = now \<rparr>];
          hist = (if length hist > 20 then tl hist else hist)
      in (delta, hist))"

definition twistHysteresisN :: "bool \<Rightarrow> jsnum \<Rightarrow> bool" where
  "twistHysteresisN active score =
     (if \<not> active \<and> score \<ge> Num u_twistPoseEnterThreshold then True
      else if active \<and> score < Num u_twistPoseExitThreshold then False
      else active)"

definition twoHandTrackN :: "handN list \<Rightarrow> sampleN \<Rightarrow> recognizerN \<Rightarrow> sampleN \<times> recognizerN" where
  "twoHandTrackN landmarks output st =
     (if length landmarks \<ge> 2
      then let lm = landmarks ! 0;
               lm2 = landmarks ! 1;
               palm1 = (pxN (lm ! WRIST), pyN (lm ! WRIST));
               palm2 = (pxN (lm2 ! WRIST), pyN (lm2 ! WRIST));
               rawDist = dist2DN palm1 palm2;
               (output, smooth) =
                 (case u_smoothTwoHandDistN st of
                    None \<Rightarrow> (output, rawDist)
                  | Some prevSmooth \<Rightarrow>
                      let smooth = prevSmooth + (rawDist - prevSmooth) * Num u_twoHandSmoothing
                      in (output\<lparr>twoHandDeltaN := smooth - prevSmooth\<rparr>, smooth))
           in (output\<lparr>twoHandDistanceN := Some smooth\<rparr>, st\<lparr>u_smoothTwoHandDistN := Some smooth\<rparr>)
      else (output, st\<lparr>u_smoothTwoHandDistN := None\<rparr>))"

definition classifyN ::
  "jsnum \<Rightarrow> jsnum \<Rightarrow> nat \<Rightarrow> bool \<Rightarrow> bool \<Rightarrow> bool \<Rightarrow> bool \<Rightarrow> bool \<Rightarrow> jsnum
     \<Rightarrow> gesture \<times> jsnum option" where
  "classifyN pinchDist middleCurl extendedCount indexExtended middleExtended ringExtended
             pinkyExtended twistActive twistScore =
     (if pinchDist < Num 0.35 \<and> middleCurl > Num 0.3
        then (Pinch, Some (Math_max (Num 0) (Num 1 - pinchDist / Num 0.35)))
      else if extendedCount \<le> 1 \<and> \<not> indexExtended \<and> \<not> middleExtended \<and> \<not> ringExtended
        then (Fist, Some (Num (1 - real extendedCount / 5)))
      else if twistActive
        then (TwistPose, Some twistScore)
      else if indexExtended \<and> \<not> middleExtended \<and> \<not> ringExtended \<and> \<not> pinkyExtended
        then (Point, Some (Num 0.9))
      else if extendedCount \<ge> 3
        then (OpenPalm, Some (Num (real extendedCount / 5)))
      else (GNone, None))"

record featuresN =
  f_palmXN :: jsnum
  f_palmYN :: jsnum
  f_indexCurlN :: jsnum
  f_middleCurlN :: jsnum
  f_ringCurlN :: jsnum
  f_pinkyCurlN :: jsnum
  f_thumbExtN :: bool
  f_indexExtendedN :: bool
  f_middleExtendedN :: bool
  f_ringExtendedN :: bool
  f_pinkyExtendedN :: bool
  f_extendedCountN :: nat
  f_pinchDistN :: jsnum
  f_twistPoseScoreN :: jsnum

definition handFeaturesN :: "handN \<Rightarrow> featuresN" where
  "handFeaturesN lm =
     (let palmSize = getPalmSizeN lm;
          indexCurl = getFingerCurlN lm INDEX_PIP INDEX_TIP;
          middleCurl = getFingerCurlN lm MIDDLE_PIP MIDDLE_TIP;
          ringCurl = getFingerCurlN lm RING_PIP RING_TIP;
          pinkyCurl = getFingerCurlN lm PINKY_PIP PINKY_TIP;
          thumbExt = isThumbExtendedN lm;
          indexExtended = (indexCurl < Num 0.4);
          middleExtended = (middleCurl < Num 0.4);
          ringExtended = (ringCurl < Num 0.4);
          pinkyExtended = (pinkyCurl < Num 0.4);
          pinchDist = distN (lm ! THUMB_TIP) (lm ! INDEX_TIP) / palmSize;
          curledOthersScore = (middleCurl + ringCurl + pinkyCurl) / Num 3;
          thumbReady = (thumbExt \<or> pinchDist < Num 0.72);
          indexReady = (indexExtended \<or> indexCurl < Num 0.55)
      in \<lparr> f_palmXN = (pxN (lm ! WRIST) + pxN (lm ! INDEX_MCP) + pxN (lm ! PINKY_MCP)) / Num 3,
           f_palmYN = (pyN (lm ! WRIST) + pyN (lm ! INDEX_MCP) + pyN (lm ! PINKY_MCP)) / Num 3,
           f_indexCurlN = indexCurl, f_middleCurlN = middleCurl, f_ringCurlN = ringCurl,
           f_pinkyCurlN = pinkyCurl, f_thumbExtN = thumbExt,
           f_indexExtendedN = indexExtended, f_middleExtendedN = middleExtended,
           f_ringExtendedN = ringExtended, f_pinkyExtendedN = pinkyExtended,
           f_extendedCountN =
             length (filter (\<lambda>b. b)
               [thumbExt, indexExtended, middleExtended, ringExtended, pinkyExtended]),
           f_pinchDistN = pinchDist,
           f_twistPoseScoreN =
             clampN (Num (if thumbReady then 0.34 else 0) + Num (if indexReady then 0.34 else 0)
                      + curledOthersScore * Num 0.18 + Num (if pinchDist < Num 0.55 then 0.18 else 0))
               (Num 0) (Num 1) \<rparr>)"

definition singleHandN :: "featuresN \<Rightarrow> int \<Rightarrow> sampleN \<Rightarrow> recognizerN \<Rightarrow> sampleN \<times> recognizerN" where
  "singleHandN f swipeNow output st =
     (let (rawGesture, conf) =
            classifyN (f_pinchDistN f) (f_middleCurlN f) (f_extendedCountN f) (f_indexExtendedN f)
              (f_middleExtendedN f) (f_ringExtendedN f) (f_pinkyExtendedN f)
              (u_twistPoseActiveN st) (f_twistPoseScoreN f);
          output = (case conf of None \<Rightarrow> output | Some c \<Rightarrow> output\<lparr>confidenceN := c\<rparr>);
          (swipe, st) = detectSwipeN swipeNow st;
          (rawGesture, output) =
            (case swipe of None \<Rightarrow> (rawGesture, output)
             | Some s \<Rightarrow> (s, output\<lparr>confidenceN := Num 0.85\<rparr>))
      in stabilizeN rawGesture output st)"

definition recognizeHandsN ::
  "handN list \<Rightarrow> int \<Rightarrow> int \<Rightarrow> recognizerN \<Rightarrow> sampleN \<times> recognizerN" where
  "recognizeHandsN landmarks now swipeNow st =
     (let f = handFeaturesN (landmarks ! 0);
          (delta, hist) = trackPalmN now (f_palmXN f) (f_palmYN f) (u_palmHistoryN st);
          active = twistHysteresisN (u_twistPoseActiveN st) (f_twistPoseScoreN f);
          st = st\<lparr>u_palmHistoryN := hist, u_twistPoseActiveN := active\<rparr>;
          output =
            \<lparr> gestureN = GNone, confidenceN = Num 0,
              handPositionN = Some (f_palmXN f, f_palmYN f), palmDeltaN = delta,
              twistPoseScoreN = f_twistPoseScoreN f,
              twistPoseActiveN = active, handsDetectedN = length landmarks,
              twoHandDistanceN = None, twoHandDeltaN = Num 0,
              fingerCurlsN =
                Some \<lparr> fc_indexN = f_indexCurlN f, fc_middleN = f_middleCurlN f,
                       fc_ringN = f_ringCurlN f, fc_pinkyN = f_pinkyCurlN f,
                       fc_thumbExtendedN = f_thumbExtN f \<rparr> \<rparr>;
          (output, st) = twoHandTrackN landmarks output st
      in if length landmarks \<ge> 2 \<and> Math_abs (twoHandDeltaN output) > Num 0.003
         then stabilizeN (if twoHandDeltaN output > Num 0 then Spread else Squeeze)
                (output\<lparr>confidenceN := Math_min (Num 1) (Math_abs (twoHandDeltaN output) * Num 15)\<rparr>) st
         else singleHandN f swipeNow output st)"

definition noHandsN :: "resultsN \<Rightarrow> bool" where
  "noHandsN res = (case res of None \<Rightarrow> True | Some None \<Rightarrow> True | Some (Some hs) \<Rightarrow> length hs = 0)"

definition recognizeN ::
  "resultsN \<Rightarrow> int \<Rightarrow> int \<Rightarrow> recognizerN \<Rightarrow> error + (sampleN \<times> recognizerN)" where
  "recognizeN res now swipeNow st =
     (if noHandsN res then Inr (output0N, resetOnLossN st)
      else let landmarks = the (the res)
           in if length (landmarks ! 0) < 21 then Inl TypeError
              else if length landmarks \<ge> 2 \<and> length (landmarks ! 1) < 1 then Inl TypeError
              else Inr (recognizeHandsN landmarks now swipeNow st))"

text \<open>
  Coordinates that are numbers small enough for their squares not to overflow a double,
  and the landmarks of the primary hand that the curls of the middle, ring and little
  finger are computed from: the wrist and the PIP joint and the tip of each.
\<close>

definition finiteCoord :: "jsnum \<Rightarrow> bool" where
  "finiteCoord v = (case v of Num r \<Rightarrow> \<bar>r\<bar> \<le> 10 ^ 150 | NaN \<Rightarrow> False)"

definition finiteLandmark :: "landmark \<Rightarrow> bool" where
  "finiteLandmark p = (finiteCoord (pxN p) \<and> finiteCoord (pyN p) \<and> finiteCoord (pzN p))"

definition curlLandmarks :: "nat list" where
  "curlLandmarks = [WRIST, MIDDLE_PIP, MIDDLE_TIP, RING_PIP, RING_TIP, PINKY_PIP, PINKY_TIP]"

subsection \<open>From the first embedding to this one\<close>

text \<open>
  Landmarks, samples and recognizers of the first embedding as values of this one, every
  real \<open>r\<close> as \<open>Num r\<close>; the angle fields are dropped.
\<close>

definition ofPoint :: "point \<Rightarrow> landmark" where
  "ofPoint p = \<lparr> pxN = Num (px p), pyN = Num (py p), pzN = Num (pz p) \<rparr>"

definition ofEntry :: "palm_entry \<Rightarrow> palm_entryN" where
  "ofEntry e = \<lparr> hxN = Num (hx e), hyN = Num (hy e), htimeN = htime e \<rparr>"

definition ofCurls :: "finger_curls \<Rightarrow> finger_curlsN" where
  "ofCurls c = \<lparr> fc_indexN = Num (fc_index c), fc_middleN = Num (fc_middle c),
                 fc_ringN = Num (fc_ring c), fc_pinkyN = Num (fc_pinky c),
                 fc_thumbExtendedN = fc_thumbExtended c \<rparr>"

definition ofPair :: "real \<times> real \<Rightarrow> jsnum \<times> jsnum" where
  "ofPair p = (Num (fst p), Num (snd p))"

definition ofSample :: "sample \<Rightarrow> sampleN" where
  "ofSample out =
     \<lparr> gestureN = gesture out, confidenceN = Num (confidence out),
       handPositionN = map_option ofPair (handPosition out),
       palmDeltaN = map_option ofPair (palmDelta out),
       twistPoseScoreN = Num (twistPoseScore out), twistPoseActiveN = twistPoseActive out,
       handsDetectedN = handsDetected out,
       twoHandDistanceN = map_option Num (twoHandDistance out),
       twoHandDeltaN = Num (twoHandDelta out),
       fingerCurlsN = map_option ofCurls (fingerCurls out) \<rparr>"

definition ofRecognizer :: "recognizer \<Rightarrow> recognizerN" where
  "ofRecognizer st =
     \<lparr> u_gestureBufferN = u_gestureBuffer st,
       u_palmHistoryN = map ofEntry (u_palmHistory st),
       u_lastSwipeTimeN = u_lastSwipeTime st,
       u_smoothTwoHandDistN = map_option Num (u_smoothTwoHandDist st),
       u_twistPoseActiveN = u_twistPoseActive st,
       u_lastStableGestureN = u_lastStableGesture st \<rparr>"

definition ofFeatures :: "features \<Rightarrow> featuresN" where
  "ofFeatures f =
     \<lparr> f_palmXN = Num (f_palmX f), f_palmYN = Num (f_palmY f),
       f_indexCurlN = Num (f_indexCurl f), f_middleCurlN = Num (f_middleCurl f),
       f_ringCurlN = Num (f_ringCurl f), f_pinkyCurlN = Num (f_pinkyCurl f),
       f_thumbExtN = f_thumbExt f, f_indexExtendedN = f_indexExtended f,
       f_middleExtendedN = f_middleExtended f, f_ringExtendedN = f_ringExtended f,
       f_pinkyExtendedN = f_pinkyExtended f, f_extendedCountN = f_extendedCount f,
       f_pinchDistN = Num (f_pinchDist f), f_twistPoseScoreN = Num (f_twistPoseScore f) \<rparr>"

definition ofResults :: "results \<Rightarrow> resultsN" where
  "ofResults res = map_option (map_option (map (map ofPoint))) res"

section \<open>The target model (\<open>BrainModel\<close>)\<close>

text \<open>
  The fields of the brain model that the gesture controller reads and writes;
  \<open>rotation_x\<close> and \<open>rotation_y\<close> are \<open>group.rotation.x\<close> and \<open>group.rotation.y\<close>.
  Region ids are strings, \<open>null\<close> and \<open>undefined\<close> are \<open>None\<close>. The material updates
  of \<open>highlightRegion\<close> are rendering and are left out.
\<close>

record brainModel =
  isIdle :: bool
  rotation_x :: real
  rotation_y :: real
  targetRotationX :: real
  targetRotationY :: real
  targetExplosion :: real
  regionList :: "string list"
  selectedIndex :: int
  selectedId :: "string option"

text \<open>\<open>Array.prototype.indexOf\<close> and the remainder operator \<open>%\<close> of JavaScript.\<close>

fun indexOf :: "string list \<Rightarrow> string \<Rightarrow> int" where
  "indexOf [] r = -1"
| "indexOf (q # qs) r = (if q = r then 0 else let i = indexOf qs r in if i < 0 then -1 else i + 1)"

definition jsRem :: "int \<Rightarrow> int \<Rightarrow> int" where
  "jsRem a b = sgn a * (\<bar>a\<bar> mod \<bar>b\<bar>)"

definition jsIndex :: "string list \<Rightarrow> int \<Rightarrow> string option" where
  "jsIndex rs i = (if 0 \<le> i \<and> i < int (length rs) then Some (rs ! nat i) else None)"

definition highlightRegion :: "string option \<Rightarrow> brainModel \<Rightarrow> brainModel" where
  "highlightRegion regionId b =
     b\<lparr> selectedId := regionId,
        selectedIndex := (case regionId of None \<Rightarrow> -1
                          | Some r \<Rightarrow> if r = [] then -1 else indexOf (regionList b) r) \<rparr>"

definition selectNext :: "brainModel \<Rightarrow> string option \<times> brainModel" where
  "selectNext b =
     (if length (regionList b) = 0 then (None, b)
      else let b = b\<lparr>selectedIndex := jsRem (selectedIndex b + 1) (int (length (regionList b)))\<rparr>;
               b = highlightRegion (jsIndex (regionList b) (selectedIndex b)) b
           in (selectedId b, b))"

definition selectPrevious :: "brainModel \<Rightarrow> string option \<times> brainModel" where
  "selectPrevious b =
     (if length (regionList b) = 0 then (None, b)
      else let b = b\<lparr>selectedIndex :=
                       jsRem (selectedIndex b - 1 + int (length (regionList b)))
                             (int (length (regionList b)))\<rparr>;
               b = highlightRegion (jsIndex (regionList b) (selectedIndex b)) b
           in (selectedId b, b))"

definition reset :: "brainModel \<Rightarrow> brainModel" where
  "reset b = (highlightRegion None b)\<lparr>targetExplosion := 0, targetRotationX := 0, targetRotationY := 0\<rparr>"

definition setExplosion :: "real \<Rightarrow> brainModel \<Rightarrow> brainModel" where
  "setExplosion amount b = b\<lparr>targetExplosion := max 0 (min 1 amount)\<rparr>"

definition addExplosion :: "real \<Rightarrow> brainModel \<Rightarrow> brainModel" where
  "addExplosion delta b = b\<lparr>targetExplosion := max 0 (min 1 (targetExplosion b + delta))\<rparr>"

definition setIdle :: "bool \<Rightarrow> brainModel \<Rightarrow> brainModel" where
  "setIdle idle b = b\<lparr>isIdle := idle\<rparr>"

section \<open>The gesture controller (\<open>GestureControls\<close>)\<close>

text \<open>
  Every method of the controller returns the controller it leaves behind and the list of
  the calls it made, in order: the methods of the brain model it invoked and the user
  interface callbacks it fired. A callback field holds whether a callback is installed.
\<close>

datatype call =
  SetIdle bool | Reset | SelectNext | SelectPrevious | SetExplosion real | AddExplosion real
  | OnGestureChange gesture | OnRegionSelect "string option" | OnExplosionChange real

record controls =
  brain :: brainModel
  currentGesture :: gesture
  gestureStartTime :: int
  gestureDuration :: int
  u_rotationVelocityY :: real
  u_smoothTiltDY :: real
  u_pinchTriggered :: bool
  u_lastPinchTime :: int
  u_fistTriggered :: bool
  u_lastFistTime :: int
  u_smoothExpansionDelta :: real
  u_lastActiveTime :: int
  onGestureChange :: bool
  onRegionSelect :: bool
  onExplosionChange :: bool

definition u_twistSensitivity :: real where "u_twistSensitivity = 2.8"
definition u_twistDeadZone :: real where "u_twistDeadZone = 0.0012"
definition u_twistAccel :: real where "u_twistAccel = 0.45"
definition u_twistDecel :: real where "u_twistDecel = 0.15"
definition u_tiltSensitivity :: real where "u_tiltSensitivity = 2.2"
definition u_tiltSmoothing :: real where "u_tiltSmoothing = 0.18"
definition u_maxTiltStep :: real where "u_maxTiltStep = 0.01"
definition u_pinchCooldown :: int where "u_pinchCooldown = 700"
definition u_fistHoldRequired :: int where "u_fistHoldRequired = 800"
definition u_expansionSmoothing :: real where "u_expansionSmoothing = 0.3"
definition u_idleTimeout :: int where "u_idleTimeout = 2500"

text \<open>The controller as its constructor leaves it, on a given brain model.\<close>

definition newControls :: "brainModel \<Rightarrow> controls" where
  "newControls b =
     \<lparr> brain = b, currentGesture = GNone, gestureStartTime = 0, gestureDuration = 0,
       u_rotationVelocityY = 0, u_smoothTiltDY = 0, u_pinchTriggered = False,
       u_lastPinchTime = 0, u_fistTriggered = False, u_lastFistTime = 0,
       u_smoothExpansionDelta = 0, u_lastActiveTime = 0,
       onGestureChange = False, onRegionSelect = False, onExplosionChange = False \<rparr>"

definition handleRotation :: "sample \<Rightarrow> controls \<Rightarrow> controls \<times> call list" where
  "handleRotation data c =
     (let b = setIdle False (brain c);
          twistDelta = handAngleDelta data;
          targetVel = (if \<bar>twistDelta\<bar> > u_twistDeadZone then twistDelta * u_twistSensitivity else 0);
          vel = u_rotationVelocityY c + (targetVel - u_rotationVelocityY c) * u_twistAccel;
          b = b\<lparr>rotation_y := rotation_y b + vel\<rparr>;
          (tilt, b) =
            (case palmDelta data of
               None \<Rightarrow> (u_smoothTiltDY c, b)
             | Some (ddx, ddy) \<Rightarrow>
                 let tilt = u_smoothTiltDY c + (ddy - u_smoothTiltDY c) * u_tiltSmoothing
                 in if \<bar>tilt\<bar> > 0.0015
                    then let tiltStep = max (- u_maxTiltStep) (min u_maxTiltStep (tilt * u_tiltSensitivity));
                             b = b\<lparr>rotation_x := rotation_x b + tiltStep\<rparr>
                         in (tilt, b\<lparr>rotation_x := max (- 0.8) (min 0.8 (rotation_x b))\<rparr>)
                    else (tilt, b));
          b = b\<lparr>targetRotationY := rotation_y b\<rparr>;
          b = b\<lparr>targetRotationX := rotation_x b\<rparr>
      in (c\<lparr>brain := b, u_rotationVelocityY := vel, u_smoothTiltDY := tilt,
            u_pinchTriggered := False, u_fistTriggered := False\<rparr>,
          [SetIdle False]))"

definition decayRotation :: "controls \<Rightarrow> controls" where
  "decayRotation c =
     (let vel = u_rotationVelocityY c + (0 - u_rotationVelocityY c) * u_twistDecel;
          tilt = u_smoothTiltDY c + (0 - u_smoothTiltDY c) * u_twistDecel;
          b = brain c;
          (vel, b) = (if \<bar>vel\<bar> > 0.00005 then (vel, b\<lparr>rotation_y := rotation_y b + vel\<rparr>)
                      else (0, b));
          b = b\<lparr>targetRotationY := rotation_y b\<rparr>;
          b = b\<lparr>targetRotationX := rotation_x b\<rparr>
      in c\<lparr>brain := b, u_rotationVelocityY := vel, u_smoothTiltDY := tilt\<rparr>)"

text \<open>The auto-expansion that follows a selection in \<open>_handlePinch\<close> and \<open>_handleSwipe\<close>.\<close>

definition autoExpand :: "controls \<Rightarrow> controls \<times> call list" where
  "autoExpand c =
     (if targetExplosion (brain c) < 0.15
      then (c\<lparr>brain := setExplosion 0.2 (brain c)\<rparr>,
            [SetExplosion 0.2] @ (if onExplosionChange c then [OnExplosionChange 0.2] else []))
      else (c, []))"

definition handlePinch :: "int \<Rightarrow> controls \<Rightarrow> controls \<times> call list" where
  "handlePinch now c =
     (if u_pinchTriggered c then (c, [])
      else if now - u_lastPinchTime c < u_pinchCooldown then (c, [])
      else let c = c\<lparr>u_pinchTriggered := True, u_lastPinchTime := now\<rparr>;
               c = c\<lparr>brain := setIdle False (brain c)\<rparr>;
               (selected, b) = selectNext (brain c);
               c = c\<lparr>brain := b\<rparr>;
               (c, cs) = autoExpand c
           in (c, [SetIdle False, SelectNext]
                  @ (if onRegionSelect c then [OnRegionSelect selected] else []) @ cs))"

definition handleFist :: "int \<Rightarrow> controls \<Rightarrow> controls \<times> call list" where
  "handleFist now c =
     (if u_fistTriggered c then (c, [])
      else if gestureDuration c < u_fistHoldRequired then (c, [])
      else if now - u_lastFistTime c < 1500 then (c, [])
      else let c = c\<lparr>u_fistTriggered := True, u_lastFistTime := now\<rparr>;
               c = c\<lparr>brain := setIdle True (reset (brain c))\<rparr>
           in (c, [Reset, SetIdle True]
                  @ (if onRegionSelect c then [OnRegionSelect None] else [])
                  @ (if onExplosionChange c then [OnExplosionChange 0] else [])
                  @ (if onGestureChange c then [OnGestureChange GNone] else [])))"

definition handleExpansion :: "sample \<Rightarrow> real \<Rightarrow> controls \<Rightarrow> controls \<times> call list" where
  "handleExpansion data direction c =
     (let c = c\<lparr>brain := setIdle False (brain c)\<rparr>;
          rawDelta = \<bar>twoHandDelta data\<bar> * direction;
          smooth = u_smoothExpansionDelta c
                     + (rawDelta - u_smoothExpansionDelta c) * u_expansionSmoothing;
          c = c\<lparr>u_smoothExpansionDelta := smooth\<rparr>;
          c = c\<lparr>brain := addExplosion (smooth * 3.0) (brain c)\<rparr>
      in (c\<lparr>u_pinchTriggered := False, u_fistTriggered := False\<rparr>,
          [SetIdle False, AddExplosion (smooth * 3.0)]
            @ (if onExplosionChange c then [OnExplosionChange (targetExplosion (brain c))] else [])))"

text \<open>\<open>_handleSwipe\<close>; the direction is \<open>True\<close> for \<open>'right'\<close>.\<close>

definition handleSwipe :: "bool \<Rightarrow> controls \<Rightarrow> controls \<times> call list" where
  "handleSwipe right c =
     (let (selected, b) = (if right then selectNext (brain c) else selectPrevious (brain c));
          c = c\<lparr>brain := b\<rparr>;
          (c, cs) = autoExpand c
      in (c, [if right then SelectNext else SelectPrevious]
             @ (if onRegionSelect c then [OnRegionSelect selected] else []) @ cs))"

text \<open>\<open>update\<close>; \<open>now\<close> is the clock value it reads.\<close>

definition update :: "sample \<Rightarrow> int \<Rightarrow> controls \<Rightarrow> controls \<times> call list" where
  "update gestureData now c =
     (let g = gesture gestureData;
          c = (if g \<noteq> currentGesture c
               then let c = (if currentGesture c = Pinch then c\<lparr>u_pinchTriggered := False\<rparr> else c);
                        c = (if currentGesture c = Fist then c\<lparr>u_fistTriggered := False\<rparr> else c)
                    in c\<lparr>currentGesture := g, gestureStartTime := now\<rparr>
               else c);
          c = c\<lparr>gestureDuration := now - gestureStartTime c\<rparr>;
          cs0 = (if onGestureChange c then [OnGestureChange g] else [])
      in if handsDetected gestureData = 0
         then let c = decayRotation c;
                  c = c\<lparr>u_pinchTriggered := False, u_fistTriggered := False\<rparr>
              in if now - u_lastActiveTime c > u_idleTimeout
                 then (c\<lparr>brain := setIdle True (brain c)\<rparr>, cs0 @ [SetIdle True])
                 else (c, cs0)
         else let c = c\<lparr>u_lastActiveTime := now\<rparr>;
                  (c, cs) =
                    (case g of
                       Pinch \<Rightarrow>
                         let (c, cs1) = handlePinch now c
                         in if twistPoseActive gestureData
                            then let (c, cs2) = handleRotation gestureData c in (c, cs1 @ cs2)
                            else (decayRotation c, cs1)
                     | Fist \<Rightarrow> handleFist now c
                     | Spread \<Rightarrow> handleExpansion gestureData 1 c
                     | Squeeze \<Rightarrow> handleExpansion gestureData (- 1) c
                     | SwipeLeft \<Rightarrow> handleSwipe False c
                     | SwipeRight \<Rightarrow> handleSwipe True c
                     | TwistPose \<Rightarrow> handleRotation gestureData c
                     | _ \<Rightarrow> (decayRotation c, []))
              in (c, cs0 @ cs))"

text \<open>
  A run of the controller over a list of frames \<open>(sample, clock value)\<close>: the final
  controller and, for every frame in order, its clock value with the calls made on it.
\<close>

fun updates :: "(sample \<times> int) list \<Rightarrow> controls \<Rightarrow> controls \<times> (int \<times> call list) list" where
  "updates [] c = (c, [])"
| "updates ((d, now) # fs) c =
     (let (c1, cs) = update d now c; (c2, rest) = updates fs c1 in (c2, (now, cs) # rest))"

section \<open>Runs and test frames\<close>

text \<open>
  A run of the recognizer over a list of frames \<open>(results, now, swipeNow)\<close>: the samples
  in order and the final recognizer, or the first error.
\<close>

fun recognizeAll ::
  "(results \<times> int \<times> int) list \<Rightarrow> recognizer \<Rightarrow> error + (sample list \<times> recognizer)" where
  "recognizeAll [] st = Inr ([], st)"
| "recognizeAll ((res, now, swipeNow) # fs) st =
     (case recognize res now swipeNow st of
        Inl e \<Rightarrow> Inl e
      | Inr (out, st1) \<Rightarrow>
          (case recognizeAll fs st1 of
             Inl e \<Rightarrow> Inl e
           | Inr (outs, st2) \<Rightarrow> Inr (out # outs, st2)))"

text \<open>
  Hands for concrete frames. All 21 landmarks lie on the vertical line at \<open>x0\<close>, in the
  image plane: the wrist at height 0, the four knuckles at 0.1, the thumb joints at \<open>t\<close>,
  the index finger's middle joints at \<open>pI\<close> and its tip at \<open>qI\<close>, the middle joints of
  the other three fingers at \<open>p\<close> and their tips at \<open>q\<close>.
\<close>

definition pt :: "real \<Rightarrow> real \<Rightarrow> point" where
  "pt a b = \<lparr> px = a, py = b, pz = 0 \<rparr>"

definition lineHand :: "real \<Rightarrow> real \<Rightarrow> real \<Rightarrow> real \<Rightarrow> real \<Rightarrow> real \<Rightarrow> hand" where
  "lineHand x0 t pI qI p q =
     [pt x0 0, pt x0 t, pt x0 t, pt x0 t, pt x0 t,
      pt x0 0.1, pt x0 pI, pt x0 pI, pt x0 qI,
      pt x0 0.1, pt x0 p, pt x0 p, pt x0 q,
      pt x0 0.1, pt x0 p, pt x0 p, pt x0 q,
      pt x0 0.1, pt x0 p, pt x0 p, pt x0 q]"

text \<open>An open hand, a fist, a pointing hand and a thumb-and-index twist pose.\<close>

definition openHand :: "real \<Rightarrow> hand" where
  "openHand x0 = lineHand x0 0 0.15 0.25 0.15 0.25"

definition fistHand :: "real \<Rightarrow> hand" where
  "fistHand x0 = lineHand x0 (- 0.1) 0.1 0.05 0.1 0.05"

definition pointHand :: "real \<Rightarrow> hand" where
  "pointHand x0 = lineHand x0 (- 0.1) 0.15 0.25 0.1 0.05"

definition twistHand :: "real \<Rightarrow> hand" where
  "twistHand x0 = lineHand x0 0.2 0.15 0.25 0.1 0.05"

text \<open>A frame showing one hand, both clock reads at the same instant.\<close>

definition frame :: "hand \<Rightarrow> int \<Rightarrow> results \<times> int \<times> int" where
  "frame h t = (Some (Some [h]), t, t)"

text \<open>Four frames for the hysteresis: a twist pose, two pointing hands, an open hand.\<close>

definition tw1 :: "sample \<times> recognizer" where
  "tw1 = recognizeHands [twistHand 0] 1000 1000 newRecognizer"

definition tw2 :: "sample \<times> recognizer" where
  "tw2 = recognizeHands [pointHand 0] 1050 1050 (snd tw1)"

definition tw3 :: "sample \<times> recognizer" where
  "tw3 = recognizeHands [pointHand 0] 1100 1100 (snd tw2)"

definition tw4 :: "sample \<times> recognizer" where
  "tw4 = recognizeHands [openHand 0] 1150 1150 (snd tw3)"

text \<open>
  A run of \<open>_stabilize\<close> over a list of calls \<open>(rawGesture, output)\<close>: the samples it
  returns, in order, and the final recognizer.
\<close>

fun stabilizeAll :: "(gesture \<times> sample) list \<Rightarrow> recognizer \<Rightarrow> sample list \<times> recognizer" where
  "stabilizeAll [] st = ([], st)"
| "stabilizeAll ((raw, out) # fs) st =
     (let (out1, st1) = stabilize raw out st; (outs, st2) = stabilizeAll fs st1
      in (out1 # outs, st2))"

text \<open>Two recognizers for the vote: two open palms buffered; an open palm and a fist buffered after a stable pinch.\<close>

definition voteA :: recognizer where
  "voteA = newRecognizer\<lparr>u_gestureBuffer := [OpenPalm, OpenPalm]\<rparr>"

definition voteB :: recognizer where
  "voteB = newRecognizer\<lparr>u_gestureBuffer := [OpenPalm, Fist], u_lastStableGesture := Pinch\<rparr>"

text \<open>
  A run of the recognizer that keeps, for every frame, the sample returned and the
  recognizer left behind.
\<close>

fun recognizeTrace ::
  "(results \<times> int \<times> int) list \<Rightarrow> recognizer \<Rightarrow> error + (sample \<times> recognizer) list" where
  "recognizeTrace [] st = Inr []"
| "recognizeTrace ((res, now, swipeNow) # fs) st =
     (case recognize res now swipeNow st of
        Inl e \<Rightarrow> Inl e
      | Inr (out, st1) \<Rightarrow>
          (case recognizeTrace fs st1 of
             Inl e \<Rightarrow> Inl e
           | Inr tr \<Rightarrow> Inr ((out, st1) # tr)))"

text \<open>
  The part of a one-hand frame that decides the label: palm tracking, hysteresis, the
  priority chain, the swipe check and the stabilization, without the hand-roll filter and
  the two-hand block, on an empty \<open>output\<close>.
\<close>

definition oneHandLabel :: "hand \<Rightarrow> int \<Rightarrow> int \<Rightarrow> recognizer \<Rightarrow> sample \<times> recognizer" where
  "oneHandLabel h now swipeNow st =
     (let f = handFeatures h;
          hist = snd (trackPalm now (f_palmX f) (f_palmY f) (u_palmHistory st));
          active = twistHysteresis (u_twistPoseActive st) (f_twistPoseScore f)
      in singleHand f swipeNow output0 (st\<lparr>u_palmHistory := hist, u_twistPoseActive := active\<rparr>))"

text \<open>The five fields of the recognizer that decide the labels of one-hand frames.\<close>

definition core :: "recognizer \<Rightarrow> gesture list \<times> palm_entry list \<times> int \<times> bool \<times> gesture" where
  "core st = (u_gestureBuffer st, u_palmHistory st, u_lastSwipeTime st, u_twistPoseActive st,
              u_lastStableGesture st)"

text \<open>
  Six frames of a hand sweeping to the right at two units per second, 50 ms apart:
  three open hands, then three fists.
\<close>

definition sw1 :: "sample \<times> recognizer" where
  "sw1 = recognizeHands [openHand 0.1] 1000 1000 newRecognizer"

definition sw2 :: "sample \<times> recognizer" where
  "sw2 = recognizeHands [openHand 0.2] 1050 1050 (snd sw1)"

definition sw3 :: "sample \<times> recognizer" where
  "sw3 = recognizeHands [openHand 0.3] 1100 1100 (snd sw2)"

definition sw4 :: "sample \<times> recognizer" where
  "sw4 = recognizeHands [fistHand 0.4] 1150 1150 (snd sw3)"

definition sw5 :: "sample \<times> recognizer" where
  "sw5 = recognizeHands [fistHand 0.5] 1200 1200 (snd sw4)"

definition sw6 :: "sample \<times> recognizer" where
  "sw6 = recognizeHands [fistHand 0.6] 1250 1250 (snd sw5)"

text \<open>
  A loss of the hand: three open hands, a frame without a hand, then three fists.
\<close>

definition ls1 :: "sample \<times> recognizer" where
  "ls1 = recognizeHands [openHand 0.5] 1000 1000 newRecognizer"

definition ls2 :: "sample \<times> recognizer" where
  "ls2 = recognizeHands [openHand 0.5] 1050 1050 (snd ls1)"

definition ls3 :: "sample \<times> recognizer" where
  "ls3 = recognizeHands [openHand 0.5] 1100 1100 (snd ls2)"

definition ls4 :: "sample \<times> recognizer" where
  "ls4 = (output0, resetOnLoss (snd ls3))"

definition ls5 :: "sample \<times> recognizer" where
  "ls5 = recognizeHands [fistHand 0.5] 1200 1200 (snd ls4)"

definition ls6 :: "sample \<times> recognizer" where
  "ls6 = recognizeHands [fistHand 0.5] 1250 1250 (snd ls5)"

definition ls7 :: "sample \<times> recognizer" where
  "ls7 = recognizeHands [fistHand 0.5] 1300 1300 (snd ls6)"

text \<open>The brain model as its constructor leaves it, with the region ids of the repository.\<close>

definition newBrain :: brainModel where
  "newBrain =
     \<lparr> isIdle = True, rotation_x = 0, rotation_y = 0, targetRotationX = 0, targetRotationY = 0,
       targetExplosion = 0,
       regionList = [''frontal_lobe'', ''parietal_lobe'', ''temporal_lobe_left'',
         ''temporal_lobe_right'', ''occipital_lobe'', ''cerebellum'', ''brain_stem'',
         ''thalamus'', ''hypothalamus'', ''hippocampus'', ''amygdala'', ''corpus_callosum'',
         ''basal_ganglia''],
       selectedIndex = - 1, selectedId = None \<rparr>"

text \<open>A sample with one hand and a given label, and the sample of a frame without a hand.\<close>

definition handSample :: "gesture \<Rightarrow> sample" where
  "handSample g = output0\<lparr>gesture := g, handsDetected := 1\<rparr>"

definition noHandSample :: sample where
  "noHandSample = output0"

text \<open>
  The clock values of the frames of a run on which \<open>brain.reset()\<close> was called, and the
  cooldown between them: each lies at least 1500 ms after the one before, the first one
  after \<open>prev\<close>.
\<close>

definition resetTimes :: "(int \<times> call list) list \<Rightarrow> int list" where
  "resetTimes lg = map fst (filter (\<lambda>(t, cs). Reset \<in> set cs) lg)"

fun cooldownFrom :: "int \<Rightarrow> int list \<Rightarrow> bool" where
  "cooldownFrom prev [] = True"
| "cooldownFrom prev (t # ts) = (1500 \<le> t - prev \<and> cooldownFrom t ts)"

text \<open>Whether the fist handler fires on a frame: the three guards of \<open>_handleFist\<close>.\<close>

definition fistFires :: "int \<Rightarrow> controls \<Rightarrow> bool" where
  "fistFires now c =
     (\<not> u_fistTriggered c
      \<and> 800 \<le> now - (if currentGesture c = Fist then gestureStartTime c else now)
      \<and> 1500 \<le> now - u_lastFistTime c)"

text \<open>
  A fist held from 10000 ms to 10850 ms, released at 10900 ms, and held again from
  11000 ms to 12301 ms, on a new controller. \<open>fistState k\<close> is the controller after the
  first \<open>k\<close> frames.
\<close>

definition fistRun :: "(sample \<times> int) list" where
  "fistRun =
     [(handSample Fist, 10000), (handSample Fist, 10799), (handSample Fist, 10801),
      (handSample Fist, 10850), (handSample GNone, 10900), (handSample Fist, 11000),
      (handSample Fist, 11900), (handSample Fist, 12301)]"

definition fistState :: "nat \<Rightarrow> controls" where
  "fistState k = fst (updates (take k fistRun) (newControls newBrain))"

text \<open>
  A twist-pose sample with one hand and a given filtered angle delta, and \<open>n\<close> frames of
  it, 50 ms apart.
\<close>

definition twistSample :: "real \<Rightarrow> sample" where
  "twistSample a = output0\<lparr>gesture := TwistPose, handsDetected := 1, handAngleDelta := a\<rparr>"

definition twistFrames :: "sample \<Rightarrow> nat \<Rightarrow> (sample \<times> int) list" where
  "twistFrames d n = map (\<lambda>i. (d, 50 * int i)) [0..<n]"

text \<open>The target velocity that \<open>_handleRotation\<close> computes from a sample.\<close>

definition targetVel :: "sample \<Rightarrow> real" where
  "targetVel d =
     (if \<bar>handAngleDelta d\<bar> > u_twistDeadZone then handAngleDelta d * u_twistSensitivity else 0)"

text \<open>
  The twist-pose hand with the \<open>z\<close> field of the middle finger's tip missing, and two
  frames on a new recognizer: the twist-pose hand with all its coordinates, then the hand
  with the missing field.
\<close>

definition twistHandNoZ :: handN where
  "twistHandNoZ = (map ofPoint (twistHand 0))[MIDDLE_TIP := \<lparr> pxN = Num 0, pyN = Num 0.05, pzN = NaN \<rparr>]"

definition nz1 :: "sampleN \<times> recognizerN" where
  "nz1 = recognizeHandsN [map ofPoint (twistHand 0)] 1000 1000 newRecognizerN"

definition nz2 :: "sampleN \<times> recognizerN" where
  "nz2 = recognizeHandsN [twistHandNoZ] 1050 1050 (snd nz1)"

section \<open>Verified properties\<close>

subsection \<open>Bounds on \<open>pi\<close>\<close>

text \<open>
  \<open>3.14 < pi < 3.15\<close>, from the sign of the sine at both points; the sine is enclosed
  by its Maclaurin polynomial of degree 15.
\<close>

lemma sin_partial_sum:
  "(\<Sum>m<16. sin_coeff m * (x::real) ^ m)
     = x - x^3/6 + x^5/120 - x^7/5040 + x^9/362880 - x^11/39916800 + x^13/6227020800 - x^15/1307674368000"
proof -
  have "{..<16::nat} = {0,1,2,3,4,5,6,7,8,9,10,11,12,13,14,15}" by auto arith
  then show ?thesis
    by (simp add: sin_coeff_def fact_numeral)
qed

lemma sin_314_pos: "0 < sin (3.14::real)"
proof -
  have "\<bar>sin (3.14::real) - (\<Sum>m<16. sin_coeff m * 3.14 ^ m)\<bar> \<le> inverse (fact 16) * \<bar>3.14\<bar> ^ 16"
    by (rule Maclaurin_sin_bound)
  moreover have "(\<Sum>m<16. sin_coeff m * (3.14::real) ^ m) - inverse (fact 16) * \<bar>3.14\<bar> ^ 16 > 0"
    unfolding sin_partial_sum by (simp add: fact_numeral power_divide)
  ultimately show ?thesis by linarith
qed

lemma sin_315_neg: "sin (3.15::real) < 0"
proof -
  have "\<bar>sin (3.15::real) - (\<Sum>m<16. sin_coeff m * 3.15 ^ m)\<bar> \<le> inverse (fact 16) * \<bar>3.15\<bar> ^ 16"
    by (rule Maclaurin_sin_bound)
  moreover have "(\<Sum>m<16. sin_coeff m * (3.15::real) ^ m) + inverse (fact 16) * \<bar>3.15\<bar> ^ 16 < 0"
    unfolding sin_partial_sum by (simp add: fact_numeral power_divide)
  ultimately show ?thesis by linarith
qed

lemma pi_gt_314: "3.14 < pi"
proof (rule ccontr)
  assume "\<not> 3.14 < pi"
  then have "pi \<le> 3.14" by simp
  moreover have "(3.14::real) < 2 * pi" using pi_ge_two by simp
  ultimately have "sin (3.14::real) \<le> 0" by (rule sin_le_zero)
  with sin_314_pos show False by linarith
qed

lemma pi_lt_315: "pi < 3.15"
proof (rule ccontr)
  assume "\<not> pi < 3.15"
  then have "3.15 \<le> pi" by simp
  then have "0 \<le> sin (3.15::real)" by (intro sin_ge_zero) auto
  with sin_315_neg show False by linarith
qed

subsection \<open>Angle wrap-around (\<open>wrapAngleDelta\<close>)\<close>

text \<open>
  Claim C2, as amended. For every real \<open>d\<close>, \<open>wrapAngleDelta d\<close> is \<open>d\<close>, \<open>d - 2 pi\<close> or
  \<open>d + 2 pi\<close>: the correction is applied at most once. For \<open>- 3 pi < d \<le> 3 pi\<close> other
  than \<open>d = - pi\<close> the result lies in the half-open interval \<open>(- pi, pi]\<close>, and for
  \<open>- 3 pi \<le> d \<le> 3 pi\<close> in the closed interval \<open>[- pi, pi]\<close>; this covers every
  difference of two \<open>atan2\<close> angles. Two angles within \<open>e\<close> of the seam on opposite
  sides have a wrapped difference of magnitude below \<open>2 e\<close>, and for the angles
  \<open>3.13\<close> and \<open>- 3.13\<close> the magnitude is below \<open>0.1\<close>.
\<close>

theorem wrapAngleDelta_range:
  "(wrapAngleDelta d = d \<or> wrapAngleDelta d = d - 2 * pi \<or> wrapAngleDelta d = d + 2 * pi)
   \<and> (- (3 * pi) < d \<and> d \<le> 3 * pi \<and> d \<noteq> - pi
        \<longrightarrow> - pi < wrapAngleDelta d \<and> wrapAngleDelta d \<le> pi)
   \<and> (- (3 * pi) \<le> d \<and> d \<le> 3 * pi \<longrightarrow> - pi \<le> wrapAngleDelta d \<and> wrapAngleDelta d \<le> pi)
   \<and> (0 \<le> e \<and> e \<le> pi \<and> pi - e < prev \<and> prev \<le> pi \<and> - pi \<le> cur \<and> cur < - pi + e
        \<longrightarrow> \<bar>wrapAngleDelta (cur - prev)\<bar> < 2 * e \<and> \<bar>wrapAngleDelta (prev - cur)\<bar> < 2 * e)
   \<and> \<bar>wrapAngleDelta (- 3.13 - 3.13)\<bar> < 0.1"
proof (intro conjI impI)
  show "wrapAngleDelta d = d \<or> wrapAngleDelta d = d - 2 * pi \<or> wrapAngleDelta d = d + 2 * pi"
    by (simp add: wrapAngleDelta_def Let_def)
next
  assume "- (3 * pi) < d \<and> d \<le> 3 * pi \<and> d \<noteq> - pi"
  then show "- pi < wrapAngleDelta d" "wrapAngleDelta d \<le> pi"
    by (auto simp: wrapAngleDelta_def Let_def)
next
  assume "- (3 * pi) \<le> d \<and> d \<le> 3 * pi"
  then show "- pi \<le> wrapAngleDelta d" "wrapAngleDelta d \<le> pi"
    by (auto simp: wrapAngleDelta_def Let_def)
next
  assume "0 \<le> e \<and> e \<le> pi \<and> pi - e < prev \<and> prev \<le> pi \<and> - pi \<le> cur \<and> cur < - pi + e"
  then show "\<bar>wrapAngleDelta (cur - prev)\<bar> < 2 * e" "\<bar>wrapAngleDelta (prev - cur)\<bar> < 2 * e"
    by (auto simp: wrapAngleDelta_def Let_def)
next
  show "\<bar>wrapAngleDelta (- 3.13 - 3.13)\<bar> < 0.1"
    using pi_gt_314 pi_lt_315 by (simp add: wrapAngleDelta_def Let_def)
qed

text \<open>Claim C2, witness: the difference \<open>- 6.26\<close> of the angles \<open>- 3.13\<close> and \<open>3.13\<close>.\<close>

theorem wrapAngleDelta_range_witness:
  "- (3 * pi) < - 6.26 \<and> - 6.26 \<le> 3 * pi \<and> - 6.26 \<noteq> - pi
   \<and> - pi < wrapAngleDelta (- 6.26) \<and> wrapAngleDelta (- 6.26) \<le> pi
   \<and> (0::real) \<le> 0.05 \<and> 0.05 \<le> pi \<and> pi - 0.05 < 3.13 \<and> 3.13 \<le> pi \<and> - pi \<le> - 3.13
   \<and> - 3.13 < - pi + 0.05
   \<and> \<bar>wrapAngleDelta (- 3.13 - 3.13)\<bar> < 2 * 0.05"
  using wrapAngleDelta_range [of "- 6.26" "0.05" "3.13" "- 3.13"] pi_gt_314 pi_lt_315
  by simp

text \<open>
  Claim C2 as stated fails outside that range: \<open>wrapAngleDelta (4 pi) = 2 pi\<close>, which is
  not in \<open>(- pi, pi]\<close>. At \<open>- pi\<close> the result is \<open>- pi\<close> itself.
\<close>

theorem wrapAngleDelta_out_of_range:
  "\<not> (- pi < wrapAngleDelta (4 * pi) \<and> wrapAngleDelta (4 * pi) \<le> pi)"
  by (simp add: wrapAngleDelta_def Let_def)

lemma wrap_minus_pi: "wrapAngleDelta (- pi) = - pi"
  by (simp add: wrapAngleDelta_def Let_def)

subsection \<open>What each step of \<open>recognize\<close> leaves unchanged\<close>

lemma stabilize_state:
  "u_twistPoseActive (snd (stabilize raw out st)) = u_twistPoseActive st"
  "u_palmHistory (snd (stabilize raw out st)) = u_palmHistory st"
  "u_lastSwipeTime (snd (stabilize raw out st)) = u_lastSwipeTime st"
  by (simp_all add: stabilize_def Let_def split_def)

lemma stabilize_output:
  "confidence (fst (stabilize raw out st)) = confidence out"
  "twistPoseScore (fst (stabilize raw out st)) = twistPoseScore out"
  "twistPoseActive (fst (stabilize raw out st)) = twistPoseActive out"
  "handsDetected (fst (stabilize raw out st)) = handsDetected out"
  by (simp_all add: stabilize_def Let_def split_def)

lemma detectSwipe_state:
  "u_twistPoseActive (snd (detectSwipe now st)) = u_twistPoseActive st"
  "u_gestureBuffer (snd (detectSwipe now st)) = u_gestureBuffer st"
  "u_lastStableGesture (snd (detectSwipe now st)) = u_lastStableGesture st"
  by (simp_all add: detectSwipe_def Let_def)

lemma twistFilter_state:
  "u_twistPoseActive (snd (twistFilter a b d st)) = u_twistPoseActive st"
  "u_gestureBuffer (snd (twistFilter a b d st)) = u_gestureBuffer st"
  "u_lastStableGesture (snd (twistFilter a b d st)) = u_lastStableGesture st"
  "u_palmHistory (snd (twistFilter a b d st)) = u_palmHistory st"
  "u_lastSwipeTime (snd (twistFilter a b d st)) = u_lastSwipeTime st"
  by (simp_all add: twistFilter_def Let_def)

lemma twoHandTrack_state:
  "u_twistPoseActive (snd (twoHandTrack ls out st)) = u_twistPoseActive st"
  "u_gestureBuffer (snd (twoHandTrack ls out st)) = u_gestureBuffer st"
  "u_lastStableGesture (snd (twoHandTrack ls out st)) = u_lastStableGesture st"
  "u_palmHistory (snd (twoHandTrack ls out st)) = u_palmHistory st"
  "u_lastSwipeTime (snd (twoHandTrack ls out st)) = u_lastSwipeTime st"
  by (simp_all add: twoHandTrack_def Let_def split_def split: option.splits)

lemma twoHandTrack_output:
  "confidence (fst (twoHandTrack ls out st)) = confidence out"
  "twistPoseScore (fst (twoHandTrack ls out st)) = twistPoseScore out"
  "twistPoseActive (fst (twoHandTrack ls out st)) = twistPoseActive out"
  "handsDetected (fst (twoHandTrack ls out st)) = handsDetected out"
  "gesture (fst (twoHandTrack ls out st)) = gesture out"
  by (simp_all add: twoHandTrack_def Let_def split_def split: option.splits)

lemma singleHand_state:
  "u_twistPoseActive (snd (singleHand f t out st)) = u_twistPoseActive st"
  by (simp add: singleHand_def Let_def split_def stabilize_state detectSwipe_state)

lemma singleHand_output:
  "twistPoseScore (fst (singleHand f t out st)) = twistPoseScore out"
  "twistPoseActive (fst (singleHand f t out st)) = twistPoseActive out"
  "handsDetected (fst (singleHand f t out st)) = handsDetected out"
  by (simp_all add: singleHand_def Let_def split_def stabilize_output split: option.splits)

lemma recognizeHands_twist:
  "u_twistPoseActive (snd (recognizeHands ls now now2 st))
     = twistHysteresis (u_twistPoseActive st) (twistPoseScore (fst (recognizeHands ls now now2 st)))"
  "twistPoseActive (fst (recognizeHands ls now now2 st))
     = u_twistPoseActive (snd (recognizeHands ls now now2 st))"
  "handsDetected (fst (recognizeHands ls now now2 st)) = length ls"
  "twistPoseScore (fst (recognizeHands ls now now2 st)) = f_twistPoseScore (handFeatures (ls ! 0))"
  by (simp_all add: recognizeHands_def Let_def split_def stabilize_state stabilize_output
        singleHand_state singleHand_output twistFilter_state twoHandTrack_state twoHandTrack_output)

subsection \<open>The test hands\<close>

lemma dist3D_line: "dist3D (pt a b) (pt a c) = \<bar>b - c\<bar>"
  by (simp add: dist3D_def pt_def)

lemma dist3D_line_centre:
  "dist3D (pt a b) \<lparr> px = a, py = c, pz = 0 \<rparr> = \<bar>b - c\<bar>"
  by (simp add: dist3D_def pt_def)

lemma pt_sel: "px (pt a b) = a" "py (pt a b) = b" "pz (pt a b) = 0"
  by (simp_all add: pt_def)

lemma lineHand_nth:
  "lineHand x0 t pI qI p q ! 0 = pt x0 0"
  "lineHand x0 t pI qI p q ! 1 = pt x0 t"
  "lineHand x0 t pI qI p q ! Suc 0 = pt x0 t"
  "lineHand x0 t pI qI p q ! 4 = pt x0 t"
  "lineHand x0 t pI qI p q ! 5 = pt x0 0.1"
  "lineHand x0 t pI qI p q ! 6 = pt x0 pI"
  "lineHand x0 t pI qI p q ! 8 = pt x0 qI"
  "lineHand x0 t pI qI p q ! 9 = pt x0 0.1"
  "lineHand x0 t pI qI p q ! 10 = pt x0 p"
  "lineHand x0 t pI qI p q ! 12 = pt x0 q"
  "lineHand x0 t pI qI p q ! 14 = pt x0 p"
  "lineHand x0 t pI qI p q ! 16 = pt x0 q"
  "lineHand x0 t pI qI p q ! 17 = pt x0 0.1"
  "lineHand x0 t pI qI p q ! 18 = pt x0 p"
  "lineHand x0 t pI qI p q ! 20 = pt x0 q"
  "length (lineHand x0 t pI qI p q) = 21"
  by (simp_all add: lineHand_def)

lemma lineHand_palmSize: "getPalmSize (lineHand x0 t pI qI p q) = 0.1"
  by (simp add: getPalmSize_def lineHand_nth dist3D_line)

lemma lineHand_thumb: "isThumbExtended (lineHand x0 t pI qI p q) = False"
  by (simp add: isThumbExtended_def lineHand_nth dist3D_line_centre pt_sel Let_def)

lemma lineHand_curl:
  "getFingerCurl (lineHand x0 t pI qI p q) 6 8 =
     (if \<bar>pI\<bar> < 0.001 then 0 else max 0 (min 1 ((1.15 - \<bar>qI\<bar> / \<bar>pI\<bar>) / 0.5)))"
  "getFingerCurl (lineHand x0 t pI qI p q) 10 12 =
     (if \<bar>p\<bar> < 0.001 then 0 else max 0 (min 1 ((1.15 - \<bar>q\<bar> / \<bar>p\<bar>) / 0.5)))"
  "getFingerCurl (lineHand x0 t pI qI p q) 14 16 =
     (if \<bar>p\<bar> < 0.001 then 0 else max 0 (min 1 ((1.15 - \<bar>q\<bar> / \<bar>p\<bar>) / 0.5)))"
  "getFingerCurl (lineHand x0 t pI qI p q) 18 20 =
     (if \<bar>p\<bar> < 0.001 then 0 else max 0 (min 1 ((1.15 - \<bar>q\<bar> / \<bar>p\<bar>) / 0.5)))"
  by (simp_all only: getFingerCurl_def lineHand_nth dist3D_line Let_def diff_zero)

lemmas lineHand_simps = lineHand_nth lineHand_palmSize lineHand_thumb lineHand_curl
  dist3D_line pt_sel

lemma openHand_parts:
  "getPalmSize (openHand x0) = 0.1" "isThumbExtended (openHand x0) = False"
  "getFingerCurl (openHand x0) 6 8 = 0" "getFingerCurl (openHand x0) 10 12 = 0"
  "getFingerCurl (openHand x0) 14 16 = 0" "getFingerCurl (openHand x0) 18 20 = 0"
  "openHand x0 ! 0 = pt x0 0" "openHand x0 ! 4 = pt x0 (0)" "openHand x0 ! 5 = pt x0 0.1"
  "openHand x0 ! 8 = pt x0 0.25" "openHand x0 ! 17 = pt x0 0.1"
  by (simp_all add: openHand_def lineHand_simps)

lemma openHand_features:
  "handFeatures (openHand x0) =
     \<lparr> f_palmX = x0, f_palmY = 1 / 15,
       f_indexCurl = 0, f_middleCurl = 0, f_ringCurl = 0, f_pinkyCurl = 0,
       f_thumbExt = False, f_indexExtended = True, f_middleExtended = True,
       f_ringExtended = True, f_pinkyExtended = True, f_extendedCount = 4,
       f_pinchDist = 2.5, f_twistPoseScore = 0.34, f_handAngle = 0,
       f_pinchAxisAngle = pi / 2 \<rparr>"
  apply (simp only: handFeatures_def Let_def openHand_parts)
  apply (simp add: pt_sel dist3D_line clamp_def atan2_def)
  done

lemma fistHand_parts:
  "getPalmSize (fistHand x0) = 0.1" "isThumbExtended (fistHand x0) = False"
  "getFingerCurl (fistHand x0) 6 8 = 1" "getFingerCurl (fistHand x0) 10 12 = 1"
  "getFingerCurl (fistHand x0) 14 16 = 1" "getFingerCurl (fistHand x0) 18 20 = 1"
  "fistHand x0 ! 0 = pt x0 0" "fistHand x0 ! 4 = pt x0 (- 0.1)" "fistHand x0 ! 5 = pt x0 0.1"
  "fistHand x0 ! 8 = pt x0 0.05" "fistHand x0 ! 17 = pt x0 0.1"
  by (simp_all add: fistHand_def lineHand_simps)

lemma fistHand_features:
  "handFeatures (fistHand x0) =
     \<lparr> f_palmX = x0, f_palmY = 1 / 15,
       f_indexCurl = 1, f_middleCurl = 1, f_ringCurl = 1, f_pinkyCurl = 1,
       f_thumbExt = False, f_indexExtended = False, f_middleExtended = False,
       f_ringExtended = False, f_pinkyExtended = False, f_extendedCount = 0,
       f_pinchDist = 1.5, f_twistPoseScore = 0.18, f_handAngle = 0,
       f_pinchAxisAngle = pi / 2 \<rparr>"
  apply (simp only: handFeatures_def Let_def fistHand_parts)
  apply (simp add: pt_sel dist3D_line clamp_def atan2_def)
  done

lemma pointHand_parts:
  "getPalmSize (pointHand x0) = 0.1" "isThumbExtended (pointHand x0) = False"
  "getFingerCurl (pointHand x0) 6 8 = 0" "getFingerCurl (pointHand x0) 10 12 = 1"
  "getFingerCurl (pointHand x0) 14 16 = 1" "getFingerCurl (pointHand x0) 18 20 = 1"
  "pointHand x0 ! 0 = pt x0 0" "pointHand x0 ! 4 = pt x0 (- 0.1)" "pointHand x0 ! 5 = pt x0 0.1"
  "pointHand x0 ! 8 = pt x0 0.25" "pointHand x0 ! 17 = pt x0 0.1"
  by (simp_all add: pointHand_def lineHand_simps)

lemma pointHand_features:
  "handFeatures (pointHand x0) =
     \<lparr> f_palmX = x0, f_palmY = 1 / 15,
       f_indexCurl = 0, f_middleCurl = 1, f_ringCurl = 1, f_pinkyCurl = 1,
       f_thumbExt = False, f_indexExtended = True, f_middleExtended = False,
       f_ringExtended = False, f_pinkyExtended = False, f_extendedCount = 1,
       f_pinchDist = 3.5, f_twistPoseScore = 0.52, f_handAngle = 0,
       f_pinchAxisAngle = pi / 2 \<rparr>"
  apply (simp only: handFeatures_def Let_def pointHand_parts)
  apply (simp add: pt_sel dist3D_line clamp_def atan2_def)
  done

lemma twistHand_parts:
  "getPalmSize (twistHand x0) = 0.1" "isThumbExtended (twistHand x0) = False"
  "getFingerCurl (twistHand x0) 6 8 = 0" "getFingerCurl (twistHand x0) 10 12 = 1"
  "getFingerCurl (twistHand x0) 14 16 = 1" "getFingerCurl (twistHand x0) 18 20 = 1"
  "twistHand x0 ! 0 = pt x0 0" "twistHand x0 ! 4 = pt x0 (0.2)" "twistHand x0 ! 5 = pt x0 0.1"
  "twistHand x0 ! 8 = pt x0 0.25" "twistHand x0 ! 17 = pt x0 0.1"
  by (simp_all add: twistHand_def lineHand_simps)

lemma twistHand_features:
  "handFeatures (twistHand x0) =
     \<lparr> f_palmX = x0, f_palmY = 1 / 15,
       f_indexCurl = 0, f_middleCurl = 1, f_ringCurl = 1, f_pinkyCurl = 1,
       f_thumbExt = False, f_indexExtended = True, f_middleExtended = False,
       f_ringExtended = False, f_pinkyExtended = False, f_extendedCount = 1,
       f_pinchDist = 0.5, f_twistPoseScore = 1, f_handAngle = 0,
       f_pinchAxisAngle = pi / 2 \<rparr>"
  apply (simp only: handFeatures_def Let_def twistHand_parts)
  apply (simp add: pt_sel dist3D_line clamp_def atan2_def)
  done

subsection \<open>Frames without a hand\<close>

lemma recognize_hands:
  assumes "\<not> noHands res" "recognize res now sw st = Inr (out, st')"
  shows "(out, st') = recognizeHands (the (the res)) now sw st"
    and "21 \<le> length (the (the res) ! 0)"
  using assms by (auto simp: recognize_def Let_def split: if_splits)

text \<open>
  Claim C8. On a frame with no hand (\<open>results\<close> null, without landmarks, or with an
  empty list of hands) \<open>recognize\<close> returns without an error. The sample has gesture
  \<open>none\<close>, confidence 0 and no hand detected; the palm history, the angle-delta history,
  the two-hand smoothing state, both previous angles and both filtered deltas, the
  twist-pose flag and the stabilization buffer are cleared. The swipe timer and the last
  stable gesture are kept.
\<close>

theorem recognize_no_hands:
  assumes "noHands res"
  shows "\<exists>out st'.
           recognize res now swipeNow st = Inr (out, st')
           \<and> gesture out = GNone \<and> confidence out = 0 \<and> handsDetected out = 0
           \<and> u_palmHistory st' = [] \<and> u_angleDeltaHistory st' = []
           \<and> u_smoothTwoHandDist st' = None
           \<and> u_prevHandAngle st' = None \<and> u_prevPinchAxisAngle st' = None
           \<and> u_filteredHandAngleDelta st' = 0 \<and> u_filteredPinchAxisDelta st' = 0
           \<and> u_twistPoseActive st' = False \<and> u_gestureBuffer st' = []
           \<and> u_lastSwipeTime st' = u_lastSwipeTime st
           \<and> u_lastStableGesture st' = u_lastStableGesture st"
  using assms by (simp add: recognize_def output0_def resetOnLoss_def)

text \<open>
  Claim C8, witness: an empty list of hands, on a new recognizer.
\<close>

theorem recognize_no_hands_witness:
  "noHands (Some (Some []))
   \<and> (\<exists>out st'.
         recognize (Some (Some [])) 0 0 newRecognizer = Inr (out, st')
         \<and> gesture out = GNone \<and> confidence out = 0 \<and> handsDetected out = 0
         \<and> u_palmHistory st' = [] \<and> u_gestureBuffer st' = [])
   \<and> noHands None \<and> noHands (Some None)"
proof -
  have h: "noHands (Some (Some []))" by (simp add: noHands_def)
  from recognize_no_hands [OF h, of 0 0 newRecognizer] h show ?thesis
    by (auto simp: noHands_def)
qed

subsection \<open>Twist-pose hysteresis\<close>

lemma twistHysteresis_cases:
  "0.58 \<le> s \<Longrightarrow> twistHysteresis a s"
  "s < 0.42 \<Longrightarrow> \<not> twistHysteresis a s"
  "0.42 \<le> s \<Longrightarrow> s < 0.58 \<Longrightarrow> twistHysteresis a s = a"
  by (auto simp: twistHysteresis_def u_twistPoseEnterThreshold_def u_twistPoseExitThreshold_def)

lemma recognize_twist:
  assumes "recognize res now sw st = Inr (out, st')" "\<not> noHands res"
  shows "u_twistPoseActive st' = twistHysteresis (u_twistPoseActive st) (twistPoseScore out)"
    and "twistPoseActive out = u_twistPoseActive st'"
  using recognize_hands(1) [OF assms(2,1)] recognizeHands_twist [of "the (the res)" now sw st]
  by (metis fst_conv snd_conv)+

lemma recognizeAll_band:
  assumes "recognizeAll frames st = Inr (outs, st')"
    and "\<forall>fr\<in>set frames. \<not> noHands (fst fr)"
    and "\<forall>out\<in>set outs. 0.42 \<le> twistPoseScore out \<and> twistPoseScore out < 0.58"
  shows "u_twistPoseActive st' = u_twistPoseActive st
         \<and> (\<forall>out\<in>set outs. twistPoseActive out = u_twistPoseActive st)"
  using assms
proof (induction frames arbitrary: st outs)
  case Nil
  then show ?case by simp
next
  case (Cons fr frames)
  obtain res now sw where fr: "fr = (res, now, sw)" by (cases fr)
  from Cons.prems(1) fr obtain out st1 outs1 where
    r: "recognize res now sw st = Inr (out, st1)"
    and rest: "recognizeAll frames st1 = Inr (outs1, st')"
    and outs: "outs = out # outs1"
    by (auto split: sum.splits prod.splits)
  from Cons.prems(2) fr have nh: "\<not> noHands res" by simp
  from Cons.prems(3) outs have band: "0.42 \<le> twistPoseScore out" "twistPoseScore out < 0.58"
    by simp_all
  from recognize_twist [OF r nh] twistHysteresis_cases(3) [OF band]
  have one: "u_twistPoseActive st1 = u_twistPoseActive st" "twistPoseActive out = u_twistPoseActive st"
    by simp_all
  from Cons.IH [OF rest] Cons.prems(2,3) outs
  have "u_twistPoseActive st' = u_twistPoseActive st1
        \<and> (\<forall>out\<in>set outs1. twistPoseActive out = u_twistPoseActive st1)"
    by simp
  with one outs show ?case by simp
qed

text \<open>
  Claim C4. On a frame with a hand present, the twist-pose flag after the frame (which is
  also the flag in the sample) is set when the frame's score is at least 0.58, cleared
  when it is below 0.42, and unchanged when it lies in between. Over any run of frames
  with a hand whose scores all lie in \<open>[0.42, 0.58)\<close>, the flag keeps the value it had
  before the run, in every sample and at the end.
\<close>

theorem twistPose_hysteresis:
  "(recognize res now sw st = Inr (out, st1) \<and> \<not> noHands res \<longrightarrow>
      twistPoseActive out = u_twistPoseActive st1
      \<and> (0.58 \<le> twistPoseScore out \<longrightarrow> u_twistPoseActive st1)
      \<and> (twistPoseScore out < 0.42 \<longrightarrow> \<not> u_twistPoseActive st1)
      \<and> (0.42 \<le> twistPoseScore out \<and> twistPoseScore out < 0.58
            \<longrightarrow> u_twistPoseActive st1 = u_twistPoseActive st))
   \<and> (recognizeAll frames st = Inr (outs, st')
        \<and> (\<forall>fr\<in>set frames. \<not> noHands (fst fr))
        \<and> (\<forall>out\<in>set outs. 0.42 \<le> twistPoseScore out \<and> twistPoseScore out < 0.58)
      \<longrightarrow> u_twistPoseActive st' = u_twistPoseActive st
          \<and> (\<forall>out\<in>set outs. twistPoseActive out = u_twistPoseActive st))"
proof (intro conjI impI)
  assume a: "recognize res now sw st = Inr (out, st1) \<and> \<not> noHands res"
  then have eq: "u_twistPoseActive st1 = twistHysteresis (u_twistPoseActive st) (twistPoseScore out)"
    and out: "twistPoseActive out = u_twistPoseActive st1"
    using recognize_twist by blast+
  show "twistPoseActive out = u_twistPoseActive st1" by (rule out)
  show "u_twistPoseActive st1" if "0.58 \<le> twistPoseScore out"
    using eq twistHysteresis_cases(1) [OF that] by simp
  show "\<not> u_twistPoseActive st1" if "twistPoseScore out < 0.42"
    using eq twistHysteresis_cases(2) [OF that] by simp
  show "u_twistPoseActive st1 = u_twistPoseActive st"
    if "0.42 \<le> twistPoseScore out \<and> twistPoseScore out < 0.58"
    using eq twistHysteresis_cases(3) [of "twistPoseScore out"] that by simp
next
  assume b: "recognizeAll frames st = Inr (outs, st')
        \<and> (\<forall>fr\<in>set frames. \<not> noHands (fst fr))
        \<and> (\<forall>out\<in>set outs. 0.42 \<le> twistPoseScore out \<and> twistPoseScore out < 0.58)"
  then have "u_twistPoseActive st' = u_twistPoseActive st
         \<and> (\<forall>out\<in>set outs. twistPoseActive out = u_twistPoseActive st)"
    using recognizeAll_band [of frames st outs st'] by blast
  then show "u_twistPoseActive st' = u_twistPoseActive st"
    and "\<forall>out\<in>set outs. twistPoseActive out = u_twistPoseActive st"
    by simp_all
qed

lemma oneHand_recognize:
  "length h = 21 \<Longrightarrow> recognize (Some (Some [h])) now sw st = Inr (recognizeHands [h] now sw st)"
  by (simp add: recognize_def noHands_def)

lemma hands_length:
  "length (openHand a) = 21" "length (fistHand a) = 21"
  "length (pointHand a) = 21" "length (twistHand a) = 21"
  by (simp_all add: openHand_def fistHand_def pointHand_def twistHand_def lineHand_nth)

lemma tw_scores:
  "twistPoseScore (fst tw1) = 1" "twistPoseScore (fst tw2) = 0.52"
  "twistPoseScore (fst tw3) = 0.52" "twistPoseScore (fst tw4) = 0.34"
  by (simp_all add: tw1_def tw2_def tw3_def tw4_def recognizeHands_twist
        twistHand_features pointHand_features openHand_features)

text \<open>
  Claim C4, witness: a twist pose (score 1) sets the flag on a new recognizer, two pointing
  hands (score 0.52) keep it set, an open hand (score 0.34) clears it.
\<close>

theorem twistPose_hysteresis_witness:
  "recognize (Some (Some [twistHand 0])) 1000 1000 newRecognizer = Inr tw1
   \<and> \<not> noHands (Some (Some [twistHand 0]))
   \<and> \<not> u_twistPoseActive newRecognizer
   \<and> twistPoseScore (fst tw1) = 1 \<and> u_twistPoseActive (snd tw1) \<and> twistPoseActive (fst tw1)
   \<and> recognizeAll [frame (pointHand 0) 1050, frame (pointHand 0) 1100] (snd tw1)
        = Inr ([fst tw2, fst tw3], snd tw3)
   \<and> twistPoseScore (fst tw2) = 0.52 \<and> twistPoseScore (fst tw3) = 0.52
   \<and> u_twistPoseActive (snd tw3) \<and> twistPoseActive (fst tw2) \<and> twistPoseActive (fst tw3)
   \<and> recognize (Some (Some [openHand 0])) 1150 1150 (snd tw3) = Inr tw4
   \<and> twistPoseScore (fst tw4) = 0.34 \<and> \<not> u_twistPoseActive (snd tw4)
   \<and> \<not> twistPoseActive (fst tw4)"
proof -
  have r1: "recognize (Some (Some [twistHand 0])) 1000 1000 newRecognizer = Inr (fst tw1, snd tw1)"
    by (simp add: oneHand_recognize hands_length tw1_def)
  have r4: "recognize (Some (Some [openHand 0])) 1150 1150 (snd tw3) = Inr (fst tw4, snd tw4)"
    by (simp add: oneHand_recognize hands_length tw4_def)
  have nh: "\<not> noHands (Some (Some [h]))" for h :: hand
    by (simp add: noHands_def)
  have run: "recognizeAll [frame (pointHand 0) 1050, frame (pointHand 0) 1100] (snd tw1)
        = Inr ([fst tw2, fst tw3], snd tw3)"
    by (simp add: frame_def oneHand_recognize hands_length tw2_def tw3_def split_def)
  have nhs: "\<forall>fr\<in>set [frame (pointHand 0) 1050, frame (pointHand 0) 1100]. \<not> noHands (fst fr)"
    by (simp add: frame_def noHands_def)
  have band: "\<forall>out\<in>set [fst tw2, fst tw3]. 0.42 \<le> twistPoseScore out \<and> twistPoseScore out < 0.58"
    by (simp add: tw_scores)
  note t1 = twistPose_hysteresis [of "Some (Some [twistHand 0])" 1000 1000 newRecognizer
      "fst tw1" "snd tw1" "[]" "[]" newRecognizer]
  note t2 = twistPose_hysteresis [where st = "snd tw1"
      and frames = "[frame (pointHand 0) 1050, frame (pointHand 0) 1100]"
      and outs = "[fst tw2, fst tw3]" and st' = "snd tw3"]
  note t4 = twistPose_hysteresis [of "Some (Some [openHand 0])" 1150 1150 "snd tw3"
      "fst tw4" "snd tw4" "[]" "[]" "snd tw3"]
  have a1: "twistPoseActive (fst tw1) = u_twistPoseActive (snd tw1)" "u_twistPoseActive (snd tw1)"
    using t1 r1 nh tw_scores by simp_all
  have a4: "twistPoseActive (fst tw4) = u_twistPoseActive (snd tw4)" "\<not> u_twistPoseActive (snd tw4)"
    using t4 r4 nh tw_scores by simp_all
  have a23: "u_twistPoseActive (snd tw3) = u_twistPoseActive (snd tw1)"
    "\<forall>out\<in>set [fst tw2, fst tw3]. twistPoseActive out = u_twistPoseActive (snd tw1)"
    using t2 run nhs band by blast+
  show ?thesis
    using r1 r4 nh run a1 a4 a23 tw_scores by (simp add: newRecognizer_def)
qed

subsection \<open>Majority vote\<close>

lemma map_of_countUp:
  "map_of (countUp cs g) = (map_of cs)(g \<mapsto> (case map_of cs g of None \<Rightarrow> 1 | Some c \<Rightarrow> c + 1))"
  by (induction cs g rule: countUp.induct) (auto simp: fun_eq_iff)

lemma keys_countUp: "map fst (countUp cs g) = (if g \<in> fst ` set cs then map fst cs else map fst cs @ [g])"
  by (induction cs g rule: countUp.induct) (auto)

lemma distinct_countUp: "distinct (map fst cs) \<Longrightarrow> distinct (map fst (countUp cs g))"
  by (simp add: keys_countUp)

lemma foldl_countUp:
  "distinct (map fst cs) \<Longrightarrow>
   distinct (map fst (foldl countUp cs buf))
   \<and> map_of (foldl countUp cs buf) k =
       (if count_list buf k = 0 then map_of cs k
        else Some ((case map_of cs k of None \<Rightarrow> 0 | Some c \<Rightarrow> c) + count_list buf k))"
proof (induction buf arbitrary: cs)
  case Nil
  then show ?case by simp
next
  case (Cons g buf)
  from Cons.IH [OF distinct_countUp [OF Cons.prems], of g] 
  show ?case
    by (auto simp: map_of_countUp split: option.splits)
qed

lemma countGestures_iff:
  "(k, c) \<in> set (countGestures buf) \<longleftrightarrow> c = count_list buf k \<and> 0 < c"
proof -
  have d: "distinct (map fst (countGestures buf))"
    and m: "map_of (countGestures buf) k
            = (if count_list buf k = 0 then None else Some (count_list buf k))"
    using foldl_countUp [of "[]" buf k] by (simp_all add: countGestures_def)
  from d have "(k, c) \<in> set (countGestures buf) \<longleftrightarrow> map_of (countGestures buf) k = Some c"
    by simp
  with m show ?thesis by auto
qed

lemma mostCommon_foldl:
  "foldl (\<lambda>(best, bestCount) (g, c). if c > bestCount then (g, c) else (best, bestCount)) (b0 :: gesture, n0 :: nat) cs
     = (b, n)
   \<Longrightarrow> (\<forall>(k, c)\<in>set cs. c \<le> n) \<and> n0 \<le> n \<and> ((b, n) = (b0, n0) \<or> (b, n) \<in> set cs)"
proof (induction cs arbitrary: b0 n0)
  case Nil
  then show ?case by simp
next
  case (Cons kc cs)
  obtain k c where kc: "kc = (k, c)" by (cases kc)
  show ?case
  proof (cases "c > n0")
    case True
    with Cons.prems kc have "foldl (\<lambda>(best, bestCount) (g, c). if c > bestCount then (g, c) else (best, bestCount)) (k, c) cs = (b, n)"
      by simp
    from Cons.IH [OF this] True kc show ?thesis by auto
  next
    case False
    with Cons.prems kc have "foldl (\<lambda>(best, bestCount) (g, c). if c > bestCount then (g, c) else (best, bestCount)) (b0, n0) cs = (b, n)"
      by simp
    from Cons.IH [OF this] False kc show ?thesis by auto
  qed
qed

lemma mostCommon_props:
  assumes "mostCommon cs = (b, n)"
  shows "\<forall>(k, c)\<in>set cs. c \<le> n" and "n = 0 \<or> (b, n) \<in> set cs"
  using mostCommon_foldl [of GNone 0 cs b n] assms by (auto simp: mostCommon_def)

lemma count_two: "a \<noteq> b \<Longrightarrow> count_list xs a + count_list xs b \<le> length xs"
  by (induction xs) auto

lemma threshold_3: "nat \<lceil>real STABILITY_BUFFER_SIZE * 0.6\<rceil> = 3"
proof -
  have "\<lceil>3::real\<rceil> = 3" by simp
  then show ?thesis by (simp add: STABILITY_BUFFER_SIZE_def)
qed

lemma mostCommon_majority:
  assumes "length buf \<le> 5" "mostCommon (countGestures buf) = (b, n)"
  shows "3 \<le> count_list buf g \<Longrightarrow> b = g \<and> n = count_list buf g"
    and "(\<forall>g. count_list buf g < 3) \<Longrightarrow> n < 3"
proof -
  note p = mostCommon_props [OF assms(2)]
  { assume g: "3 \<le> count_list buf g"
    then have "(g, count_list buf g) \<in> set (countGestures buf)"
      by (simp add: countGestures_iff)
    with p(1) have "count_list buf g \<le> n" by auto
    with g p(2) have bn: "(b, n) \<in> set (countGestures buf)" by auto
    then have n: "n = count_list buf b" by (simp add: countGestures_iff)
    have "b = g"
    proof (rule ccontr)
      assume "b \<noteq> g"
      from count_two [OF this, of buf] n g \<open>count_list buf g \<le> n\<close> assms(1) show False by simp
    qed
    with n show "b = g \<and> n = count_list buf g" by simp }
  { assume a: "\<forall>g. count_list buf g < 3"
    from p(2) show "n < 3"
    proof
      assume "n = 0" then show ?thesis by simp
    next
      assume "(b, n) \<in> set (countGestures buf)"
      then have "n = count_list buf b" by (simp add: countGestures_iff)
      with a show ?thesis by simp
    qed }
qed

text \<open>The buffer that \<open>_stabilize\<close> votes on.\<close>

lemma stabilize_buffer:
  "u_gestureBuffer (snd (stabilize raw out st)) =
     (let buf = u_gestureBuffer st @ [raw] in if length buf > 5 then tl buf else buf)"
  "u_lastStableGesture (snd (stabilize raw out st)) = gesture (fst (stabilize raw out st))"
  by (simp_all add: stabilize_def Let_def split_def STABILITY_BUFFER_SIZE_def)

lemma stabilize_vote:
  fixes st :: recognizer and raw :: gesture and out :: sample
  assumes "length (u_gestureBuffer st) \<le> 5" "\<not> u_twistPoseActive st"
    "raw \<noteq> SwipeLeft" "raw \<noteq> SwipeRight"
  defines "buf \<equiv> u_gestureBuffer (snd (stabilize raw out st))"
  shows "3 \<le> count_list buf g \<Longrightarrow> gesture (fst (stabilize raw out st)) = g"
    and "(\<forall>g. count_list buf g < 3) \<Longrightarrow> gesture (fst (stabilize raw out st)) = u_lastStableGesture st"
    and "length buf \<le> 5"
proof -
  obtain b n where bn: "mostCommon (countGestures buf) = (b, n)" by (cases "mostCommon (countGestures buf)")
  have len: "length buf \<le> 5"
    using assms(1) by (simp add: buf_def stabilize_buffer Let_def)
  have g: "gesture (fst (stabilize raw out st)) = (if 3 \<le> n then b else u_lastStableGesture st)"
    using bn assms(2-4) unfolding buf_def stabilize_buffer
    by (simp add: stabilize_def Let_def split_def threshold_3 STABILITY_BUFFER_SIZE_def)
  show "length buf \<le> 5" by (rule len)
  show "gesture (fst (stabilize raw out st)) = g" if "3 \<le> count_list buf g"
    using mostCommon_majority(1) [OF len bn that] that g by simp
  show "gesture (fst (stabilize raw out st)) = u_lastStableGesture st" if "\<forall>g. count_list buf g < 3"
    using mostCommon_majority(2) [OF len bn that] g by simp
qed

lemma push_suffix:
  assumes "length (u_gestureBuffer st) \<le> 5" "u_gestureBuffer st = pre @ xs" "length xs \<le> 4"
  shows "\<exists>pre'. u_gestureBuffer (snd (stabilize raw out st)) = pre' @ xs @ [raw]"
proof (cases "length (u_gestureBuffer st) = 5")
  case True
  with assms obtain a pre0 where "pre = a # pre0" by (cases pre) auto
  with True assms(2) show ?thesis by (simp add: stabilize_buffer)
next
  case False
  with assms show ?thesis by (simp add: stabilize_buffer)
qed

lemma stabilize_length:
  "length (u_gestureBuffer st) \<le> 5 \<Longrightarrow> length (u_gestureBuffer (snd (stabilize raw out st))) \<le> 5"
  by (simp add: stabilize_buffer Let_def)

lemma count_suffix: "count_list xs g \<le> count_list (pre @ xs) g"
  by (induction pre) auto

lemma no_majority_alternating:
  "count_list [OpenPalm, Fist, OpenPalm, Fist, Point] g < 3"
  by (cases g) simp_all

lemma no_majority_prefixes:
  "count_list [OpenPalm] g < 3" "count_list [OpenPalm, Fist] g < 3"
  "count_list [OpenPalm, Fist, OpenPalm] g < 3" "count_list [OpenPalm, Fist, OpenPalm, Fist] g < 3"
  by (cases g; simp)+

lemma stabilize_gesture_indep:
  "gesture (fst (stabilize raw out st)) = gesture (fst (stabilize raw out' st))"
  "snd (stabilize raw out st) = snd (stabilize raw out' st)"
  by (simp_all add: stabilize_def Let_def split_def)

lemma stabilizeAll_5:
  "stabilizeAll [(r1, o1), (r2, o2), (r3, o3), (r4, o4), (r5, o5)] st =
     (let a1 = stabilize r1 o1 st; a2 = stabilize r2 o2 (snd a1); a3 = stabilize r3 o3 (snd a2);
          a4 = stabilize r4 o4 (snd a3); a5 = stabilize r5 o5 (snd a4)
      in ([fst a1, fst a2, fst a3, fst a4, fst a5], snd a5))"
  by (simp add: Let_def split_def)

text \<open>
  Claim C3. In \<open>_stabilize\<close>, with at most five labels buffered, the twist-pose flag
  inactive and a raw label that is not a swipe: a label that has at least 3 entries in
  the buffer after the push (it is then the most frequent one) is the stable output, and
  when no label has 3 entries the output is the previously stable label. Hence five
  consecutive calls with raw label \<open>open_palm\<close> output \<open>open_palm\<close> from the third call
  on, whatever was buffered before; the raw sequence \<open>open_palm, fist, open_palm, fist,
  point\<close> outputs on its last call the label that was stable before that call, and on a
  buffer that was empty at the start all five calls output the label stable before them.
\<close>

theorem stabilize_majority:
  "(length (u_gestureBuffer st) \<le> 5 \<and> \<not> u_twistPoseActive st
      \<and> raw \<noteq> SwipeLeft \<and> raw \<noteq> SwipeRight
    \<longrightarrow> (\<forall>g. 3 \<le> count_list (u_gestureBuffer (snd (stabilize raw out st))) g
               \<longrightarrow> gesture (fst (stabilize raw out st)) = g)
        \<and> ((\<forall>g. count_list (u_gestureBuffer (snd (stabilize raw out st))) g < 3)
               \<longrightarrow> gesture (fst (stabilize raw out st)) = u_lastStableGesture st))
   \<and> (length (u_gestureBuffer st) \<le> 5 \<and> \<not> u_twistPoseActive st
      \<longrightarrow> (\<exists>g1 g2.
            map gesture (fst (stabilizeAll
              [(OpenPalm, o1), (OpenPalm, o2), (OpenPalm, o3), (OpenPalm, o4), (OpenPalm, o5)] st))
            = [g1, g2, OpenPalm, OpenPalm, OpenPalm]))
   \<and> (length (u_gestureBuffer st) \<le> 5 \<and> \<not> u_twistPoseActive st
      \<longrightarrow> (\<exists>g1 g2 g3 g4.
            map gesture (fst (stabilizeAll
              [(OpenPalm, o1), (Fist, o2), (OpenPalm, o3), (Fist, o4), (Point, o5)] st))
            = [g1, g2, g3, g4, g4]))
   \<and> (u_gestureBuffer st = [] \<and> \<not> u_twistPoseActive st
      \<longrightarrow> map gesture (fst (stabilizeAll
              [(OpenPalm, o1), (Fist, o2), (OpenPalm, o3), (Fist, o4), (Point, o5)] st))
            = replicate 5 (u_lastStableGesture st))"
proof (intro conjI impI allI)
  fix g
  assume a: "length (u_gestureBuffer st) \<le> 5 \<and> \<not> u_twistPoseActive st
      \<and> raw \<noteq> SwipeLeft \<and> raw \<noteq> SwipeRight"
  show "gesture (fst (stabilize raw out st)) = g"
    if "3 \<le> count_list (u_gestureBuffer (snd (stabilize raw out st))) g"
    using stabilize_vote(1) [of st raw out g] a that by simp
next
  assume a: "length (u_gestureBuffer st) \<le> 5 \<and> \<not> u_twistPoseActive st
      \<and> raw \<noteq> SwipeLeft \<and> raw \<noteq> SwipeRight"
  show "gesture (fst (stabilize raw out st)) = u_lastStableGesture st"
    if "\<forall>g. count_list (u_gestureBuffer (snd (stabilize raw out st))) g < 3"
    using stabilize_vote(2) [of st raw out] a that by simp
next
  assume a: "length (u_gestureBuffer st) \<le> 5 \<and> \<not> u_twistPoseActive st"
  define a1 where "a1 = stabilize OpenPalm o1 st"
  define a2 where "a2 = stabilize OpenPalm o2 (snd a1)"
  define a3 where "a3 = stabilize OpenPalm o3 (snd a2)"
  define a4 where "a4 = stabilize OpenPalm o4 (snd a3)"
  define a5 where "a5 = stabilize OpenPalm o5 (snd a4)"
  note defs = a1_def a2_def a3_def a4_def a5_def
  have len: "length (u_gestureBuffer (snd a1)) \<le> 5" "length (u_gestureBuffer (snd a2)) \<le> 5"
    "length (u_gestureBuffer (snd a3)) \<le> 5" "length (u_gestureBuffer (snd a4)) \<le> 5"
    using a by (simp_all add: defs stabilize_length)
  have tw: "\<not> u_twistPoseActive (snd a1)" "\<not> u_twistPoseActive (snd a2)"
    "\<not> u_twistPoseActive (snd a3)" "\<not> u_twistPoseActive (snd a4)"
    using a by (simp_all add: defs stabilize_state)
  obtain p0 where "u_gestureBuffer st = p0 @ []" by simp
  from push_suffix [OF _ this, of OpenPalm o1] a
  obtain p1 where s1: "u_gestureBuffer (snd a1) = p1 @ [OpenPalm]" by (auto simp: a1_def)
  from push_suffix [OF len(1) this, of OpenPalm o2]
  obtain p2 where s2: "u_gestureBuffer (snd a2) = p2 @ [OpenPalm, OpenPalm]"
    by (auto simp: a2_def)
  from push_suffix [OF len(2) this, of OpenPalm o3]
  obtain p3 where s3: "u_gestureBuffer (snd a3) = p3 @ [OpenPalm, OpenPalm, OpenPalm]"
    by (auto simp: a3_def)
  from push_suffix [OF len(3) this, of OpenPalm o4]
  obtain p4 where s4: "u_gestureBuffer (snd a4) = p4 @ [OpenPalm, OpenPalm, OpenPalm, OpenPalm]"
    by (auto simp: a4_def)
  from push_suffix [OF len(4) this, of OpenPalm o5]
  obtain p5 where s5: "u_gestureBuffer (snd a5)
      = p5 @ [OpenPalm, OpenPalm, OpenPalm, OpenPalm, OpenPalm]"
    by (auto simp: a5_def)
  have g3: "gesture (fst a3) = OpenPalm"
    unfolding a3_def
    by (rule stabilize_vote(1) [OF len(2) tw(2)]) (simp_all add: s3 [unfolded a3_def])
  have g4: "gesture (fst a4) = OpenPalm"
    unfolding a4_def
    by (rule stabilize_vote(1) [OF len(3) tw(3)]) (simp_all add: s4 [unfolded a4_def])
  have g5: "gesture (fst a5) = OpenPalm"
    unfolding a5_def
    by (rule stabilize_vote(1) [OF len(4) tw(4)]) (simp_all add: s5 [unfolded a5_def])
  show "\<exists>g1 g2.
            map gesture (fst (stabilizeAll
              [(OpenPalm, o1), (OpenPalm, o2), (OpenPalm, o3), (OpenPalm, o4), (OpenPalm, o5)] st))
            = [g1, g2, OpenPalm, OpenPalm, OpenPalm]"
    using g3 g4 g5 by (simp add: stabilizeAll_5 Let_def defs del: stabilizeAll.simps)
next
  assume a: "length (u_gestureBuffer st) \<le> 5 \<and> \<not> u_twistPoseActive st"
  define a1 where "a1 = stabilize OpenPalm o1 st"
  define a2 where "a2 = stabilize Fist o2 (snd a1)"
  define a3 where "a3 = stabilize OpenPalm o3 (snd a2)"
  define a4 where "a4 = stabilize Fist o4 (snd a3)"
  define a5 where "a5 = stabilize Point o5 (snd a4)"
  note defs = a1_def a2_def a3_def a4_def a5_def
  have len: "length (u_gestureBuffer (snd a1)) \<le> 5" "length (u_gestureBuffer (snd a2)) \<le> 5"
    "length (u_gestureBuffer (snd a3)) \<le> 5" "length (u_gestureBuffer (snd a4)) \<le> 5"
    "length (u_gestureBuffer (snd a5)) \<le> 5"
    using a by (simp_all add: defs stabilize_length)
  have tw: "\<not> u_twistPoseActive (snd a4)"
    using a by (simp add: defs stabilize_state)
  obtain p0 where "u_gestureBuffer st = p0 @ []" by simp
  from push_suffix [OF _ this, of OpenPalm o1] a
  obtain p1 where s1: "u_gestureBuffer (snd a1) = p1 @ [OpenPalm]" by (auto simp: a1_def)
  from push_suffix [OF len(1) this, of Fist o2]
  obtain p2 where s2: "u_gestureBuffer (snd a2) = p2 @ [OpenPalm, Fist]"
    by (auto simp: a2_def)
  from push_suffix [OF len(2) this, of OpenPalm o3]
  obtain p3 where s3: "u_gestureBuffer (snd a3) = p3 @ [OpenPalm, Fist, OpenPalm]"
    by (auto simp: a3_def)
  from push_suffix [OF len(3) this, of Fist o4]
  obtain p4 where s4: "u_gestureBuffer (snd a4) = p4 @ [OpenPalm, Fist, OpenPalm, Fist]"
    by (auto simp: a4_def)
  from push_suffix [OF len(4) this, of Point o5]
  obtain p5 where s5: "u_gestureBuffer (snd a5) = p5 @ [OpenPalm, Fist, OpenPalm, Fist, Point]"
    by (auto simp: a5_def)
  with len(5) have b5: "u_gestureBuffer (snd a5) = [OpenPalm, Fist, OpenPalm, Fist, Point]"
    by simp
  have "gesture (fst a5) = u_lastStableGesture (snd a4)"
    unfolding a5_def
    by (rule stabilize_vote(2) [OF len(4) tw])
       (simp_all add: b5 [unfolded a5_def] no_majority_alternating)
  then have "gesture (fst a5) = gesture (fst a4)"
    by (simp add: a4_def stabilize_buffer)
  then show "\<exists>g1 g2 g3 g4.
            map gesture (fst (stabilizeAll
              [(OpenPalm, o1), (Fist, o2), (OpenPalm, o3), (Fist, o4), (Point, o5)] st))
            = [g1, g2, g3, g4, g4]"
    by (simp add: stabilizeAll_5 Let_def defs del: stabilizeAll.simps)
next
  assume a: "u_gestureBuffer st = [] \<and> \<not> u_twistPoseActive st"
  define a1 where "a1 = stabilize OpenPalm o1 st"
  define a2 where "a2 = stabilize Fist o2 (snd a1)"
  define a3 where "a3 = stabilize OpenPalm o3 (snd a2)"
  define a4 where "a4 = stabilize Fist o4 (snd a3)"
  define a5 where "a5 = stabilize Point o5 (snd a4)"
  note defs = a1_def a2_def a3_def a4_def a5_def
  have tw: "\<not> u_twistPoseActive st" "\<not> u_twistPoseActive (snd a1)" "\<not> u_twistPoseActive (snd a2)"
    "\<not> u_twistPoseActive (snd a3)" "\<not> u_twistPoseActive (snd a4)"
    using a by (simp_all add: defs stabilize_state)
  have b1: "u_gestureBuffer (snd a1) = [OpenPalm]"
    using a by (simp add: a1_def stabilize_buffer)
  have b2: "u_gestureBuffer (snd a2) = [OpenPalm, Fist]"
    using b1 by (simp add: a2_def stabilize_buffer)
  have b3: "u_gestureBuffer (snd a3) = [OpenPalm, Fist, OpenPalm]"
    using b2 by (simp add: a3_def stabilize_buffer)
  have b4: "u_gestureBuffer (snd a4) = [OpenPalm, Fist, OpenPalm, Fist]"
    using b3 by (simp add: a4_def stabilize_buffer)
  have b5: "u_gestureBuffer (snd a5) = [OpenPalm, Fist, OpenPalm, Fist, Point]"
    using b4 by (simp add: a5_def stabilize_buffer)
  have g1: "gesture (fst a1) = u_lastStableGesture st"
    unfolding a1_def
    by (rule stabilize_vote(2) [OF _ tw(1)])
       (simp_all add: a b1 [unfolded a1_def] no_majority_prefixes)
  have g2: "gesture (fst a2) = u_lastStableGesture (snd a1)"
    unfolding a2_def
    by (rule stabilize_vote(2) [OF _ tw(2)])
       (simp_all add: b1 b2 [unfolded a2_def] no_majority_prefixes)
  have g3: "gesture (fst a3) = u_lastStableGesture (snd a2)"
    unfolding a3_def
    by (rule stabilize_vote(2) [OF _ tw(3)])
       (simp_all add: b2 b3 [unfolded a3_def] no_majority_prefixes)
  have g4: "gesture (fst a4) = u_lastStableGesture (snd a3)"
    unfolding a4_def
    by (rule stabilize_vote(2) [OF _ tw(4)])
       (simp_all add: b3 b4 [unfolded a4_def] no_majority_prefixes)
  have g5: "gesture (fst a5) = u_lastStableGesture (snd a4)"
    unfolding a5_def
    by (rule stabilize_vote(2) [OF _ tw(5)])
       (simp_all add: b4 b5 [unfolded a5_def] no_majority_alternating)
  have l: "u_lastStableGesture (snd a1) = gesture (fst a1)"
    "u_lastStableGesture (snd a2) = gesture (fst a2)"
    "u_lastStableGesture (snd a3) = gesture (fst a3)"
    "u_lastStableGesture (snd a4) = gesture (fst a4)"
    by (simp_all add: defs stabilize_buffer)
  show "map gesture (fst (stabilizeAll
              [(OpenPalm, o1), (Fist, o2), (OpenPalm, o3), (Fist, o4), (Point, o5)] st))
            = replicate 5 (u_lastStableGesture st)"
    using g1 g2 g3 g4 g5 l
    by (simp add: stabilizeAll_5 Let_def defs numeral_eq_Suc del: stabilizeAll.simps)
qed

lemma stabilize_eval:
  "stabilize raw out st =
     (let buf = u_gestureBuffer st @ [raw];
          buf = (if length buf > 5 then tl buf else buf);
          bc = mostCommon (countGestures buf);
          g = (if snd bc \<ge> 3 then fst bc else u_lastStableGesture st);
          g = (if raw = SwipeLeft \<or> raw = SwipeRight then raw else g);
          g = (if u_twistPoseActive st \<and> raw \<notin> set highPriority then TwistPose else g)
      in (out\<lparr>gesture := g\<rparr>, st\<lparr>u_gestureBuffer := buf, u_lastStableGesture := g\<rparr>))"
  by (simp add: stabilize_def Let_def split_def threshold_3 STABILITY_BUFFER_SIZE_def)

lemmas vote_eval = stabilize_eval Let_def countGestures_def mostCommon_def highPriority_def

text \<open>
  Claim C3, witness: a third \<open>open_palm\<close> after two buffered ones is output; a \<open>point\<close>
  after a buffered \<open>open_palm\<close> and \<open>fist\<close> leaves the stable \<open>pinch\<close>; on a new
  recognizer, whose stable label is \<open>none\<close>, the two sequences of the claim output
  \<open>none, none, open_palm, open_palm, open_palm\<close> and five times \<open>none\<close>.
\<close>

theorem stabilize_majority_witness:
  "length (u_gestureBuffer voteA) \<le> 5 \<and> \<not> u_twistPoseActive voteA
   \<and> OpenPalm \<noteq> SwipeLeft \<and> OpenPalm \<noteq> SwipeRight
   \<and> 3 \<le> count_list (u_gestureBuffer (snd (stabilize OpenPalm output0 voteA))) OpenPalm
   \<and> gesture (fst (stabilize OpenPalm output0 voteA)) = OpenPalm
   \<and> length (u_gestureBuffer voteB) \<le> 5 \<and> \<not> u_twistPoseActive voteB
   \<and> Point \<noteq> SwipeLeft \<and> Point \<noteq> SwipeRight
   \<and> (\<forall>g. count_list (u_gestureBuffer (snd (stabilize Point output0 voteB))) g < 3)
   \<and> gesture (fst (stabilize Point output0 voteB)) = Pinch
   \<and> u_lastStableGesture voteB = Pinch
   \<and> u_gestureBuffer newRecognizer = [] \<and> \<not> u_twistPoseActive newRecognizer
   \<and> map gesture (fst (stabilizeAll
         [(OpenPalm, output0), (OpenPalm, output0), (OpenPalm, output0), (OpenPalm, output0),
          (OpenPalm, output0)] newRecognizer))
       = [GNone, GNone, OpenPalm, OpenPalm, OpenPalm]
   \<and> map gesture (fst (stabilizeAll
         [(OpenPalm, output0), (Fist, output0), (OpenPalm, output0), (Fist, output0),
          (Point, output0)] newRecognizer))
       = [GNone, GNone, GNone, GNone, GNone]"
proof -
  have hA: "length (u_gestureBuffer voteA) \<le> 5 \<and> \<not> u_twistPoseActive voteA
      \<and> OpenPalm \<noteq> SwipeLeft \<and> OpenPalm \<noteq> SwipeRight"
    by (simp add: voteA_def newRecognizer_def)
  have cA: "3 \<le> count_list (u_gestureBuffer (snd (stabilize OpenPalm output0 voteA))) OpenPalm"
    by (simp add: voteA_def newRecognizer_def stabilize_buffer)
  have hB: "length (u_gestureBuffer voteB) \<le> 5 \<and> \<not> u_twistPoseActive voteB
      \<and> Point \<noteq> SwipeLeft \<and> Point \<noteq> SwipeRight"
    by (simp add: voteB_def newRecognizer_def)
  have cB: "\<forall>g. count_list (u_gestureBuffer (snd (stabilize Point output0 voteB))) g < 3"
    by (simp add: voteB_def newRecognizer_def stabilize_buffer)
  have h0: "u_gestureBuffer newRecognizer = [] \<and> \<not> u_twistPoseActive newRecognizer"
    "length (u_gestureBuffer newRecognizer) \<le> 5 \<and> \<not> u_twistPoseActive newRecognizer"
    by (simp_all add: newRecognizer_def)
  note tA = stabilize_majority [where st = voteA and raw = OpenPalm and out = output0]
  note tB = stabilize_majority [where st = voteB and raw = Point and out = output0]
  note t0 = stabilize_majority [where st = newRecognizer and raw = OpenPalm and out = output0
      and ?o1.0 = output0 and ?o2.0 = output0
      and ?o3.0 = output0 and ?o4.0 = output0 and ?o5.0 = output0]
  have gA: "gesture (fst (stabilize OpenPalm output0 voteA)) = OpenPalm"
    using tA hA cA by blast
  have gB: "gesture (fst (stabilize Point output0 voteB)) = u_lastStableGesture voteB"
    using tB hB cB by blast
  from t0 h0 have ex: "\<exists>g1 g2. map gesture (fst (stabilizeAll
         [(OpenPalm, output0), (OpenPalm, output0), (OpenPalm, output0), (OpenPalm, output0),
          (OpenPalm, output0)] newRecognizer))
       = [g1, g2, OpenPalm, OpenPalm, OpenPalm]"
    by simp
  have e1: "gesture (fst (stabilize OpenPalm output0 newRecognizer)) = GNone"
    by (simp add: vote_eval newRecognizer_def)
  have e2: "gesture (fst (stabilize OpenPalm output0
                (snd (stabilize OpenPalm output0 newRecognizer)))) = GNone"
    by (simp add: vote_eval newRecognizer_def)
  from ex e1 e2 have five: "map gesture (fst (stabilizeAll
         [(OpenPalm, output0), (OpenPalm, output0), (OpenPalm, output0), (OpenPalm, output0),
          (OpenPalm, output0)] newRecognizer))
       = [GNone, GNone, OpenPalm, OpenPalm, OpenPalm]"
    by (simp add: stabilizeAll_5 Let_def del: stabilizeAll.simps)
  from t0 h0 have alt: "map gesture (fst (stabilizeAll
         [(OpenPalm, output0), (Fist, output0), (OpenPalm, output0), (Fist, output0),
          (Point, output0)] newRecognizer))
       = replicate 5 (u_lastStableGesture newRecognizer)"
    by simp
  have l0: "u_lastStableGesture newRecognizer = GNone" "u_lastStableGesture voteB = Pinch"
    by (simp_all add: newRecognizer_def voteB_def)
  show ?thesis
    using hA cA gA hB cB gB h0 five alt l0 by (simp add: numeral_eq_Suc)
qed

subsection \<open>The last stable gesture across a loss of the hand\<close>

lemma stabilize_self:
  "u_gestureBuffer st = B \<Longrightarrow> u_lastStableGesture st = L \<Longrightarrow>
   \<exists>raw out' s. stabilize r out st = stabilize raw out' s
     \<and> u_gestureBuffer s = B \<and> u_lastStableGesture s = L"
  by blast

lemma singleHand_stabilize:
  "u_gestureBuffer st = B \<Longrightarrow> u_lastStableGesture st = L \<Longrightarrow>
   \<exists>raw out' s. singleHand f sw out st = stabilize raw out' s
     \<and> u_gestureBuffer s = B \<and> u_lastStableGesture s = L"
  unfolding singleHand_def Let_def split_def
  by (rule stabilize_self) (simp_all add: detectSwipe_state)

lemma recognizeHands_stabilize:
  "\<exists>raw out' s. recognizeHands ls now sw st = stabilize raw out' s
     \<and> u_gestureBuffer s = u_gestureBuffer st
     \<and> u_lastStableGesture s = u_lastStableGesture st"
  unfolding recognizeHands_def Let_def split_def
  apply (split if_split)
  apply (intro conjI impI)
   apply (rule stabilize_self)
    apply (simp_all add: twoHandTrack_state twistFilter_state)
  apply (rule singleHand_stabilize)
   apply (simp_all add: twoHandTrack_state twistFilter_state)
  done

lemma detectSwipe_core:
  assumes "u_palmHistory s = u_palmHistory s'" "u_lastSwipeTime s = u_lastSwipeTime s'"
  shows "fst (detectSwipe sw s) = fst (detectSwipe sw s')"
    and "u_palmHistory (snd (detectSwipe sw s)) = u_palmHistory (snd (detectSwipe sw s'))"
    and "u_lastSwipeTime (snd (detectSwipe sw s)) = u_lastSwipeTime (snd (detectSwipe sw s'))"
  by (simp_all add: detectSwipe_def Let_def assms)

lemma detectSwipe_core_eq:
  "core s = core s' \<Longrightarrow> fst (detectSwipe sw s) = fst (detectSwipe sw s')
     \<and> core (snd (detectSwipe sw s)) = core (snd (detectSwipe sw s'))"
  using detectSwipe_core [of s s' sw]
  by (simp add: core_def detectSwipe_state)

lemma stabilize_core_eq:
  "core s = core s' \<Longrightarrow> gesture (fst (stabilize raw out s)) = gesture (fst (stabilize raw out' s'))
     \<and> core (snd (stabilize raw out s)) = core (snd (stabilize raw out' s'))"
  by (simp add: core_def stabilize_def Let_def split_def)

lemma singleHand_core_eq:
  assumes "core s = core s'"
  shows "gesture (fst (singleHand f sw out s)) = gesture (fst (singleHand f sw out' s'))
     \<and> core (snd (singleHand f sw out s)) = core (snd (singleHand f sw out' s'))"
proof -
  from assms have tw: "u_twistPoseActive s = u_twistPoseActive s'" by (simp add: core_def)
  from detectSwipe_core_eq [OF assms, of sw]
  have d: "fst (detectSwipe sw s) = fst (detectSwipe sw s')"
    "core (snd (detectSwipe sw s)) = core (snd (detectSwipe sw s'))" by simp_all
  show ?thesis
  proof (cases "fst (detectSwipe sw s')")
    case None
    show ?thesis
      unfolding singleHand_def Let_def split_def tw d(1) None option.case fst_conv snd_conv
      by (rule stabilize_core_eq [OF d(2)])
  next
    case (Some g)
    show ?thesis
      unfolding singleHand_def Let_def split_def tw d(1) Some option.case fst_conv snd_conv
      by (rule stabilize_core_eq [OF d(2)])
  qed
qed

lemma recognizeHands_label:
  "gesture (fst (recognizeHands [h] now sw st)) = gesture (fst (oneHandLabel h now sw st))
   \<and> core (snd (recognizeHands [h] now sw st)) = core (snd (oneHandLabel h now sw st))"
  unfolding recognizeHands_def oneHandLabel_def Let_def split_def
  apply (simp only: list.size length_Cons nth_Cons_0)
  apply (simp only: One_nat_def [symmetric] numeral_le_one_iff)
  apply simp
  apply (rule singleHand_core_eq)
  apply (simp add: core_def twoHandTrack_state twistFilter_state)
  done

lemma core_fields:
  "core st = (B, H, T, A, L) \<Longrightarrow>
     u_gestureBuffer st = B \<and> u_palmHistory st = H \<and> u_lastSwipeTime st = T
     \<and> u_twistPoseActive st = A \<and> u_lastStableGesture st = L"
  by (simp add: core_def)

lemmas label_eval = oneHandLabel_def singleHand_def classify_def detectSwipe_def trackPalm_def
  twistHysteresis_def u_twistPoseEnterThreshold_def u_twistPoseExitThreshold_def
  stabilize_eval countGestures_def mostCommon_def highPriority_def Let_def split_def core_def

lemma sw1_core:
  "gesture (fst sw1) = GNone"
  "core (snd sw1) = ([OpenPalm], [\<lparr>hx = 0.1, hy = 1 / 15, htime = 1000\<rparr>], 0, False, GNone)"
  unfolding sw1_def
  by (simp_all add: recognizeHands_label)
     (simp_all add: label_eval openHand_features newRecognizer_def)

lemma sw2_core:
  "gesture (fst sw2) = GNone"
  "core (snd sw2) = ([OpenPalm, OpenPalm],
      [\<lparr>hx = 0.1, hy = 1 / 15, htime = 1000\<rparr>, \<lparr>hx = 0.2, hy = 1 / 15, htime = 1050\<rparr>], 0, False, GNone)"
  unfolding sw2_def
  using core_fields [OF sw1_core(2)]
  by (simp_all add: recognizeHands_label)
     (simp_all add: label_eval openHand_features)

lemma sw3_core:
  "gesture (fst sw3) = OpenPalm"
  "core (snd sw3) = ([OpenPalm, OpenPalm, OpenPalm],
      [\<lparr>hx = 0.1, hy = 1 / 15, htime = 1000\<rparr>, \<lparr>hx = 0.2, hy = 1 / 15, htime = 1050\<rparr>, \<lparr>hx = 0.3, hy = 1 / 15, htime = 1100\<rparr>], 0, False, OpenPalm)"
  unfolding sw3_def
  using core_fields [OF sw2_core(2)]
  by (simp_all add: recognizeHands_label)
     (simp_all add: label_eval openHand_features)

lemma sw4_core:
  "gesture (fst sw4) = OpenPalm"
  "core (snd sw4) = ([OpenPalm, OpenPalm, OpenPalm, Fist],
      [\<lparr>hx = 0.1, hy = 1 / 15, htime = 1000\<rparr>, \<lparr>hx = 0.2, hy = 1 / 15, htime = 1050\<rparr>, \<lparr>hx = 0.3, hy = 1 / 15, htime = 1100\<rparr>, \<lparr>hx = 0.4, hy = 1 / 15, htime = 1150\<rparr>], 0, False, OpenPalm)"
  unfolding sw4_def
  using core_fields [OF sw3_core(2)]
  by (simp_all add: recognizeHands_label)
     (simp_all add: label_eval fistHand_features)

lemma sw5_core:
  "gesture (fst sw5) = SwipeRight"
  "core (snd sw5) = ([OpenPalm, OpenPalm, OpenPalm, Fist, SwipeRight],
      [], 1200, False, SwipeRight)"
  unfolding sw5_def
  using core_fields [OF sw4_core(2)]
  by (simp_all add: recognizeHands_label)
     (simp_all add: label_eval fistHand_features)

lemma sw6_core:
  "gesture (fst sw6) = SwipeRight"
  "core (snd sw6) = ([OpenPalm, OpenPalm, Fist, SwipeRight, Fist],
      [\<lparr>hx = 0.6, hy = 1 / 15, htime = 1250\<rparr>], 1200, False, SwipeRight)"
  unfolding sw6_def
  using core_fields [OF sw5_core(2)]
  by (simp_all add: recognizeHands_label)
     (simp_all add: label_eval fistHand_features)

lemma stabilize_last:
  "last (u_gestureBuffer (snd (stabilize raw out st))) = raw"
  "length (u_gestureBuffer (snd (stabilize raw out st))) \<le> length (u_gestureBuffer st) + 1"
  by (cases "u_gestureBuffer st"; simp add: stabilize_buffer Let_def)+

lemma recognize_vote:
  assumes "recognize res now sw st = Inr (out, st')" "\<not> noHands res"
    and "length (u_gestureBuffer st) \<le> 5"
  shows "\<not> u_twistPoseActive st' \<Longrightarrow> last (u_gestureBuffer st') \<noteq> SwipeLeft \<Longrightarrow>
         last (u_gestureBuffer st') \<noteq> SwipeRight \<Longrightarrow>
         3 \<le> count_list (u_gestureBuffer st') g \<Longrightarrow> gesture out = g"
    and "\<not> u_twistPoseActive st' \<Longrightarrow> last (u_gestureBuffer st') \<noteq> SwipeLeft \<Longrightarrow>
         last (u_gestureBuffer st') \<noteq> SwipeRight \<Longrightarrow>
         (\<forall>g. count_list (u_gestureBuffer st') g < 3) \<Longrightarrow> gesture out = u_lastStableGesture st"
    and "u_lastStableGesture st' = gesture out"
    and "length (u_gestureBuffer st') \<le> length (u_gestureBuffer st) + 1"
    and "length (u_gestureBuffer st') \<le> 5"
proof -
  from recognize_hands(1) [OF assms(2,1)] recognizeHands_stabilize [of "the (the res)" now sw st]
  obtain raw out' s where r: "(out, st') = stabilize raw out' s"
    and b: "u_gestureBuffer s = u_gestureBuffer st"
    and l: "u_lastStableGesture s = u_lastStableGesture st"
    by metis
  from r have out: "out = fst (stabilize raw out' s)" and st': "st' = snd (stabilize raw out' s)"
    by (metis fst_conv, metis snd_conv)
  have tw: "u_twistPoseActive s = u_twistPoseActive st'" by (simp add: st' stabilize_state)
  have raw: "last (u_gestureBuffer st') = raw" by (simp add: st' stabilize_last)
  have len: "length (u_gestureBuffer s) \<le> 5" using assms(3) b by simp
  show "u_lastStableGesture st' = gesture out" by (simp add: st' out stabilize_buffer)
  show "length (u_gestureBuffer st') \<le> length (u_gestureBuffer st) + 1"
    using stabilize_last(2) [of raw out' s] b by (simp add: st')
  show "length (u_gestureBuffer st') \<le> 5"
    using stabilize_length [OF len] by (simp add: st')
  show "gesture out = g" if "\<not> u_twistPoseActive st'" "last (u_gestureBuffer st') \<noteq> SwipeLeft"
    "last (u_gestureBuffer st') \<noteq> SwipeRight" "3 \<le> count_list (u_gestureBuffer st') g"
    using stabilize_vote(1) [OF len, of raw out' g] that tw raw by (simp add: st' out)
  show "gesture out = u_lastStableGesture st"
    if "\<not> u_twistPoseActive st'" "last (u_gestureBuffer st') \<noteq> SwipeLeft"
    "last (u_gestureBuffer st') \<noteq> SwipeRight" "\<forall>g. count_list (u_gestureBuffer st') g < 3"
    using stabilize_vote(2) [OF len, of raw out'] that tw raw l by (simp add: st' out)
qed

lemma recognizeTrace_Cons:
  "recognizeTrace (fr # frames) st = Inr tr \<Longrightarrow>
   \<exists>out st1 tr1. recognize (fst fr) (fst (snd fr)) (snd (snd fr)) st = Inr (out, st1)
     \<and> recognizeTrace frames st1 = Inr tr1 \<and> tr = (out, st1) # tr1"
  by (cases fr) (auto split: sum.splits prod.splits)

lemma trace_keeps_label:
  assumes "recognizeTrace frames st = Inr tr"
    and "\<forall>fr\<in>set frames. \<not> noHands (fst fr)"
    and "length (u_gestureBuffer st) \<le> 5"
    and "\<forall>(out, s)\<in>set tr. \<not> u_twistPoseActive s
           \<and> last (u_gestureBuffer s) \<noteq> SwipeLeft \<and> last (u_gestureBuffer s) \<noteq> SwipeRight
           \<and> (\<forall>g. count_list (u_gestureBuffer s) g < 3)"
  shows "\<forall>(out, s)\<in>set tr. gesture out = u_lastStableGesture st
           \<and> u_lastStableGesture s = u_lastStableGesture st"
  using assms
proof (induction frames arbitrary: st tr)
  case Nil
  then show ?case by simp
next
  case (Cons fr frames)
  from recognizeTrace_Cons [OF Cons.prems(1)] obtain out st1 tr1 where
    r: "recognize (fst fr) (fst (snd fr)) (snd (snd fr)) st = Inr (out, st1)"
    and rest: "recognizeTrace frames st1 = Inr tr1" and tr: "tr = (out, st1) # tr1"
    by blast
  from Cons.prems(2) have nh: "\<not> noHands (fst fr)" by simp
  from Cons.prems(4) tr have c: "\<not> u_twistPoseActive st1" "last (u_gestureBuffer st1) \<noteq> SwipeLeft"
    "last (u_gestureBuffer st1) \<noteq> SwipeRight" "\<forall>g. count_list (u_gestureBuffer st1) g < 3"
    by simp_all
  note v = recognize_vote [OF r nh Cons.prems(3)]
  from v(2) [OF c] have g: "gesture out = u_lastStableGesture st" .
  with v(3) have l: "u_lastStableGesture st1 = u_lastStableGesture st" by simp
  from Cons.IH [OF rest _ v(5)] Cons.prems(2,4) tr
  have "\<forall>(out, s)\<in>set tr1. gesture out = u_lastStableGesture st1
           \<and> u_lastStableGesture s = u_lastStableGesture st1"
    by simp
  with g l tr show ?case by simp
qed

lemma trace_buffer_length:
  assumes "recognizeTrace frames st = Inr tr"
    and "\<forall>fr\<in>set frames. \<not> noHands (fst fr)"
    and "length (u_gestureBuffer st) \<le> 5"
  shows "\<forall>(out, s)\<in>set tr. length (u_gestureBuffer s) \<le> length (u_gestureBuffer st) + length frames"
  using assms
proof (induction frames arbitrary: st tr)
  case Nil
  then show ?case by simp
next
  case (Cons fr frames)
  from recognizeTrace_Cons [OF Cons.prems(1)] obtain out st1 tr1 where
    r: "recognize (fst fr) (fst (snd fr)) (snd (snd fr)) st = Inr (out, st1)"
    and rest: "recognizeTrace frames st1 = Inr tr1" and tr: "tr = (out, st1) # tr1"
    by blast
  from Cons.prems(2) have nh: "\<not> noHands (fst fr)" by simp
  note v = recognize_vote [OF r nh Cons.prems(3)]
  from Cons.IH [OF rest _ v(5)] Cons.prems(2)
  have "\<forall>(out, s)\<in>set tr1. length (u_gestureBuffer s) \<le> length (u_gestureBuffer st1) + length frames"
    by simp
  with v(4) tr show ?case by fastforce
qed

lemma count_le_length: "count_list xs g \<le> length xs"
  by (induction xs) auto

text \<open>
  Claim C10. A frame without a hand outputs \<open>none\<close>, empties the stabilization buffer
  and clears the twist-pose flag, and leaves the last stable gesture as it is. Over any
  following run of frames with a hand, as long as after each frame the twist-pose flag is
  inactive, the raw label just pushed is not a swipe and no label has 3 entries in the
  buffer, every sample carries the label that was stable before the run, and that label
  stays the last stable gesture. The first two frames after the buffer was emptied never
  have a label with 3 entries. On a frame where a label does have 3 entries (flag
  inactive, no swipe), that label is the output.
\<close>

theorem stable_label_survives_loss:
  "(noHands res \<longrightarrow>
      (\<exists>out st1. recognize res now sw st = Inr (out, st1) \<and> gesture out = GNone
         \<and> u_gestureBuffer st1 = [] \<and> \<not> u_twistPoseActive st1
         \<and> u_lastStableGesture st1 = u_lastStableGesture st))
   \<and> (recognizeTrace frames st = Inr tr
        \<and> (\<forall>fr\<in>set frames. \<not> noHands (fst fr))
        \<and> length (u_gestureBuffer st) \<le> 5
        \<and> (\<forall>(out, s)\<in>set tr. \<not> u_twistPoseActive s
              \<and> last (u_gestureBuffer s) \<noteq> SwipeLeft \<and> last (u_gestureBuffer s) \<noteq> SwipeRight
              \<and> (\<forall>g. count_list (u_gestureBuffer s) g < 3))
      \<longrightarrow> (\<forall>(out, s)\<in>set tr. gesture out = u_lastStableGesture st
              \<and> u_lastStableGesture s = u_lastStableGesture st))
   \<and> (recognizeTrace frames st = Inr tr
        \<and> (\<forall>fr\<in>set frames. \<not> noHands (fst fr))
        \<and> u_gestureBuffer st = [] \<and> length frames \<le> 2
      \<longrightarrow> (\<forall>(out, s)\<in>set tr. \<forall>g. count_list (u_gestureBuffer s) g < 3))
   \<and> (recognize res now sw st = Inr (out, st1) \<and> \<not> noHands res
        \<and> length (u_gestureBuffer st) \<le> 5 \<and> \<not> u_twistPoseActive st1
        \<and> last (u_gestureBuffer st1) \<noteq> SwipeLeft \<and> last (u_gestureBuffer st1) \<noteq> SwipeRight
        \<and> 3 \<le> count_list (u_gestureBuffer st1) g
      \<longrightarrow> gesture out = g)"
proof (intro conjI impI)
  assume "noHands res"
  then show "\<exists>out st1. recognize res now sw st = Inr (out, st1) \<and> gesture out = GNone
         \<and> u_gestureBuffer st1 = [] \<and> \<not> u_twistPoseActive st1
         \<and> u_lastStableGesture st1 = u_lastStableGesture st"
    by (simp add: recognize_def output0_def resetOnLoss_def)
next
  assume "recognizeTrace frames st = Inr tr
        \<and> (\<forall>fr\<in>set frames. \<not> noHands (fst fr))
        \<and> length (u_gestureBuffer st) \<le> 5
        \<and> (\<forall>(out, s)\<in>set tr. \<not> u_twistPoseActive s
              \<and> last (u_gestureBuffer s) \<noteq> SwipeLeft \<and> last (u_gestureBuffer s) \<noteq> SwipeRight
              \<and> (\<forall>g. count_list (u_gestureBuffer s) g < 3))"
  then show "\<forall>(out, s)\<in>set tr. gesture out = u_lastStableGesture st
              \<and> u_lastStableGesture s = u_lastStableGesture st"
    using trace_keeps_label [of frames st tr] by blast
next
  assume a: "recognizeTrace frames st = Inr tr
        \<and> (\<forall>fr\<in>set frames. \<not> noHands (fst fr))
        \<and> u_gestureBuffer st = [] \<and> length frames \<le> 2"
  then have "\<forall>(out, s)\<in>set tr. length (u_gestureBuffer s) \<le> length (u_gestureBuffer st) + length frames"
    using trace_buffer_length [of frames st tr] by simp
  with a have "\<forall>(out, s)\<in>set tr. length (u_gestureBuffer s) \<le> 2" by fastforce
  moreover have "count_list xs g < 3" if "length xs \<le> 2" for xs :: "gesture list" and g
    using count_le_length [of xs g] that by simp
  ultimately show "\<forall>(out, s)\<in>set tr. \<forall>g. count_list (u_gestureBuffer s) g < 3"
    by fastforce
next
  assume a: "recognize res now sw st = Inr (out, st1) \<and> \<not> noHands res
        \<and> length (u_gestureBuffer st) \<le> 5 \<and> \<not> u_twistPoseActive st1
        \<and> last (u_gestureBuffer st1) \<noteq> SwipeLeft \<and> last (u_gestureBuffer st1) \<noteq> SwipeRight
        \<and> 3 \<le> count_list (u_gestureBuffer st1) g"
  then show "gesture out = g"
    using recognize_vote(1) [of res now sw st out st1 g] by blast
qed

lemma ls1_core:
  "gesture (fst ls1) = GNone"
  "core (snd ls1) = ([OpenPalm], [\<lparr>hx = 0.5, hy = 1 / 15, htime = 1000\<rparr>], 0, False, GNone)"
  unfolding ls1_def
  by (simp_all add: recognizeHands_label)
     (simp_all add: label_eval openHand_features newRecognizer_def)

lemma ls2_core:
  "gesture (fst ls2) = GNone"
  "core (snd ls2) = ([OpenPalm, OpenPalm],
      [\<lparr>hx = 0.5, hy = 1 / 15, htime = 1000\<rparr>, \<lparr>hx = 0.5, hy = 1 / 15, htime = 1050\<rparr>],
      0, False, GNone)"
  unfolding ls2_def
  using core_fields [OF ls1_core(2)]
  by (simp_all add: recognizeHands_label)
     (simp_all add: label_eval openHand_features)

lemma ls3_core:
  "gesture (fst ls3) = OpenPalm"
  "core (snd ls3) = ([OpenPalm, OpenPalm, OpenPalm],
      [\<lparr>hx = 0.5, hy = 1 / 15, htime = 1000\<rparr>, \<lparr>hx = 0.5, hy = 1 / 15, htime = 1050\<rparr>,
       \<lparr>hx = 0.5, hy = 1 / 15, htime = 1100\<rparr>],
      0, False, OpenPalm)"
  unfolding ls3_def
  using core_fields [OF ls2_core(2)]
  by (simp_all add: recognizeHands_label)
     (simp_all add: label_eval openHand_features)

lemma ls4_core:
  "gesture (fst ls4) = GNone"
  "core (snd ls4) = ([], [], 0, False, OpenPalm)"
  unfolding ls4_def
  using core_fields [OF ls3_core(2)]
  by (simp_all add: output0_def resetOnLoss_def core_def)

lemma ls5_core:
  "gesture (fst ls5) = OpenPalm"
  "core (snd ls5) = ([Fist], [\<lparr>hx = 0.5, hy = 1 / 15, htime = 1200\<rparr>], 0, False, OpenPalm)"
  unfolding ls5_def
  using core_fields [OF ls4_core(2)]
  by (simp_all add: recognizeHands_label)
     (simp_all add: label_eval fistHand_features)

lemma ls6_core:
  "gesture (fst ls6) = OpenPalm"
  "core (snd ls6) = ([Fist, Fist],
      [\<lparr>hx = 0.5, hy = 1 / 15, htime = 1200\<rparr>, \<lparr>hx = 0.5, hy = 1 / 15, htime = 1250\<rparr>],
      0, False, OpenPalm)"
  unfolding ls6_def
  using core_fields [OF ls5_core(2)]
  by (simp_all add: recognizeHands_label)
     (simp_all add: label_eval fistHand_features)

lemma ls7_core:
  "gesture (fst ls7) = Fist"
  "core (snd ls7) = ([Fist, Fist, Fist],
      [\<lparr>hx = 0.5, hy = 1 / 15, htime = 1200\<rparr>, \<lparr>hx = 0.5, hy = 1 / 15, htime = 1250\<rparr>,
       \<lparr>hx = 0.5, hy = 1 / 15, htime = 1300\<rparr>],
      0, False, Fist)"
  unfolding ls7_def
  using core_fields [OF ls6_core(2)]
  by (simp_all add: recognizeHands_label)
     (simp_all add: label_eval fistHand_features)

text \<open>
  Claim C10, witness: three open hands make \<open>open_palm\<close> the stable label; the frame
  without a hand outputs \<open>none\<close> and empties the buffer; the next two frames show a fist
  and output \<open>open_palm\<close>; the third fist frame outputs \<open>fist\<close>.
\<close>

theorem stable_label_survives_loss_witness:
  "gesture (fst ls3) = OpenPalm \<and> u_lastStableGesture (snd ls3) = OpenPalm
   \<and> noHands (Some (Some []))
   \<and> recognize (Some (Some [])) 1150 1150 (snd ls3) = Inr ls4
   \<and> gesture (fst ls4) = GNone \<and> u_gestureBuffer (snd ls4) = []
   \<and> u_lastStableGesture (snd ls4) = OpenPalm
   \<and> recognizeTrace [frame (fistHand 0.5) 1200, frame (fistHand 0.5) 1250] (snd ls4)
        = Inr [ls5, ls6]
   \<and> u_gestureBuffer (snd ls5) = [Fist] \<and> u_gestureBuffer (snd ls6) = [Fist, Fist]
   \<and> \<not> u_twistPoseActive (snd ls5) \<and> \<not> u_twistPoseActive (snd ls6)
   \<and> gesture (fst ls5) = OpenPalm \<and> gesture (fst ls6) = OpenPalm
   \<and> recognize (Some (Some [fistHand 0.5])) 1300 1300 (snd ls6) = Inr ls7
   \<and> u_gestureBuffer (snd ls7) = [Fist, Fist, Fist] \<and> \<not> u_twistPoseActive (snd ls7)
   \<and> gesture (fst ls7) = Fist"
proof -
  note c3 = core_fields [OF ls3_core(2)] and c4 = core_fields [OF ls4_core(2)]
    and c5 = core_fields [OF ls5_core(2)] and c6 = core_fields [OF ls6_core(2)]
    and c7 = core_fields [OF ls7_core(2)]
  have nh0: "noHands (Some (Some []))" by (simp add: noHands_def)
  have nh: "\<not> noHands (Some (Some [h]))" for h :: hand by (simp add: noHands_def)
  have r4: "recognize (Some (Some [])) 1150 1150 (snd ls3) = Inr ls4"
    by (simp add: recognize_def noHands_def ls4_def)
  have r7: "recognize (Some (Some [fistHand 0.5])) 1300 1300 (snd ls6) = Inr (fst ls7, snd ls7)"
    by (simp add: oneHand_recognize hands_length ls7_def)
  have tr: "recognizeTrace [frame (fistHand 0.5) 1200, frame (fistHand 0.5) 1250] (snd ls4)
        = Inr [ls5, ls6]"
    by (simp add: frame_def oneHand_recognize hands_length ls5_def ls6_def split_def)
  have hands: "\<forall>fr\<in>set [frame (fistHand 0.5) 1200, frame (fistHand 0.5) 1250]. \<not> noHands (fst fr)"
    by (simp add: frame_def noHands_def)
  have quiet: "\<forall>(out, s)\<in>set [ls5, ls6]. \<not> u_twistPoseActive s
              \<and> last (u_gestureBuffer s) \<noteq> SwipeLeft \<and> last (u_gestureBuffer s) \<noteq> SwipeRight
              \<and> (\<forall>g. count_list (u_gestureBuffer s) g < 3)"
    using c5 c6 by (simp add: split_def)
  note t4 = stable_label_survives_loss [where res = "Some (Some [])" and now = 1150 and sw = 1150
      and st = "snd ls3" and frames = "[]" and tr = "[]"]
  note t56 = stable_label_survives_loss [where res = "Some (Some [])" and st = "snd ls4"
      and frames = "[frame (fistHand 0.5) 1200, frame (fistHand 0.5) 1250]" and tr = "[ls5, ls6]"]
  note t7 = stable_label_survives_loss [where res = "Some (Some [fistHand 0.5])" and now = 1300
      and sw = 1300 and st = "snd ls6" and out = "fst ls7" and ?st1.0 = "snd ls7"
      and g = Fist and frames = "[]" and tr = "[]"]
  from t4 nh0 r4 obtain out4 st4 where "ls4 = (out4, st4)" "gesture out4 = GNone"
    "u_gestureBuffer st4 = []" "u_lastStableGesture st4 = u_lastStableGesture (snd ls3)"
    by auto
  then have g4: "gesture (fst ls4) = GNone" "u_gestureBuffer (snd ls4) = []"
    "u_lastStableGesture (snd ls4) = u_lastStableGesture (snd ls3)"
    by (metis fst_conv, metis snd_conv, metis snd_conv)
  from t56 tr hands quiet c4
  have "\<forall>(out, s)\<in>set [ls5, ls6]. gesture out = u_lastStableGesture (snd ls4)
              \<and> u_lastStableGesture s = u_lastStableGesture (snd ls4)"
    by simp
  then have g56: "gesture (fst ls5) = u_lastStableGesture (snd ls4)"
    "gesture (fst ls6) = u_lastStableGesture (snd ls4)"
    by (simp_all add: split_def)
  from t7 r7 nh c6 c7 have g7: "gesture (fst ls7) = Fist" by simp
  show ?thesis
    using nh0 r4 tr r7 g4 g56 g7 c3 c4 c5 c6 c7 ls3_core(1) by simp
qed

subsection \<open>Confidence\<close>

text \<open>Arithmetic and comparisons of numbers that may be \<open>NaN\<close>.\<close>

lemma jsnum_arith [simp]:
  "Num x + Num y = Num (x + y)" "Num x - Num y = Num (x - y)"
  "Num x * Num y = Num (x * y)" "Num x / Num y = Num (x / y)"
  "NaN + a = NaN" "a + NaN = NaN" "NaN - a = NaN" "a - NaN = NaN"
  "NaN * a = NaN" "a * NaN = NaN" "NaN / a = NaN" "a / NaN = NaN"
  by (simp_all add: plus_jsnum_def minus_jsnum_def times_jsnum_def divide_jsnum_def
        split: jsnum.splits)

lemma jsnum_cmp [simp]:
  "(Num x < Num y) = (x < y)" "(Num x \<le> Num y) = (x \<le> y)"
  "\<not> NaN < a" "\<not> a < NaN" "\<not> NaN \<le> a" "\<not> a \<le> NaN"
  by (simp_all add: less_jsnum_def less_eq_jsnum_def split: jsnum.splits)

lemma jsnum_sq [simp]: "(Num x)\<^sup>2 = Num (x\<^sup>2)" "NaN\<^sup>2 = NaN"
  by (simp_all add: numeral_2_eq_2 one_jsnum_def power2_eq_square)

lemma Math_simps [simp]:
  "Math_sqrt (Num x) = (if x < 0 then NaN else Num (sqrt x))" "Math_sqrt NaN = NaN"
  "Math_abs (Num x) = Num \<bar>x\<bar>" "Math_abs NaN = NaN"
  "Math_max (Num x) (Num y) = Num (max x y)" "Math_max NaN a = NaN" "Math_max a NaN = NaN"
  "Math_min (Num x) (Num y) = Num (min x y)" "Math_min NaN a = NaN" "Math_min a NaN = NaN"
  "truthy (Num x) = (x \<noteq> 0)" "\<not> truthy NaN"
  by (simp_all add: Math_sqrt_def Math_abs_def Math_max_def Math_min_def truthy_def
        split: jsnum.splits)


lemma unitN_iff: "(Num 0 \<le> c \<and> c \<le> Num 1) = (\<exists>r. c = Num r \<and> 0 \<le> r \<and> r \<le> 1)"
  by (cases c) simp_all

lemma Math_sqrt_cases: "Math_sqrt a = NaN \<or> (\<exists>d. Math_sqrt a = Num d \<and> 0 \<le> d)"
  by (cases a) simp_all

lemma distN_cases: "distN a b = NaN \<or> (\<exists>d. distN a b = Num d \<and> 0 \<le> d)"
  unfolding distN_def by (rule Math_sqrt_cases)

lemma getPalmSizeN_pos: "\<exists>q. getPalmSizeN lm = Num q \<and> 0 < q"
  using distN_cases [of "lm ! 0" "lm ! 9"]
  by (auto simp: getPalmSizeN_def Let_def intro: exI [of _ "1 / 1000"])

lemma getFingerCurlN_cases:
  "getFingerCurlN lm i j = NaN \<or> (\<exists>c. getFingerCurlN lm i j = Num c \<and> 0 \<le> c \<and> c \<le> 1)"
  using distN_cases [of "lm ! j" "lm ! 0"] distN_cases [of "lm ! i" "lm ! 0"]
  by (auto simp: getFingerCurlN_def Let_def)

lemma finiteCoord_Num: "finiteCoord v \<Longrightarrow> \<exists>r. v = Num r"
  by (cases v) (simp_all add: finiteCoord_def)

lemma distN_finite:
  assumes "finiteLandmark a" "finiteLandmark b"
  shows "\<exists>d. distN a b = Num d \<and> 0 \<le> d"
proof -
  from assms obtain a1 a2 a3 b1 b2 b3 where
    "pxN a = Num a1" "pyN a = Num a2" "pzN a = Num a3"
    "pxN b = Num b1" "pyN b = Num b2" "pzN b = Num b3"
    unfolding finiteLandmark_def by (metis finiteCoord_Num)
  then show ?thesis by (simp add: distN_def not_less)
qed

lemma getFingerCurlN_finite:
  assumes "finiteLandmark (lm ! 0)" "finiteLandmark (lm ! i)" "finiteLandmark (lm ! j)"
  shows "\<exists>c. getFingerCurlN lm i j = Num c \<and> 0 \<le> c \<and> c \<le> 1"
  using distN_finite [OF assms(3) assms(1)] distN_finite [OF assms(2) assms(1)]
  by (auto simp: getFingerCurlN_def Let_def)

lemma clampN_unit: "clampN (Num x) (Num 0) (Num 1) = Num (max 0 (min 1 x))"
  by (simp add: clampN_def)

lemma handFeaturesN_bounds:
  "f_pinchDistN (handFeaturesN lm) = NaN
     \<or> (\<exists>p. f_pinchDistN (handFeaturesN lm) = Num p \<and> 0 \<le> p)"
  "f_twistPoseScoreN (handFeaturesN lm) = NaN
     \<or> (\<exists>s. f_twistPoseScoreN (handFeaturesN lm) = Num s \<and> 0 \<le> s \<and> s \<le> 1)"
  "f_extendedCountN (handFeaturesN lm) \<le> 5"
proof -
  show "f_pinchDistN (handFeaturesN lm) = NaN
     \<or> (\<exists>p. f_pinchDistN (handFeaturesN lm) = Num p \<and> 0 \<le> p)"
    using distN_cases [of "lm ! 4" "lm ! 8"] getPalmSizeN_pos [of lm]
    unfolding handFeaturesN_def Let_def by auto
  show "f_twistPoseScoreN (handFeaturesN lm) = NaN
     \<or> (\<exists>s. f_twistPoseScoreN (handFeaturesN lm) = Num s \<and> 0 \<le> s \<and> s \<le> 1)"
    using getFingerCurlN_cases [of lm 10 12] getFingerCurlN_cases [of lm 14 16]
      getFingerCurlN_cases [of lm 18 20]
    unfolding handFeaturesN_def Let_def
    by (elim disjE exE conjE) (simp_all add: clampN_def)
  have "length (filter (\<lambda>b. b) [a, b, c, d, e]) \<le> 5" for a b c d e :: bool
    using length_filter_le [of "\<lambda>b. b" "[a, b, c, d, e]"] by simp
  then show "f_extendedCountN (handFeaturesN lm) \<le> 5"
    unfolding handFeaturesN_def Let_def by simp
qed

lemma handFeaturesN_score_finite:
  assumes "list_all (\<lambda>i. finiteLandmark (lm ! i)) curlLandmarks"
  shows "\<exists>s. f_twistPoseScoreN (handFeaturesN lm) = Num s \<and> 0 \<le> s \<and> s \<le> 1"
proof -
  from assms have f: "finiteLandmark (lm ! 0)" "finiteLandmark (lm ! 10)" "finiteLandmark (lm ! 12)"
    "finiteLandmark (lm ! 14)" "finiteLandmark (lm ! 16)" "finiteLandmark (lm ! 18)"
    "finiteLandmark (lm ! 20)"
    by (simp_all add: curlLandmarks_def)
  from getFingerCurlN_finite [OF f(1) f(2) f(3)] getFingerCurlN_finite [OF f(1) f(4) f(5)]
    getFingerCurlN_finite [OF f(1) f(6) f(7)]
  show ?thesis
    unfolding handFeaturesN_def Let_def
    by (elim exE conjE) (simp add: clampN_def)
qed

lemma stabilizeN_output:
  "confidenceN (fst (stabilizeN raw out st)) = confidenceN out"
  "twistPoseScoreN (fst (stabilizeN raw out st)) = twistPoseScoreN out"
  "twistPoseActiveN (fst (stabilizeN raw out st)) = twistPoseActiveN out"
  "handsDetectedN (fst (stabilizeN raw out st)) = handsDetectedN out"
  by (simp_all add: stabilizeN_def Let_def split_def)

lemma twoHandTrackN_fields:
  "confidenceN (fst (twoHandTrackN ls out st)) = confidenceN out"
  "twistPoseScoreN (fst (twoHandTrackN ls out st)) = twistPoseScoreN out"
  "twistPoseActiveN (fst (twoHandTrackN ls out st)) = twistPoseActiveN out"
  "handsDetectedN (fst (twoHandTrackN ls out st)) = handsDetectedN out"
  "u_twistPoseActiveN (snd (twoHandTrackN ls out st)) = u_twistPoseActiveN st"
  by (simp_all add: twoHandTrackN_def Let_def split_def split: option.splits)

lemma classifyN_confidence:
  assumes "pd = NaN \<or> (\<exists>p. pd = Num p \<and> 0 \<le> p)"
    and "sc = NaN \<or> (\<exists>s. sc = Num s \<and> 0 \<le> s \<and> s \<le> 1)"
    and "n \<le> 5"
    and "classifyN pd mc n ie me re pe tw sc = (g, Some c)"
  shows "(c = NaN \<or> (Num 0 \<le> c \<and> c \<le> Num 1)) \<and> (c = NaN \<longrightarrow> tw \<and> sc = NaN)"
  using assms by (auto simp: classifyN_def split: if_splits)

lemma singleHandN_confidence:
  fixes f sw out st
  defines "c \<equiv> confidenceN (fst (singleHandN f sw out st))"
  assumes "f_pinchDistN f = NaN \<or> (\<exists>p. f_pinchDistN f = Num p \<and> 0 \<le> p)"
    and "f_twistPoseScoreN f = NaN
         \<or> (\<exists>s. f_twistPoseScoreN f = Num s \<and> 0 \<le> s \<and> s \<le> 1)"
    and "f_extendedCountN f \<le> 5" and "confidenceN out = Num 0"
  shows "(c = NaN \<or> (Num 0 \<le> c \<and> c \<le> Num 1))
         \<and> (c = NaN \<longrightarrow> u_twistPoseActiveN st \<and> f_twistPoseScoreN f = NaN)"
proof -
  obtain g cf where cl: "classifyN (f_pinchDistN f) (f_middleCurlN f) (f_extendedCountN f)
      (f_indexExtendedN f) (f_middleExtendedN f) (f_ringExtendedN f) (f_pinkyExtendedN f)
      (u_twistPoseActiveN st) (f_twistPoseScoreN f) = (g, cf)"
    by (cases "classifyN (f_pinchDistN f) (f_middleCurlN f) (f_extendedCountN f)
      (f_indexExtendedN f) (f_middleExtendedN f) (f_ringExtendedN f) (f_pinkyExtendedN f)
      (u_twistPoseActiveN st) (f_twistPoseScoreN f)")
  have k: "(x = NaN \<or> (Num 0 \<le> x \<and> x \<le> Num 1))
           \<and> (x = NaN \<longrightarrow> u_twistPoseActiveN st \<and> f_twistPoseScoreN f = NaN)"
    if "cf = Some x" for x
    using classifyN_confidence [OF assms(2-4)] cl that by blast
  show ?thesis
    unfolding c_def using k assms(5)
    by (cases cf; cases "fst (detectSwipeN sw st)")
       (simp_all add: singleHandN_def Let_def split_def cl stabilizeN_output)
qed

lemma recognizeHandsN_fields:
  "twistPoseScoreN (fst (recognizeHandsN ls now sw st)) = f_twistPoseScoreN (handFeaturesN (ls ! 0))"
  "twistPoseActiveN (fst (recognizeHandsN ls now sw st))
     = twistHysteresisN (u_twistPoseActiveN st) (f_twistPoseScoreN (handFeaturesN (ls ! 0)))"
  "handsDetectedN (fst (recognizeHandsN ls now sw st)) = length ls"
  by (simp_all add: recognizeHandsN_def Let_def split_def stabilizeN_output twoHandTrackN_fields
        singleHandN_def split: option.splits)

lemma twistHysteresisN_NaN: "twistHysteresisN a NaN = a"
  by (simp add: twistHysteresisN_def)

lemma Math_abs_gt: "Math_abs d > Num t \<Longrightarrow> \<exists>r. d = Num r"
  by (cases d) simp_all

lemma recognizeHandsN_cases:
  fixes ls now sw st
  defines "c \<equiv> confidenceN (fst (recognizeHandsN ls now sw st))"
    and "f \<equiv> handFeaturesN (ls ! 0)"
  shows "(\<exists>d. Math_abs d > Num 0.003 \<and> c = Math_min (Num 1) (Math_abs d * Num 15))
         \<or> (\<exists>out st2. confidenceN out = Num 0
               \<and> u_twistPoseActiveN st2 = twistHysteresisN (u_twistPoseActiveN st) (f_twistPoseScoreN f)
               \<and> c = confidenceN (fst (singleHandN f sw out st2)))"
  unfolding c_def f_def recognizeHandsN_def Let_def split_def
  apply (split if_split)
  apply (intro conjI impI)
   apply (rule disjI1)
   apply (simp add: stabilizeN_output)
   apply blast
  apply (rule disjI2)
  apply (intro exI conjI)
    prefer 3
    apply (rule refl)
   apply (simp_all add: twoHandTrackN_fields)
  done

lemma recognizeHandsN_confidence:
  fixes ls now sw st
  defines "c \<equiv> confidenceN (fst (recognizeHandsN ls now sw st))"
    and "sc \<equiv> f_twistPoseScoreN (handFeaturesN (ls ! 0))"
  shows "(c = NaN \<or> (Num 0 \<le> c \<and> c \<le> Num 1))
         \<and> (c = NaN \<longrightarrow> sc = NaN \<and> u_twistPoseActiveN st)"
proof -
  from recognizeHandsN_cases [of ls now sw st]
  consider d where "Math_abs d > Num 0.003" "c = Math_min (Num 1) (Math_abs d * Num 15)"
    | out st2 where "confidenceN out = Num 0"
        "u_twistPoseActiveN st2 = twistHysteresisN (u_twistPoseActiveN st) sc"
        "c = confidenceN (fst (singleHandN (handFeaturesN (ls ! 0)) sw out st2))"
    unfolding c_def sc_def by blast
  then show ?thesis
  proof cases
    case 1
    then show ?thesis by (cases d) simp_all
  next
    case 2
    from singleHandN_confidence [OF handFeaturesN_bounds 2(1), of "ls ! 0" sw st2] 2(2,3)
    show ?thesis unfolding sc_def by (auto simp: twistHysteresisN_NaN)
  qed
qed


lemma recognizeN_hands:
  assumes "recognizeN (Some (Some (lm # others))) now sw st = Inr (out, st')"
  shows "out = fst (recognizeHandsN (lm # others) now sw st)"
  using assms by (auto simp: recognizeN_def noHandsN_def Let_def split: if_splits)

text \<open>
  Claim C9, as amended. Whenever \<open>recognize\<close> returns a sample, for any frame and any
  recognizer, its confidence is \<open>NaN\<close> or lies in \<open>[0, 1]\<close>; on a frame without a hand it
  is 0. It is \<open>NaN\<close> only if the twist-pose score of the sample is \<open>NaN\<close> and the
  twist-pose flag is set after the frame and was set before it: the \<open>twist_pose\<close> branch
  copies the score, and every other branch assigns a number in \<open>[0, 1]\<close>, which is
  \<open>min(1, 15 |delta|)\<close> for spread and squeeze, \<open>max(0, 1 - pinchDist / 0.35)\<close> with
  \<open>0 \<le> pinchDist < 0.35\<close> for a pinch, \<open>1 - extendedCount / 5\<close> with at most one finger
  extended for a fist, 0.9 for pointing, \<open>extendedCount / 5\<close> with at most five fingers for
  the open palm, and 0.85 for a swipe. When the wrist and the PIP joint and tip of the
  middle, ring and little finger of the primary hand carry three numeric coordinates, the
  score is a number and the confidence lies in \<open>[0, 1]\<close>. These coordinates are taken of
  magnitude at most \<open>10^150\<close>, the range in which no square overflows a double; arithmetic
  being exact in this embedding, the proof makes no use of the bound.
\<close>

theorem confidence_unit_interval_or_NaN:
  "(recognizeN res now sw st = Inr (out, st') \<longrightarrow>
      (confidenceN out = NaN \<or> (Num 0 \<le> confidenceN out \<and> confidenceN out \<le> Num 1))
      \<and> (confidenceN out = NaN \<longrightarrow>
            twistPoseScoreN out = NaN \<and> twistPoseActiveN out \<and> u_twistPoseActiveN st)
      \<and> (noHandsN res \<longrightarrow> confidenceN out = Num 0))
   \<and> (recognizeN (Some (Some (lm # others))) now sw st = Inr (out, st')
        \<and> list_all (\<lambda>i. finiteLandmark (lm ! i)) curlLandmarks
      \<longrightarrow> Num 0 \<le> confidenceN out \<and> confidenceN out \<le> Num 1)"
proof (intro conjI impI)
  assume r: "recognizeN res now sw st = Inr (out, st')"
  show "noHandsN res \<Longrightarrow> confidenceN out = Num 0"
    using r by (auto simp: recognizeN_def output0N_def)
  have "(confidenceN out = NaN \<or> (Num 0 \<le> confidenceN out \<and> confidenceN out \<le> Num 1))
      \<and> (confidenceN out = NaN \<longrightarrow>
            twistPoseScoreN out = NaN \<and> twistPoseActiveN out \<and> u_twistPoseActiveN st)"
  proof (cases "noHandsN res")
    case True
    with r show ?thesis by (auto simp: recognizeN_def output0N_def)
  next
    case False
    with r have o: "out = fst (recognizeHandsN (the (the res)) now sw st)"
      by (auto simp: recognizeN_def Let_def split: if_splits)
    from recognizeHandsN_confidence [of "the (the res)" now sw st]
    show ?thesis
      unfolding o by (auto simp: recognizeHandsN_fields twistHysteresisN_NaN)
  qed
  then show "confidenceN out = NaN \<or> (Num 0 \<le> confidenceN out \<and> confidenceN out \<le> Num 1)"
    and "confidenceN out = NaN \<Longrightarrow> twistPoseScoreN out = NaN"
    and "confidenceN out = NaN \<Longrightarrow> twistPoseActiveN out"
    and "confidenceN out = NaN \<Longrightarrow> u_twistPoseActiveN st"
    by blast+
next
  assume a: "recognizeN (Some (Some (lm # others))) now sw st = Inr (out, st')
     \<and> list_all (\<lambda>i. finiteLandmark (lm ! i)) curlLandmarks"
  then have o: "out = fst (recognizeHandsN (lm # others) now sw st)"
    by (simp add: recognizeN_hands)
  from a handFeaturesN_score_finite [of lm]
  have "f_twistPoseScoreN (handFeaturesN ((lm # others) ! 0)) \<noteq> NaN" by auto
  with recognizeHandsN_confidence [of "lm # others" now sw st]
  show "Num 0 \<le> confidenceN out" "confidenceN out \<le> Num 1"
    unfolding o by blast+
qed

text \<open>
  On landmarks whose coordinates are all numbers, the second embedding of \<open>recognize\<close>
  returns what the first one returns, on the fields it has.
\<close>

lemma ofPoint_sel:
  "pxN (ofPoint p) = Num (px p)" "pyN (ofPoint p) = Num (py p)" "pzN (ofPoint p) = Num (pz p)"
  by (simp_all add: ofPoint_def)

lemma distN_ofPoint: "distN (ofPoint a) (ofPoint b) = Num (dist3D a b)"
  by (simp add: distN_def dist3D_def ofPoint_def not_less)

lemma distN_ofPoint_centre:
  "distN (ofPoint a) \<lparr> pxN = Num x, pyN = Num y, pzN = Num z \<rparr>
     = Num (dist3D a \<lparr> px = x, py = y, pz = z \<rparr>)"
  by (simp add: distN_def dist3D_def ofPoint_def not_less)

lemma distN_noZ: "distN \<lparr> pxN = x, pyN = y, pzN = NaN \<rparr> b = NaN"
  by (simp add: distN_def)

lemma finiteLandmark_ofPoint:
  "finiteLandmark (ofPoint p) = (\<bar>px p\<bar> \<le> 10 ^ 150 \<and> \<bar>py p\<bar> \<le> 10 ^ 150 \<and> \<bar>pz p\<bar> \<le> 10 ^ 150)"
  by (simp add: finiteLandmark_def finiteCoord_def ofPoint_def)

lemma numeric_nth:
  assumes "21 \<le> length h" "i < 21"
  shows "map ofPoint h ! i = ofPoint (h ! i)"
  using assms by simp

lemma numeric_measures:
  assumes "21 \<le> length h"
  shows "getPalmSizeN (map ofPoint h) = Num (getPalmSize h)"
    and "isThumbExtendedN (map ofPoint h) = isThumbExtended h"
    and "i < 21 \<Longrightarrow> j < 21 \<Longrightarrow> getFingerCurlN (map ofPoint h) i j = Num (getFingerCurl h i j)"
  using numeric_nth [OF assms, of 0] numeric_nth [OF assms, of 1]
  by (simp_all add: getPalmSizeN_def getPalmSize_def getFingerCurlN_def getFingerCurl_def
        isThumbExtendedN_def isThumbExtended_def Let_def distN_ofPoint distN_ofPoint_centre
        ofPoint_sel numeric_nth [OF assms])

lemma handFeaturesN_numeric:
  assumes "21 \<le> length h"
  shows "handFeaturesN (map ofPoint h) = ofFeatures (handFeatures h)"
proof -
  have n: "map ofPoint h ! i = ofPoint (h ! i)" if "i < 21" for i
    using assms that by simp
  note n0 = n [of 0, simplified]
  show ?thesis
    apply (simp only: handFeaturesN_def handFeatures_def Let_def numeric_measures [OF assms] n
        ofFeatures_def features.simps)
    apply (simp add: numeric_measures [OF assms] n n0 ofPoint_sel distN_ofPoint clampN_def clamp_def)
    done
qed

lemma twistHysteresisN_numeric: "twistHysteresisN a (Num s) = twistHysteresis a s"
  by (simp add: twistHysteresisN_def twistHysteresis_def)

lemma trackPalmN_numeric:
  "trackPalmN now (Num x) (Num y) (map ofEntry hist)
     = (map_option ofPair (fst (trackPalm now x y hist)), map ofEntry (snd (trackPalm now x y hist)))"
  by (simp add: trackPalmN_def trackPalm_def Let_def ofEntry_def ofPair_def map_tl)

lemma classifyN_numeric:
  "classifyN (Num pd) (Num mc) n ie me re pe tw (Num sc)
     = map_prod id (map_option Num) (classify pd mc n ie me re pe tw sc)"
  by (simp add: classifyN_def classify_def)

lemma stabilizeN_numeric:
  "stabilizeN raw (ofSample out) (ofRecognizer st)
     = map_prod ofSample ofRecognizer (stabilize raw out st)"
  by (simp add: stabilizeN_def stabilize_def Let_def split_def ofSample_def ofRecognizer_def)

lemma detectSwipeN_numeric:
  "detectSwipeN now (ofRecognizer st) = map_prod id ofRecognizer (detectSwipe now st)"
proof -
  define recent where "recent = filter (\<lambda>p. now - 250 \<le> htime p) (u_palmHistory st)"
  have f: "filter (\<lambda>p. now - 250 \<le> htimeN p) (map ofEntry (u_palmHistory st)) = map ofEntry recent"
    unfolding recent_def by (induction "u_palmHistory st" arbitrary: st) (simp_all add: ofEntry_def comp_def filter_map)
  have s: "hxN (ofEntry e) = Num (hx e)" "hyN (ofEntry e) = Num (hy e)" "htimeN (ofEntry e) = htime e"
    for e by (simp_all add: ofEntry_def)
  have n: "map ofEntry recent ! 0 = ofEntry (recent ! 0)"
    "map ofEntry recent ! (length recent - 1) = ofEntry (recent ! (length recent - 1))"
    if "\<not> length recent < 4"
  proof -
    from that have l: "0 < length recent" "length recent - 1 < length recent" by arith+
    show "map ofEntry recent ! 0 = ofEntry (recent ! 0)"
      by (rule nth_map [OF l(1)])
    show "map ofEntry recent ! (length recent - 1) = ofEntry (recent ! (length recent - 1))"
      by (rule nth_map [OF l(2)])
  qed
  show ?thesis
  proof (cases "length recent < 4")
    case True
    then show ?thesis
      unfolding detectSwipeN_def detectSwipe_def Let_def
      by (simp add: ofRecognizer_def f recent_def [symmetric])
  next
    case False
    show ?thesis
      unfolding detectSwipeN_def detectSwipe_def Let_def
      using False
      by (simp add: ofRecognizer_def f recent_def [symmetric] n [OF False] s)
  qed
qed


lemma ofSample_update:
  "ofSample (out\<lparr>confidence := c\<rparr>) = (ofSample out)\<lparr>confidenceN := Num c\<rparr>"
  "ofSample (out\<lparr>twoHandDelta := d\<rparr>) = (ofSample out)\<lparr>twoHandDeltaN := Num d\<rparr>"
  "ofSample (out\<lparr>twoHandDistance := Some d\<rparr>) = (ofSample out)\<lparr>twoHandDistanceN := Some (Num d)\<rparr>"
  "twoHandDeltaN (ofSample out) = Num (twoHandDelta out)"
  by (simp_all add: ofSample_def)

lemma ofRecognizer_update:
  "ofRecognizer (st\<lparr>u_smoothTwoHandDist := d\<rparr>)
     = (ofRecognizer st)\<lparr>u_smoothTwoHandDistN := map_option Num d\<rparr>"
  "ofRecognizer (st\<lparr>u_palmHistory := h, u_twistPoseActive := a\<rparr>)
     = (ofRecognizer st)\<lparr>u_palmHistoryN := map ofEntry h, u_twistPoseActiveN := a\<rparr>"
  "u_smoothTwoHandDistN (ofRecognizer st) = map_option Num (u_smoothTwoHandDist st)"
  "u_twistPoseActiveN (ofRecognizer st) = u_twistPoseActive st"
  "u_palmHistoryN (ofRecognizer st) = map ofEntry (u_palmHistory st)"
  by (simp_all add: ofRecognizer_def)

lemma ofRecognizer_twistFilter: "ofRecognizer (snd (twistFilter a b d st)) = ofRecognizer st"
  by (simp add: twistFilter_def Let_def ofRecognizer_def)

lemma dist2DN_numeric: "dist2DN (Num a, Num b) (Num c, Num d) = Num (dist2D (a, b) (c, d))"
  by (simp add: dist2DN_def dist2D_def not_less)

lemma twoHandTrackN_numeric:
  assumes "2 \<le> length ls \<longrightarrow> 1 \<le> length (ls ! 0) \<and> 1 \<le> length (ls ! 1)"
  shows "twoHandTrackN (map (map ofPoint) ls) (ofSample out) (ofRecognizer st)
         = map_prod ofSample ofRecognizer (twoHandTrack ls out st)"
proof (cases "2 \<le> length ls")
  case False
  then show ?thesis
    by (simp add: twoHandTrackN_def twoHandTrack_def ofRecognizer_update)
next
  case True
  with assms have l: "0 < length ls" "1 < length ls" "0 < length (ls ! 0)" "0 < length (ls ! 1)"
    by auto
  have n: "map (map ofPoint) ls ! 0 ! 0 = ofPoint (ls ! 0 ! 0)"
    "map (map ofPoint) ls ! 1 ! 0 = ofPoint (ls ! 1 ! 0)"
    using l by (simp_all add: nth_map)
  show ?thesis
    using True
    apply (simp only: twoHandTrackN_def twoHandTrack_def Let_def n ofPoint_sel length_map if_True
        dist2DN_numeric ofRecognizer_update)
    apply (cases "u_smoothTwoHandDist st")
     apply (simp_all add: ofSample_update ofRecognizer_update u_twoHandSmoothing_def)
    done
qed

lemma singleHandN_numeric:
  "singleHandN (ofFeatures f) sw (ofSample out) (ofRecognizer st)
     = map_prod ofSample ofRecognizer (singleHand f sw out st)"
proof -
  have sel: "f_pinchDistN (ofFeatures f) = Num (f_pinchDist f)"
    "f_middleCurlN (ofFeatures f) = Num (f_middleCurl f)"
    "f_extendedCountN (ofFeatures f) = f_extendedCount f"
    "f_indexExtendedN (ofFeatures f) = f_indexExtended f"
    "f_middleExtendedN (ofFeatures f) = f_middleExtended f"
    "f_ringExtendedN (ofFeatures f) = f_ringExtended f"
    "f_pinkyExtendedN (ofFeatures f) = f_pinkyExtended f"
    "f_twistPoseScoreN (ofFeatures f) = Num (f_twistPoseScore f)"
    by (simp_all add: ofFeatures_def)
  obtain g c where cl: "classify (f_pinchDist f) (f_middleCurl f) (f_extendedCount f)
      (f_indexExtended f) (f_middleExtended f) (f_ringExtended f) (f_pinkyExtended f)
      (u_twistPoseActive st) (f_twistPoseScore f) = (g, c)"
    by (cases "classify (f_pinchDist f) (f_middleCurl f) (f_extendedCount f)
      (f_indexExtended f) (f_middleExtended f) (f_ringExtended f) (f_pinkyExtended f)
      (u_twistPoseActive st) (f_twistPoseScore f)")
  obtain swp st1 where d: "detectSwipe sw st = (swp, st1)"
    by (cases "detectSwipe sw st")
  show ?thesis
    unfolding singleHandN_def singleHand_def sel ofRecognizer_update classifyN_numeric
      detectSwipeN_numeric cl d Let_def
    by (cases c; cases swp) (simp_all add: stabilizeN_numeric ofSample_update(1) [symmetric])
qed

lemma recognizeHandsN_numeric:
  assumes "21 \<le> length (ls ! 0)" "0 < length ls" "2 \<le> length ls \<longrightarrow> 1 \<le> length (ls ! 1)"
  shows "recognizeHandsN (map (map ofPoint) ls) now sw (ofRecognizer st)
         = map_prod ofSample ofRecognizer (recognizeHands ls now sw st)"
proof -
  have n: "map (map ofPoint) ls ! 0 = map ofPoint (ls ! 0)"
    using assms(2) by (rule nth_map)
  have l: "2 \<le> length ls \<longrightarrow> 1 \<le> length (ls ! 0) \<and> 1 \<le> length (ls ! 1)"
    using assms by auto
  define f where "f = handFeatures (ls ! 0)"
  have sel: "f_palmXN (ofFeatures f) = Num (f_palmX f)" "f_palmYN (ofFeatures f) = Num (f_palmY f)"
    "f_twistPoseScoreN (ofFeatures f) = Num (f_twistPoseScore f)"
    "f_indexCurlN (ofFeatures f) = Num (f_indexCurl f)"
    "f_middleCurlN (ofFeatures f) = Num (f_middleCurl f)"
    "f_ringCurlN (ofFeatures f) = Num (f_ringCurl f)"
    "f_pinkyCurlN (ofFeatures f) = Num (f_pinkyCurl f)"
    "f_thumbExtN (ofFeatures f) = f_thumbExt f"
    by (simp_all add: ofFeatures_def)
  define hist where "hist = snd (trackPalm now (f_palmX f) (f_palmY f) (u_palmHistory st))"
  define delta where "delta = fst (trackPalm now (f_palmX f) (f_palmY f) (u_palmHistory st))"
  define active where "active = twistHysteresis (u_twistPoseActive st) (f_twistPoseScore f)"
  define st1 where "st1 = st\<lparr>u_palmHistory := hist, u_twistPoseActive := active\<rparr>"
  define tf where "tf = twistFilter (f_handAngle f) (f_pinchAxisAngle f) (f_pinchDist f) st1"
  define out where "out =
            \<lparr> gesture = GNone, confidence = 0,
              handPosition = Some (f_palmX f, f_palmY f), palmDelta = delta,
              handAngle = f_handAngle f, handAngleDelta = snd (fst tf),
              rawHandAngleDelta = fst (fst tf), twistPoseScore = f_twistPoseScore f,
              twistPoseActive = active, handsDetected = length ls,
              twoHandDistance = None, twoHandDelta = 0,
              fingerCurls =
                Some \<lparr> fc_index = f_indexCurl f, fc_middle = f_middleCurl f,
                       fc_ring = f_ringCurl f, fc_pinky = f_pinkyCurl f,
                       fc_thumbExtended = f_thumbExt f \<rparr> \<rparr>"
  have L: "recognizeHands ls now sw st =
      (if 2 \<le> length ls \<and> \<bar>twoHandDelta (fst (twoHandTrack ls out (snd tf)))\<bar> > 0.003
       then stabilize (if twoHandDelta (fst (twoHandTrack ls out (snd tf))) > 0 then Spread else Squeeze)
              ((fst (twoHandTrack ls out (snd tf)))\<lparr>confidence :=
                  min 1 (\<bar>twoHandDelta (fst (twoHandTrack ls out (snd tf)))\<bar> * 15)\<rparr>)
              (snd (twoHandTrack ls out (snd tf)))
       else singleHand f sw (fst (twoHandTrack ls out (snd tf))) (snd (twoHandTrack ls out (snd tf))))"
    unfolding recognizeHands_def Let_def split_def f_def out_def tf_def st1_def active_def
      hist_def delta_def ..
  have o: "\<lparr> gestureN = GNone, confidenceN = Num 0,
              handPositionN = Some (Num (f_palmX f), Num (f_palmY f)),
              palmDeltaN = map_option ofPair delta,
              twistPoseScoreN = Num (f_twistPoseScore f),
              twistPoseActiveN = active, handsDetectedN = length ls,
              twoHandDistanceN = None, twoHandDeltaN = Num 0,
              fingerCurlsN =
                Some \<lparr> fc_indexN = Num (f_indexCurl f), fc_middleN = Num (f_middleCurl f),
                       fc_ringN = Num (f_ringCurl f), fc_pinkyN = Num (f_pinkyCurl f),
                       fc_thumbExtendedN = f_thumbExt f \<rparr> \<rparr> = ofSample out"
    by (simp add: ofSample_def out_def ofPair_def ofCurls_def)
  have s: "(ofRecognizer st)\<lparr>u_palmHistoryN := map ofEntry hist, u_twistPoseActiveN := active\<rparr>
      = ofRecognizer (snd tf)"
    by (simp add: tf_def ofRecognizer_twistFilter st1_def ofRecognizer_update)
  have R: "recognizeHandsN (map (map ofPoint) ls) now sw (ofRecognizer st) =
      (if 2 \<le> length ls \<and> Math_abs (twoHandDeltaN (fst (twoHandTrackN (map (map ofPoint) ls) (ofSample out) (ofRecognizer (snd tf))))) > Num 0.003
       then stabilizeN (if twoHandDeltaN (fst (twoHandTrackN (map (map ofPoint) ls) (ofSample out) (ofRecognizer (snd tf)))) > Num 0 then Spread else Squeeze)
              ((fst (twoHandTrackN (map (map ofPoint) ls) (ofSample out) (ofRecognizer (snd tf))))\<lparr>confidenceN :=
                  Math_min (Num 1) (Math_abs (twoHandDeltaN (fst (twoHandTrackN (map (map ofPoint) ls) (ofSample out) (ofRecognizer (snd tf))))) * Num 15)\<rparr>)
              (snd (twoHandTrackN (map (map ofPoint) ls) (ofSample out) (ofRecognizer (snd tf))))
       else singleHandN (ofFeatures f) sw (fst (twoHandTrackN (map (map ofPoint) ls) (ofSample out) (ofRecognizer (snd tf))))
              (snd (twoHandTrackN (map (map ofPoint) ls) (ofSample out) (ofRecognizer (snd tf)))))"
    unfolding recognizeHandsN_def Let_def split_def n handFeaturesN_numeric [OF assms(1)]
      f_def [symmetric] sel ofRecognizer_update trackPalmN_numeric twistHysteresisN_numeric
      fst_conv snd_conv hist_def [symmetric] delta_def [symmetric] active_def [symmetric]
      length_map o s ..
  show ?thesis
    unfolding L R twoHandTrackN_numeric [OF l]
    by (simp add: ofSample_update(4) ofSample_update(1) [symmetric] stabilizeN_numeric
          singleHandN_numeric)
qed

lemma recognizeN_numeric:
  "recognizeN (ofResults res) now sw (ofRecognizer st)
     = map_sum id (map_prod ofSample ofRecognizer) (recognize res now sw st)"
proof (cases "noHands res")
  case True
  then have "noHandsN (ofResults res)"
    by (auto simp: noHands_def noHandsN_def ofResults_def split: option.splits)
  with True show ?thesis
    by (simp add: recognizeN_def recognize_def output0N_def output0_def ofSample_def
          resetOnLossN_def resetOnLoss_def ofRecognizer_def)
next
  case False
  then obtain ls where r: "res = Some (Some ls)" "0 < length ls"
    by (auto simp: noHands_def split: option.splits)
  have o: "ofResults res = Some (Some (map (map ofPoint) ls))"
    by (simp add: r ofResults_def)
  have n0: "map (map ofPoint) ls ! 0 = map ofPoint (ls ! 0)"
    using r(2) by (rule nth_map)
  have n1: "map (map ofPoint) ls ! 1 = map ofPoint (ls ! 1)" if "2 \<le> length ls"
    using that by (simp add: nth_map)
  have L: "recognize res now sw st =
      (if length (ls ! 0) < 21 then Inl TypeError
       else if 2 \<le> length ls \<and> length (ls ! 1) < 1 then Inl TypeError
       else Inr (recognizeHands ls now sw st))"
    using r by (simp add: recognize_def noHands_def)
  have R: "recognizeN (ofResults res) now sw (ofRecognizer st) =
      (if length (ls ! 0) < 21 then Inl TypeError
       else if 2 \<le> length ls \<and> length (ls ! 1) < 1 then Inl TypeError
       else Inr (recognizeHandsN (map (map ofPoint) ls) now sw (ofRecognizer st)))"
  proof (cases "2 \<le> length ls")
    case True
    with r(2) n1 [OF True] show ?thesis
      by (simp add: recognizeN_def noHandsN_def o n0 Let_def)
  next
    case False
    with r(2) show ?thesis
      by (simp add: recognizeN_def noHandsN_def o n0 Let_def)
  qed
  show ?thesis
  proof (cases "length (ls ! 0) < 21 \<or> (2 \<le> length ls \<and> length (ls ! 1) < 1)")
    case True
    then show ?thesis unfolding L R by auto
  next
    case F: False
    then have a: "21 \<le> length (ls ! 0)" "2 \<le> length ls \<longrightarrow> 1 \<le> length (ls ! 1)"
      by (simp_all add: not_less Suc_le_eq)
    from F show ?thesis
      unfolding L R by (auto simp: recognizeHandsN_numeric [OF a(1) r(2) a(2)])
  qed
qed

text \<open>The two test frames.\<close>

lemma twistHand_length: "length (twistHand x0) = 21"
  by (simp add: twistHand_def lineHand_nth)

lemma twistHandN_parts:
  "getPalmSizeN (map ofPoint (twistHand x0)) = Num 0.1"
  "isThumbExtendedN (map ofPoint (twistHand x0)) = False"
  "getFingerCurlN (map ofPoint (twistHand x0)) 6 8 = Num 0"
  "getFingerCurlN (map ofPoint (twistHand x0)) 10 12 = Num 1"
  "getFingerCurlN (map ofPoint (twistHand x0)) 14 16 = Num 1"
  "getFingerCurlN (map ofPoint (twistHand x0)) 18 20 = Num 1"
  "map ofPoint (twistHand x0) ! 0 = ofPoint (pt x0 0)"
  "map ofPoint (twistHand x0) ! 4 = ofPoint (pt x0 0.2)"
  "map ofPoint (twistHand x0) ! 5 = ofPoint (pt x0 0.1)"
  "map ofPoint (twistHand x0) ! 8 = ofPoint (pt x0 0.25)"
  "map ofPoint (twistHand x0) ! 17 = ofPoint (pt x0 0.1)"
  by (simp_all add: numeric_measures numeric_nth twistHand_length twistHand_parts)

lemma twistHandN_features:
  "handFeaturesN (map ofPoint (twistHand x0)) =
     \<lparr> f_palmXN = Num x0, f_palmYN = Num (1 / 15),
       f_indexCurlN = Num 0, f_middleCurlN = Num 1, f_ringCurlN = Num 1, f_pinkyCurlN = Num 1,
       f_thumbExtN = False, f_indexExtendedN = True, f_middleExtendedN = False,
       f_ringExtendedN = False, f_pinkyExtendedN = False, f_extendedCountN = 1,
       f_pinchDistN = Num 0.5, f_twistPoseScoreN = Num 1 \<rparr>"
  apply (simp only: handFeaturesN_def Let_def twistHandN_parts)
  apply (simp add: ofPoint_sel pt_sel distN_ofPoint dist3D_line clampN_def)
  done

lemma listUpdate_parts:
  assumes "k \<noteq> 0"
  shows "k \<noteq> 9 \<Longrightarrow> getPalmSizeN (l[k := p]) = getPalmSizeN l"
    and "k \<noteq> i \<Longrightarrow> k \<noteq> j \<Longrightarrow> getFingerCurlN (l[k := p]) i j = getFingerCurlN l i j"
    and "k \<noteq> 1 \<Longrightarrow> k \<noteq> 4 \<Longrightarrow> k \<noteq> 5 \<Longrightarrow> k \<noteq> 17
         \<Longrightarrow> isThumbExtendedN (l[k := p]) = isThumbExtendedN l"
  using assms
  by (simp_all add: getPalmSizeN_def getFingerCurlN_def isThumbExtendedN_def)

lemma twistHandNoZ_parts:
  "getPalmSizeN twistHandNoZ = Num 0.1"
  "isThumbExtendedN twistHandNoZ = False"
  "getFingerCurlN twistHandNoZ 6 8 = Num 0"
  "getFingerCurlN twistHandNoZ 10 12 = NaN"
  "getFingerCurlN twistHandNoZ 14 16 = Num 1"
  "getFingerCurlN twistHandNoZ 18 20 = Num 1"
  "twistHandNoZ ! 0 = ofPoint (pt 0 0)"
  "twistHandNoZ ! 4 = ofPoint (pt 0 0.2)"
  "twistHandNoZ ! 5 = ofPoint (pt 0 0.1)"
  "twistHandNoZ ! 8 = ofPoint (pt 0 0.25)"
  "twistHandNoZ ! 17 = ofPoint (pt 0 0.1)"
  "length twistHandNoZ = 21"
proof -
  show "getFingerCurlN twistHandNoZ 10 12 = NaN"
    by (simp add: twistHandNoZ_def getFingerCurlN_def Let_def twistHand_length distN_noZ
          twistHand_def lineHand_nth distN_ofPoint dist3D_line)
qed (simp_all add: twistHandNoZ_def listUpdate_parts twistHandN_parts twistHand_length)

lemma twistHandNoZ_features:
  "handFeaturesN twistHandNoZ =
     \<lparr> f_palmXN = Num 0, f_palmYN = Num (1 / 15),
       f_indexCurlN = Num 0, f_middleCurlN = NaN, f_ringCurlN = Num 1, f_pinkyCurlN = Num 1,
       f_thumbExtN = False, f_indexExtendedN = True, f_middleExtendedN = False,
       f_ringExtendedN = False, f_pinkyExtendedN = False, f_extendedCountN = 1,
       f_pinchDistN = Num 0.5, f_twistPoseScoreN = NaN \<rparr>"
  apply (simp only: handFeaturesN_def Let_def twistHandNoZ_parts)
  apply (simp add: ofPoint_sel pt_sel distN_ofPoint dist3D_line clampN_def)
  done

lemma stabilizeN_state:
  "u_twistPoseActiveN (snd (stabilizeN raw out st)) = u_twistPoseActiveN st"
  "u_palmHistoryN (snd (stabilizeN raw out st)) = u_palmHistoryN st"
  "u_lastSwipeTimeN (snd (stabilizeN raw out st)) = u_lastSwipeTimeN st"
  by (simp_all add: stabilizeN_def Let_def split_def)

lemma detectSwipeN_state:
  "u_twistPoseActiveN (snd (detectSwipeN now st)) = u_twistPoseActiveN st"
  by (simp add: detectSwipeN_def Let_def)

lemma recognizeHandsN_flag:
  "u_twistPoseActiveN (snd (recognizeHandsN ls now sw st))
     = twistHysteresisN (u_twistPoseActiveN st) (f_twistPoseScoreN (handFeaturesN (ls ! 0)))"
  by (simp add: recognizeHandsN_def Let_def split_def stabilizeN_state detectSwipeN_state
        twoHandTrackN_fields singleHandN_def)

lemma nz1_fields:
  "twistPoseScoreN (fst nz1) = Num 1" "twistPoseActiveN (fst nz1)"
  "u_twistPoseActiveN (snd nz1)" "confidenceN (fst nz1) = Num 1"
  "length (u_palmHistoryN (snd nz1)) = 1"
proof -
  show "twistPoseScoreN (fst nz1) = Num 1" "twistPoseActiveN (fst nz1)"
    "u_twistPoseActiveN (snd nz1)"
    by (simp_all add: nz1_def recognizeHandsN_fields recognizeHandsN_flag twistHandN_features
          twistHysteresisN_def newRecognizerN_def u_twistPoseEnterThreshold_def)
  show "confidenceN (fst nz1) = Num 1"
    by (simp add: nz1_def recognizeHandsN_def Let_def split_def twistHandN_features
          twoHandTrackN_def singleHandN_def stabilizeN_output classifyN_def
          twistHysteresisN_def newRecognizerN_def u_twistPoseEnterThreshold_def
          detectSwipeN_def trackPalmN_def)
  show "length (u_palmHistoryN (snd nz1)) = 1"
    by (simp add: nz1_def recognizeHandsN_def Let_def split_def twistHandN_features
          twoHandTrackN_def singleHandN_def stabilizeN_state classifyN_def
          twistHysteresisN_def newRecognizerN_def u_twistPoseEnterThreshold_def
          detectSwipeN_def trackPalmN_def)
qed

lemma nz2_fields:
  "twistPoseScoreN (fst nz2) = NaN" "twistPoseActiveN (fst nz2)"
  "confidenceN (fst nz2) = NaN" "handsDetectedN (fst nz2) = 1"
proof -
  show "twistPoseScoreN (fst nz2) = NaN" "twistPoseActiveN (fst nz2)"
    "handsDetectedN (fst nz2) = 1"
    by (simp_all add: nz2_def recognizeHandsN_fields twistHandNoZ_features
          twistHysteresisN_NaN nz1_fields)
  show "confidenceN (fst nz2) = NaN"
    using nz1_fields(3,5)
    by (simp add: nz2_def recognizeHandsN_def Let_def split_def twistHandNoZ_features
          twoHandTrackN_def singleHandN_def stabilizeN_output classifyN_def
          twistHysteresisN_NaN detectSwipeN_def trackPalmN_def)
qed

lemma nz_recognize:
  "recognizeN (Some (Some [map ofPoint (twistHand 0)])) 1000 1000 newRecognizerN = Inr nz1"
  "recognizeN (Some (Some [twistHandNoZ])) 1050 1050 (snd nz1) = Inr nz2"
  by (simp_all add: recognizeN_def noHandsN_def twistHand_length twistHandNoZ_parts nz1_def nz2_def)

lemma twistHand_finite: "list_all (\<lambda>i. finiteLandmark (map ofPoint (twistHand 0) ! i)) curlLandmarks"
  by (simp add: curlLandmarks_def twistHand_def lineHand_nth twistHand_length
        finiteLandmark_ofPoint pt_sel)

lemma stabilizeN_twist:
  "u_twistPoseActiveN st \<Longrightarrow> gestureN (fst (stabilizeN TwistPose out st)) = TwistPose"
  by (simp add: stabilizeN_def Let_def split_def highPriority_def)

lemma nz2_gesture: "gestureN (fst nz2) = TwistPose"
  using nz1_fields(3,5)
  by (simp add: nz2_def recognizeHandsN_def Let_def split_def twistHandNoZ_features
        twoHandTrackN_def singleHandN_def classifyN_def stabilizeN_twist
        twistHysteresisN_NaN detectSwipeN_def trackPalmN_def)

text \<open>
  Claim C9, witness: the twist-pose hand with all its coordinates on a new recognizer
  (confidence 1), the same hand with the \<open>z\<close> of the middle fingertip missing on the next
  frame (confidence and score \<open>NaN\<close>, the flag set before and after), then a frame
  without a hand (confidence 0).
\<close>

theorem confidence_unit_interval_or_NaN_witness:
  "recognizeN (Some (Some [map ofPoint (twistHand 0)])) 1000 1000 newRecognizerN = Inr nz1
   \<and> list_all (\<lambda>i. finiteLandmark (map ofPoint (twistHand 0) ! i)) curlLandmarks
   \<and> confidenceN (fst nz1) = Num 1
   \<and> Num 0 \<le> confidenceN (fst nz1) \<and> confidenceN (fst nz1) \<le> Num 1
   \<and> recognizeN (Some (Some [twistHandNoZ])) 1050 1050 (snd nz1) = Inr nz2
   \<and> confidenceN (fst nz2) = NaN \<and> twistPoseScoreN (fst nz2) = NaN
   \<and> twistPoseActiveN (fst nz2) \<and> u_twistPoseActiveN (snd nz1)
   \<and> noHandsN None
   \<and> recognizeN None 1100 1100 (snd nz2) = Inr (output0N, resetOnLossN (snd nz2))
   \<and> confidenceN output0N = Num 0"
proof -
  have r1: "recognizeN (Some (Some (map ofPoint (twistHand 0) # []))) 1000 1000 newRecognizerN
      = Inr (fst nz1, snd nz1)"
    by (simp add: nz_recognize)
  have r2: "recognizeN (Some (Some [twistHandNoZ])) 1050 1050 (snd nz1) = Inr (fst nz2, snd nz2)"
    by (simp add: nz_recognize)
  have r3: "recognizeN None 1100 1100 (snd nz2) = Inr (output0N, resetOnLossN (snd nz2))"
    by (simp add: recognizeN_def noHandsN_def)
  from confidence_unit_interval_or_NaN [where res = "Some (Some [map ofPoint (twistHand 0)])"
      and now = 1000 and sw = 1000 and st = newRecognizerN and out = "fst nz1" and st' = "snd nz1"
      and lm = "map ofPoint (twistHand 0)" and others = "[]"]
    confidence_unit_interval_or_NaN [where res = "Some (Some [twistHandNoZ])"
      and now = 1050 and sw = 1050 and st = "snd nz1" and out = "fst nz2" and st' = "snd nz2"
      and lm = "twistHandNoZ" and others = "[]"]
    confidence_unit_interval_or_NaN [where res = None
      and now = 1100 and sw = 1100 and st = "snd nz2" and out = output0N
      and st' = "resetOnLossN (snd nz2)" and lm = "twistHandNoZ" and others = "[]"]
    r1 r2 r3 twistHand_finite nz1_fields nz2_fields
  show ?thesis
    by (simp add: nz_recognize noHandsN_def)
qed

text \<open>
  Claim C9 as stated fails on a frame with a missing coordinate. After a twist-pose frame
  has set the flag, a frame whose middle fingertip has no \<open>z\<close> gets the curl \<open>NaN\<close> for
  the middle finger and the twist-pose score \<open>NaN\<close>; \<open>NaN < 0.42\<close> is false, so the flag
  stays set, and the \<open>twist_pose\<close> branch returns the score as the confidence: \<open>NaN\<close>,
  which is not in \<open>[0, 1]\<close>.
\<close>

theorem confidence_NaN_missing_coordinate:
  "recognizeN (Some (Some [map ofPoint (twistHand 0)])) 1000 1000 newRecognizerN = Inr nz1
   \<and> recognizeN (Some (Some [twistHandNoZ])) 1050 1050 (snd nz1) = Inr nz2
   \<and> gestureN (fst nz2) = TwistPose
   \<and> \<not> (Num 0 \<le> confidenceN (fst nz2) \<and> confidenceN (fst nz2) \<le> Num 1)"
  by (simp add: nz_recognize nz2_gesture nz2_fields)

subsection \<open>Swipes\<close>

lemma detectSwipe_fires:
  assumes "fst (detectSwipe now st) = Some g"
  shows "(g = SwipeLeft \<or> g = SwipeRight) \<and> 700 \<le> now - u_lastSwipeTime st
         \<and> u_palmHistory (snd (detectSwipe now st)) = []
         \<and> u_lastSwipeTime (snd (detectSwipe now st)) = now"
  using assms by (auto simp: detectSwipe_def Let_def split: if_splits)

lemma detectSwipe_quiet:
  "fst (detectSwipe now st) = None \<Longrightarrow> snd (detectSwipe now st) = st"
  by (auto simp: detectSwipe_def Let_def split: if_splits)

lemma update_swipe:
  assumes "gesture d = SwipeRight" "handsDetected d \<noteq> 0"
  shows "SelectNext \<in> set (snd (update d now c))"
  using assms by (simp add: update_def handleSwipe_def Let_def split_def)

lemma sw_hands: "handsDetected (fst sw5) = 1" "handsDetected (fst sw6) = 1"
  by (simp_all add: sw5_def sw6_def recognizeHands_twist)

text \<open>
  Claim C6, the code at a failing input. A hand sweeps to the right, one frame every
  50 ms: three open hands, then three fists. On the fifth frame (1200 ms) the swipe detector
  fires: the sample is \<open>swipe_right\<close>, the palm history is emptied and the cooldown timer
  is set to 1200. On the sixth frame (1250 ms) the detector is in its cooldown, but the
  buffer \<open>open_palm, open_palm, fist, swipe_right, fist\<close> has no label with three
  entries, so \<open>_stabilize\<close> outputs the last stable gesture, which is the swipe: a
  second \<open>swipe_right\<close> sample 50 ms after the first. The controller advances the
  selection on both samples.
\<close>

theorem swipe_label_repeated:
  "recognizeAll
     [frame (openHand 0.1) 1000, frame (openHand 0.2) 1050, frame (openHand 0.3) 1100,
      frame (fistHand 0.4) 1150, frame (fistHand 0.5) 1200, frame (fistHand 0.6) 1250]
     newRecognizer
     = Inr ([fst sw1, fst sw2, fst sw3, fst sw4, fst sw5, fst sw6], snd sw6)
   \<and> map gesture [fst sw1, fst sw2, fst sw3, fst sw4, fst sw5, fst sw6]
       = [GNone, GNone, OpenPalm, OpenPalm, SwipeRight, SwipeRight]
   \<and> u_lastSwipeTime (snd sw4) = 0 \<and> u_lastSwipeTime (snd sw5) = 1200
   \<and> u_palmHistory (snd sw5) = [] \<and> u_lastSwipeTime (snd sw6) = 1200
   \<and> u_gestureBuffer (snd sw6) = [OpenPalm, OpenPalm, Fist, SwipeRight, Fist]
   \<and> SelectNext \<in> set (snd (update (fst sw5) 1200 c))
   \<and> SelectNext \<in> set (snd (update (fst sw6) 1250 c'))"
proof -
  have run: "recognizeAll
     [frame (openHand 0.1) 1000, frame (openHand 0.2) 1050, frame (openHand 0.3) 1100,
      frame (fistHand 0.4) 1150, frame (fistHand 0.5) 1200, frame (fistHand 0.6) 1250]
     newRecognizer
     = Inr ([fst sw1, fst sw2, fst sw3, fst sw4, fst sw5, fst sw6], snd sw6)"
    by (simp add: frame_def oneHand_recognize hands_length split_def
          sw1_def sw2_def sw3_def sw4_def sw5_def sw6_def)
  note c4 = core_fields [OF sw4_core(2)] and c5 = core_fields [OF sw5_core(2)]
    and c6 = core_fields [OF sw6_core(2)]
  show ?thesis
    using run c4 c5 c6 sw1_core(1) sw2_core(1) sw3_core(1) sw4_core(1) sw5_core(1) sw6_core(1)
      update_swipe [OF sw5_core(1), of 1200 c] update_swipe [OF sw6_core(1), of 1250 c'] sw_hands
    by simp
qed

subsection \<open>Idle fallback of the controller\<close>

lemma decayRotation_fields:
  "u_lastActiveTime (decayRotation c) = u_lastActiveTime c"
  "onGestureChange (decayRotation c) = onGestureChange c"
  "u_fistTriggered (decayRotation c) = u_fistTriggered c"
  "u_lastFistTime (decayRotation c) = u_lastFistTime c"
  "currentGesture (decayRotation c) = currentGesture c"
  "gestureStartTime (decayRotation c) = gestureStartTime c"
  "gestureDuration (decayRotation c) = gestureDuration c"
  by (simp_all add: decayRotation_def Let_def split_def)

lemma update_no_hands:
  assumes "handsDetected d = 0"
  shows "snd (update d now c) =
           (if onGestureChange c then [OnGestureChange (gesture d)] else [])
           @ (if now - u_lastActiveTime c > 2500 then [SetIdle True] else [])"
    and "u_lastActiveTime (fst (update d now c)) = u_lastActiveTime c"
    and "now - u_lastActiveTime c > 2500 \<Longrightarrow> isIdle (brain (fst (update d now c)))"
  using assms
  by (simp_all add: update_def Let_def decayRotation_fields u_idleTimeout_def setIdle_def)

lemma updates_Cons:
  "fst (updates ((d, t) # fs) c) = fst (updates fs (fst (update d t c)))"
  "snd (updates ((d, t) # fs) c) = (t, snd (update d t c)) # snd (updates fs (fst (update d t c)))"
  by (simp_all add: split_def Let_def)

lemma updates_no_hands:
  assumes "\<forall>(d, t)\<in>set fs. handsDetected d = 0"
  shows "count_list (concat (map snd (snd (updates fs c)))) (SetIdle True)
           = length (filter (\<lambda>(d, t). t - u_lastActiveTime c > 2500) fs)
         \<and> u_lastActiveTime (fst (updates fs c)) = u_lastActiveTime c"
  using assms
proof (induction fs arbitrary: c)
  case Nil
  then show ?case by simp
next
  case (Cons f fs)
  obtain d t where f: "f = (d, t)" by (cases f)
  with Cons.prems have h: "handsDetected d = 0" by simp
  from Cons.IH [of "fst (update d t c)"] Cons.prems
  have ih: "count_list (concat (map snd (snd (updates fs (fst (update d t c)))))) (SetIdle True)
           = length (filter (\<lambda>(d, t). t - u_lastActiveTime c > 2500) fs)
         \<and> u_lastActiveTime (fst (updates fs (fst (update d t c)))) = u_lastActiveTime c"
    by (simp add: update_no_hands(2) [OF h])
  show ?case
    using ih by (simp add: f split_def updates_Cons update_no_hands(1) [OF h] del: updates.simps)
qed

text \<open>
  Claim C1, as amended. On an update with no hand detected, the controller requests idle
  mode (\<open>setIdle(true)\<close>) exactly when the clock is more than 2500 ms past the last active
  frame, once on that update; the brain is then idle, and the last active time is left as
  it is. Hence, over a run of updates with no hand detected, idle mode is requested on
  every update past the timeout, not once per run: the number of requests is the number
  of such updates.
\<close>

theorem idle_requested_each_frame:
  "(handsDetected d = 0 \<longrightarrow>
      count_list (snd (update d now c)) (SetIdle True)
        = (if now - u_lastActiveTime c > 2500 then 1 else 0)
      \<and> (now - u_lastActiveTime c > 2500 \<longrightarrow> isIdle (brain (fst (update d now c))))
      \<and> u_lastActiveTime (fst (update d now c)) = u_lastActiveTime c)
   \<and> ((\<forall>(d, t)\<in>set fs. handsDetected d = 0) \<longrightarrow>
      count_list (concat (map snd (snd (updates fs c)))) (SetIdle True)
        = length (filter (\<lambda>(d, t). t - u_lastActiveTime c > 2500) fs))"
  using update_no_hands [of d now c] updates_no_hands [of fs c]
  by simp

text \<open>
  Claim C1, witness: a hand is seen at 10000 ms; of the four updates without a hand at
  12400, 12600, 12650 and 12700 ms the first makes no request and each of the other three
  makes one.
\<close>

theorem idle_requested_each_frame_witness:
  "handsDetected noHandSample = 0
   \<and> u_lastActiveTime (fst (update (handSample OpenPalm) 10000 (newControls newBrain))) = 10000
   \<and> count_list (snd (update noHandSample 12400
        (fst (update (handSample OpenPalm) 10000 (newControls newBrain))))) (SetIdle True) = 0
   \<and> count_list (snd (update noHandSample 12600
        (fst (update (handSample OpenPalm) 10000 (newControls newBrain))))) (SetIdle True) = 1
   \<and> isIdle (brain (fst (update noHandSample 12600
        (fst (update (handSample OpenPalm) 10000 (newControls newBrain))))))
   \<and> count_list (concat (map snd (snd (updates
        [(noHandSample, 12400), (noHandSample, 12600), (noHandSample, 12650), (noHandSample, 12700)]
        (fst (update (handSample OpenPalm) 10000 (newControls newBrain))))))) (SetIdle True) = 3"
proof -
  let ?c = "fst (update (handSample OpenPalm) 10000 (newControls newBrain))"
  have h: "handsDetected noHandSample = 0" by (simp add: noHandSample_def output0_def)
  have a: "u_lastActiveTime ?c = 10000"
    by (simp add: update_def handSample_def output0_def newControls_def Let_def
          decayRotation_fields)
  have all: "\<forall>(d, t)\<in>set [(noHandSample, 12400::int), (noHandSample, 12600),
               (noHandSample, 12650), (noHandSample, 12700)]. handsDetected d = 0"
    using h by simp
  from idle_requested_each_frame [of noHandSample 12400 ?c
      "[(noHandSample, 12400), (noHandSample, 12600), (noHandSample, 12650), (noHandSample, 12700)]"]
    idle_requested_each_frame [of noHandSample 12600 ?c "[]"] h a all
  show ?thesis by (simp add: updates_Cons del: updates.simps)
qed

text \<open>
  Claim C1 as stated fails on that run: idle mode is requested three times in the one
  episode, not once.
\<close>

theorem idle_not_once_per_episode:
  "count_list (concat (map snd (snd (updates
        [(noHandSample, 12400), (noHandSample, 12600), (noHandSample, 12650), (noHandSample, 12700)]
        (fst (update (handSample OpenPalm) 10000 (newControls newBrain))))))) (SetIdle True) \<noteq> 1"
proof -
  let ?c = "fst (update (handSample OpenPalm) 10000 (newControls newBrain))"
  have h: "handsDetected noHandSample = 0" by (simp add: noHandSample_def output0_def)
  have a: "u_lastActiveTime ?c = 10000"
    by (simp add: update_def handSample_def output0_def newControls_def Let_def
          decayRotation_fields)
  from updates_no_hands [of "[(noHandSample, 12400), (noHandSample, 12600),
      (noHandSample, 12650), (noHandSample, 12700)]" ?c] h a
  show ?thesis by simp
qed

subsection \<open>Fist hold and cooldown\<close>

lemma handleFist_calls:
  "Reset \<in> set (snd (handleFist now c)) \<longleftrightarrow>
     \<not> u_fistTriggered c \<and> 800 \<le> gestureDuration c \<and> 1500 \<le> now - u_lastFistTime c"
  "count_list (snd (handleFist now c)) Reset = (if Reset \<in> set (snd (handleFist now c)) then 1 else 0)"
  "u_fistTriggered (fst (handleFist now c)) = (u_fistTriggered c \<or> Reset \<in> set (snd (handleFist now c)))"
  "u_lastFistTime (fst (handleFist now c)) =
     (if Reset \<in> set (snd (handleFist now c)) then now else u_lastFistTime c)"
  "currentGesture (fst (handleFist now c)) = currentGesture c"
  "gestureStartTime (fst (handleFist now c)) = gestureStartTime c"
  by (auto simp: handleFist_def Let_def u_fistHoldRequired_def)

lemma update_fist:
  assumes "gesture d = Fist" "handsDetected d \<noteq> 0"
  shows "Reset \<in> set (snd (update d now c)) \<longleftrightarrow> fistFires now c"
    and "count_list (snd (update d now c)) Reset = (if fistFires now c then 1 else 0)"
    and "u_fistTriggered (fst (update d now c)) = (u_fistTriggered c \<or> fistFires now c)"
    and "u_lastFistTime (fst (update d now c)) = (if fistFires now c then now else u_lastFistTime c)"
    and "currentGesture (fst (update d now c)) = Fist"
    and "gestureStartTime (fst (update d now c))
           = (if currentGesture c = Fist then gestureStartTime c else now)"
  using assms
  by (simp_all add: update_def Let_def split_def handleFist_calls fistFires_def)

lemma autoExpand_fields:
  "Reset \<notin> set (snd (autoExpand c))"
  "u_lastFistTime (fst (autoExpand c)) = u_lastFistTime c"
  "u_fistTriggered (fst (autoExpand c)) = u_fistTriggered c"
  "currentGesture (fst (autoExpand c)) = currentGesture c"
  by (simp_all add: autoExpand_def)

lemma handlePinch_fields:
  "Reset \<notin> set (snd (handlePinch now c))"
  "u_lastFistTime (fst (handlePinch now c)) = u_lastFistTime c"
  "u_fistTriggered (fst (handlePinch now c)) = u_fistTriggered c"
  "currentGesture (fst (handlePinch now c)) = currentGesture c"
  by (simp_all add: handlePinch_def Let_def split_def autoExpand_fields)

lemma handleSwipe_fields:
  "Reset \<notin> set (snd (handleSwipe b c))"
  "u_lastFistTime (fst (handleSwipe b c)) = u_lastFistTime c"
  "u_fistTriggered (fst (handleSwipe b c)) = u_fistTriggered c"
  "currentGesture (fst (handleSwipe b c)) = currentGesture c"
  by (simp_all add: handleSwipe_def Let_def split_def autoExpand_fields)

lemma handleRotation_fields:
  "Reset \<notin> set (snd (handleRotation d c))"
  "u_lastFistTime (fst (handleRotation d c)) = u_lastFistTime c"
  "\<not> u_fistTriggered (fst (handleRotation d c))"
  "currentGesture (fst (handleRotation d c)) = currentGesture c"
  by (simp_all add: handleRotation_def Let_def split_def)

lemma handleExpansion_fields:
  "Reset \<notin> set (snd (handleExpansion d k c))"
  "u_lastFistTime (fst (handleExpansion d k c)) = u_lastFistTime c"
  "\<not> u_fistTriggered (fst (handleExpansion d k c))"
  "currentGesture (fst (handleExpansion d k c)) = currentGesture c"
  by (simp_all add: handleExpansion_def Let_def split_def)

lemmas handler_fields = autoExpand_fields handlePinch_fields handleSwipe_fields
  handleRotation_fields handleExpansion_fields decayRotation_fields handleFist_calls

lemma update_other:
  assumes "gesture d \<noteq> Fist \<or> handsDetected d = 0"
  shows "Reset \<notin> set (snd (update d now c))"
    and "u_lastFistTime (fst (update d now c)) = u_lastFistTime c"
    and "u_fistTriggered c \<longrightarrow> currentGesture c = Fist
         \<Longrightarrow> \<not> u_fistTriggered (fst (update d now c))"
    and "currentGesture (fst (update d now c)) = gesture d"
proof -
  show "currentGesture (fst (update d now c)) = gesture d"
    by (cases "gesture d")
       (simp_all add: update_def Let_def split_def handler_fields)
  show "Reset \<notin> set (snd (update d now c))"
    using assms
    by (cases "gesture d")
       (auto simp: update_def Let_def split_def handler_fields)
  show "u_lastFistTime (fst (update d now c)) = u_lastFistTime c"
    using assms
    by (cases "gesture d")
       (auto simp: update_def Let_def split_def handler_fields)
  show "\<not> u_fistTriggered (fst (update d now c))"
    if "u_fistTriggered c \<longrightarrow> currentGesture c = Fist"
    using assms that
    by (cases "gesture d")
       (auto simp: update_def Let_def split_def handler_fields)
qed

lemma update_current:
  "currentGesture (fst (update d now c)) = gesture d"
  by (cases "gesture d")
     (simp_all add: update_def Let_def split_def handler_fields)

lemma handler_start:
  "gestureStartTime (fst (autoExpand c)) = gestureStartTime c"
  "gestureStartTime (fst (handlePinch now c)) = gestureStartTime c"
  "gestureStartTime (fst (handleSwipe b c)) = gestureStartTime c"
  "gestureStartTime (fst (handleRotation d c)) = gestureStartTime c"
  "gestureStartTime (fst (handleExpansion d k c)) = gestureStartTime c"
  by (simp_all add: autoExpand_def handlePinch_def handleSwipe_def handleRotation_def
        handleExpansion_def Let_def split_def)

lemma update_start:
  "gestureStartTime (fst (update d now c))
     = (if gesture d \<noteq> currentGesture c then now else gestureStartTime c)"
  by (cases "gesture d")
     (simp_all add: update_def Let_def split_def handler_fields handler_start)

lemma update_reset:
  "Reset \<in> set (snd (update d now c)) \<longleftrightarrow>
     gesture d = Fist \<and> handsDetected d \<noteq> 0 \<and> fistFires now c"
  "u_lastFistTime (fst (update d now c))
     = (if Reset \<in> set (snd (update d now c)) then now else u_lastFistTime c)"
  "count_list (snd (update d now c)) Reset = (if Reset \<in> set (snd (update d now c)) then 1 else 0)"
proof -
  show "Reset \<in> set (snd (update d now c)) \<longleftrightarrow>
     gesture d = Fist \<and> handsDetected d \<noteq> 0 \<and> fistFires now c"
  proof (cases "gesture d = Fist \<and> handsDetected d \<noteq> 0")
    case True
    then show ?thesis using update_fist(1) [where d = d and now = now and c = c] by simp
  next
    case False
    then show ?thesis using update_other(1) [where d = d and now = now and c = c] by auto
  qed
  then show "u_lastFistTime (fst (update d now c))
     = (if Reset \<in> set (snd (update d now c)) then now else u_lastFistTime c)"
    using update_fist(4) [where d = d and now = now and c = c]
      update_other(2) [where d = d and now = now and c = c]
    by (cases "gesture d = Fist \<and> handsDetected d \<noteq> 0") auto
  show "count_list (snd (update d now c)) Reset = (if Reset \<in> set (snd (update d now c)) then 1 else 0)"
    using update_fist(1,2) [where d = d and now = now and c = c]
      update_other(1) [where d = d and now = now and c = c]
    by (cases "gesture d = Fist \<and> handsDetected d \<noteq> 0") auto
qed

lemma update_invariant:
  assumes "u_fistTriggered c \<longrightarrow> currentGesture c = Fist"
  shows "u_fistTriggered (fst (update d now c)) \<longrightarrow> currentGesture (fst (update d now c)) = Fist"
proof (cases "gesture d = Fist")
  case True
  then show ?thesis by (simp add: update_current)
next
  case False
  then have "\<not> u_fistTriggered (fst (update d now c))"
    using update_other(3) [where d = d and now = now and c = c] assms by blast
  then show ?thesis by simp
qed

lemma updates_invariant:
  "u_fistTriggered c \<longrightarrow> currentGesture c = Fist \<Longrightarrow>
   u_fistTriggered (fst (updates fs c)) \<longrightarrow> currentGesture (fst (updates fs c)) = Fist"
proof (induction fs arbitrary: c)
  case Nil
  then show ?case by simp
next
  case (Cons f fs)
  obtain d t where f: "f = (d, t)" by (cases f)
  from Cons.IH [OF update_invariant [OF Cons.prems, of d t]]
  show ?case by (simp add: f updates_Cons del: updates.simps)
qed

lemma resetTimes_Cons:
  "resetTimes ((t, cs) # lg) = (if Reset \<in> set cs then t # resetTimes lg else resetTimes lg)"
  by (simp add: resetTimes_def)

lemma updates_cooldown:
  "cooldownFrom (u_lastFistTime c) (resetTimes (snd (updates fs c)))"
proof (induction fs arbitrary: c)
  case Nil
  then show ?case by (simp add: resetTimes_def)
next
  case (Cons f fs)
  obtain d t where f: "f = (d, t)" by (cases f)
  show ?case
  proof (cases "Reset \<in> set (snd (update d t c))")
    case True
    then have "1500 \<le> t - u_lastFistTime c" "u_lastFistTime (fst (update d t c)) = t"
      using update_reset(1,2) [where d = d and now = t and c = c]
      by (simp_all add: fistFires_def)
    with True Cons.IH [of "fst (update d t c)"] show ?thesis
      by (simp add: f updates_Cons resetTimes_Cons del: updates.simps)
  next
    case False
    then have "u_lastFistTime (fst (update d t c)) = u_lastFistTime c"
      using update_reset(2) [where d = d and now = t and c = c] by simp
    with False Cons.IH [of "fst (update d t c)"] show ?thesis
      by (simp add: f updates_Cons resetTimes_Cons del: updates.simps)
  qed
qed

text \<open>Within one fist instance, which began at \<open>t1\<close>.\<close>

lemma fist_instance_hold:
  assumes "currentGesture c = Fist" "gestureStartTime c = t1"
    and "\<forall>(d, t)\<in>set fs. gesture d = Fist"
  shows "\<forall>(t, cs)\<in>set (snd (updates fs c)). Reset \<in> set cs \<longrightarrow> 800 \<le> t - t1"
  using assms
proof (induction fs arbitrary: c)
  case Nil
  then show ?case by simp
next
  case (Cons f fs)
  obtain d t where f: "f = (d, t)" by (cases f)
  with Cons.prems have g: "gesture d = Fist" by simp
  have c': "currentGesture (fst (update d t c)) = Fist" "gestureStartTime (fst (update d t c)) = t1"
    using g Cons.prems(1,2) by (simp_all add: update_current update_start)
  have "Reset \<in> set (snd (update d t c)) \<longrightarrow> 800 \<le> t - t1"
    using Cons.prems(1,2) by (simp add: update_reset(1) fistFires_def)
  with Cons.IH [OF c'] Cons.prems(3) show ?case
    by (simp add: f updates_Cons del: updates.simps)
qed

lemma fist_instance_count:
  assumes "currentGesture c = Fist" "gestureStartTime c = t1"
    and "\<forall>(d, t)\<in>set fs. gesture d = Fist \<and> handsDetected d \<noteq> 0"
  shows "count_list (concat (map snd (snd (updates fs c)))) Reset =
           (if \<not> u_fistTriggered c
               \<and> (\<exists>(d, t)\<in>set fs. 800 \<le> t - t1 \<and> 1500 \<le> t - u_lastFistTime c)
            then 1 else 0)"
  using assms
proof (induction fs arbitrary: c)
  case Nil
  then show ?case by simp
next
  case (Cons f fs)
  obtain d t where f: "f = (d, t)" by (cases f)
  with Cons.prems have g: "gesture d = Fist" "handsDetected d \<noteq> 0" by simp_all
  let ?c = "fst (update d t c)"
  have c': "currentGesture ?c = Fist" "gestureStartTime ?c = t1"
    using g Cons.prems(1,2) by (simp_all add: update_current update_start)
  have fires: "fistFires t c \<longleftrightarrow> \<not> u_fistTriggered c \<and> 800 \<le> t - t1 \<and> 1500 \<le> t - u_lastFistTime c"
    using Cons.prems(1,2) by (simp add: fistFires_def)
  note u = update_fist [OF g, where now = t and c = c]
  from Cons.IH [OF c'] Cons.prems(3)
  have ih: "count_list (concat (map snd (snd (updates fs ?c)))) Reset =
           (if \<not> u_fistTriggered ?c
               \<and> (\<exists>(d, t)\<in>set fs. 800 \<le> t - t1 \<and> 1500 \<le> t - u_lastFistTime ?c)
            then 1 else 0)"
    by simp
  show ?case
  proof (cases "fistFires t c")
    case True
    with u ih fires show ?thesis
      by (simp add: f updates_Cons del: updates.simps)
  next
    case False
    with u ih fires show ?thesis
      by (auto simp: f updates_Cons simp del: updates.simps)
  qed
qed

lemma updates_snoc_both:
  "fst (updates (fs @ [(d, t)]) c) = fst (update d t (fst (updates fs c)))
   \<and> snd (updates (fs @ [(d, t)]) c)
     = snd (updates fs c) @ [(t, snd (update d t (fst (updates fs c))))]"
proof (induction fs arbitrary: c)
  case Nil
  show ?case by (simp add: split_def Let_def)
next
  case (Cons a fs)
  obtain d' t' where a: "a = (d', t')" by (cases a)
  from Cons.IH [of "fst (update d' t' c)"] show ?case
    by (simp add: a updates_Cons del: updates.simps)
qed

lemma updates_snoc:
  "fst (updates (fs @ [(d, t)]) c) = fst (update d t (fst (updates fs c)))"
  "snd (updates (fs @ [(d, t)]) c)
     = snd (updates fs c) @ [(t, snd (update d t (fst (updates fs c))))]"
  using updates_snoc_both [of fs d t c] by simp_all

lemma handSample_fields:
  "gesture (handSample g) = g" "handsDetected (handSample g) = 1"
  by (simp_all add: handSample_def)

lemma fistState_0:
  "currentGesture (fistState 0) = GNone \<and> gestureStartTime (fistState 0) = 0
   \<and> u_fistTriggered (fistState 0) = False \<and> u_lastFistTime (fistState 0) = 0"
  by (simp add: fistState_def newControls_def)

lemma fistState_1:
  "fistState 1 = fst (update (handSample Fist) 10000 (fistState 0))"
  "(Reset \<in> set (snd (update (handSample Fist) 10000 (fistState 0)))) = False"
  "currentGesture (fistState 1) = Fist \<and> gestureStartTime (fistState 1) = 10000
   \<and> u_fistTriggered (fistState 1) = False \<and> u_lastFistTime (fistState 1) = 0"
proof -
  have t: "take 1 fistRun = take 0 fistRun @ [(handSample Fist, 10000)]"
    by (simp add: fistRun_def)
  show e: "fistState 1 = fst (update (handSample Fist) 10000 (fistState 0))"
    unfolding fistState_def t updates_snoc by (rule refl)
  show r: "(Reset \<in> set (snd (update (handSample Fist) 10000 (fistState 0)))) = False"
    using fistState_0 by (simp add: update_reset(1) fistFires_def handSample_fields)
  show "currentGesture (fistState 1) = Fist \<and> gestureStartTime (fistState 1) = 10000
   \<and> u_fistTriggered (fistState 1) = False \<and> u_lastFistTime (fistState 1) = 0"
    unfolding e using fistState_0 r
    by (simp add: update_current update_start update_reset(2) update_fist(3) handSample_fields fistFires_def)
qed

lemma fistState_2:
  "fistState 2 = fst (update (handSample Fist) 10799 (fistState 1))"
  "(Reset \<in> set (snd (update (handSample Fist) 10799 (fistState 1)))) = False"
  "currentGesture (fistState 2) = Fist \<and> gestureStartTime (fistState 2) = 10000
   \<and> u_fistTriggered (fistState 2) = False \<and> u_lastFistTime (fistState 2) = 0"
proof -
  have t: "take 2 fistRun = take 1 fistRun @ [(handSample Fist, 10799)]"
    by (simp add: fistRun_def)
  show e: "fistState 2 = fst (update (handSample Fist) 10799 (fistState 1))"
    unfolding fistState_def t updates_snoc by (rule refl)
  show r: "(Reset \<in> set (snd (update (handSample Fist) 10799 (fistState 1)))) = False"
    using fistState_1(3) by (simp add: update_reset(1) fistFires_def handSample_fields)
  show "currentGesture (fistState 2) = Fist \<and> gestureStartTime (fistState 2) = 10000
   \<and> u_fistTriggered (fistState 2) = False \<and> u_lastFistTime (fistState 2) = 0"
    unfolding e using fistState_1(3) r
    by (simp add: update_current update_start update_reset(2) update_fist(3) handSample_fields fistFires_def)
qed

lemma fistState_3:
  "fistState 3 = fst (update (handSample Fist) 10801 (fistState 2))"
  "(Reset \<in> set (snd (update (handSample Fist) 10801 (fistState 2)))) = True"
  "currentGesture (fistState 3) = Fist \<and> gestureStartTime (fistState 3) = 10000
   \<and> u_fistTriggered (fistState 3) = True \<and> u_lastFistTime (fistState 3) = 10801"
proof -
  have t: "take 3 fistRun = take 2 fistRun @ [(handSample Fist, 10801)]"
    by (simp add: fistRun_def)
  show e: "fistState 3 = fst (update (handSample Fist) 10801 (fistState 2))"
    unfolding fistState_def t updates_snoc by (rule refl)
  show r: "(Reset \<in> set (snd (update (handSample Fist) 10801 (fistState 2)))) = True"
    using fistState_2(3) by (simp add: update_reset(1) fistFires_def handSample_fields)
  show "currentGesture (fistState 3) = Fist \<and> gestureStartTime (fistState 3) = 10000
   \<and> u_fistTriggered (fistState 3) = True \<and> u_lastFistTime (fistState 3) = 10801"
    unfolding e using fistState_2(3) r
    by (simp add: update_current update_start update_reset(2) update_fist(3) handSample_fields fistFires_def)
qed

lemma fistState_4:
  "fistState 4 = fst (update (handSample Fist) 10850 (fistState 3))"
  "(Reset \<in> set (snd (update (handSample Fist) 10850 (fistState 3)))) = False"
  "currentGesture (fistState 4) = Fist \<and> gestureStartTime (fistState 4) = 10000
   \<and> u_fistTriggered (fistState 4) = True \<and> u_lastFistTime (fistState 4) = 10801"
proof -
  have t: "take 4 fistRun = take 3 fistRun @ [(handSample Fist, 10850)]"
    by (simp add: fistRun_def)
  show e: "fistState 4 = fst (update (handSample Fist) 10850 (fistState 3))"
    unfolding fistState_def t updates_snoc by (rule refl)
  show r: "(Reset \<in> set (snd (update (handSample Fist) 10850 (fistState 3)))) = False"
    using fistState_3(3) by (simp add: update_reset(1) fistFires_def handSample_fields)
  show "currentGesture (fistState 4) = Fist \<and> gestureStartTime (fistState 4) = 10000
   \<and> u_fistTriggered (fistState 4) = True \<and> u_lastFistTime (fistState 4) = 10801"
    unfolding e using fistState_3(3) r
    by (simp add: update_current update_start update_reset(2) update_fist(3) handSample_fields fistFires_def)
qed

lemma fistState_5:
  "fistState 5 = fst (update (handSample GNone) 10900 (fistState 4))"
  "(Reset \<in> set (snd (update (handSample GNone) 10900 (fistState 4)))) = False"
  "currentGesture (fistState 5) = GNone \<and> gestureStartTime (fistState 5) = 10900
   \<and> u_fistTriggered (fistState 5) = False \<and> u_lastFistTime (fistState 5) = 10801"
proof -
  have t: "take 5 fistRun = take 4 fistRun @ [(handSample GNone, 10900)]"
    by (simp add: fistRun_def)
  show e: "fistState 5 = fst (update (handSample GNone) 10900 (fistState 4))"
    unfolding fistState_def t updates_snoc by (rule refl)
  show r: "(Reset \<in> set (snd (update (handSample GNone) 10900 (fistState 4)))) = False"
    using fistState_4(3) by (simp add: update_reset(1) fistFires_def handSample_fields)
  show "currentGesture (fistState 5) = GNone \<and> gestureStartTime (fistState 5) = 10900
   \<and> u_fistTriggered (fistState 5) = False \<and> u_lastFistTime (fistState 5) = 10801"
    unfolding e using fistState_4(3)
      update_other(3) [where d = "handSample GNone" and now = 10900 and c = "fistState 4"] r
    by (simp add: update_current update_start update_reset(2)  handSample_fields fistFires_def)
qed

lemma fistState_6:
  "fistState 6 = fst (update (handSample Fist) 11000 (fistState 5))"
  "(Reset \<in> set (snd (update (handSample Fist) 11000 (fistState 5)))) = False"
  "currentGesture (fistState 6) = Fist \<and> gestureStartTime (fistState 6) = 11000
   \<and> u_fistTriggered (fistState 6) = False \<and> u_lastFistTime (fistState 6) = 10801"
proof -
  have t: "take 6 fistRun = take 5 fistRun @ [(handSample Fist, 11000)]"
    by (simp add: fistRun_def)
  show e: "fistState 6 = fst (update (handSample Fist) 11000 (fistState 5))"
    unfolding fistState_def t updates_snoc by (rule refl)
  show r: "(Reset \<in> set (snd (update (handSample Fist) 11000 (fistState 5)))) = False"
    using fistState_5(3) by (simp add: update_reset(1) fistFires_def handSample_fields)
  show "currentGesture (fistState 6) = Fist \<and> gestureStartTime (fistState 6) = 11000
   \<and> u_fistTriggered (fistState 6) = False \<and> u_lastFistTime (fistState 6) = 10801"
    unfolding e using fistState_5(3) r
    by (simp add: update_current update_start update_reset(2) update_fist(3) handSample_fields fistFires_def)
qed

lemma fistState_7:
  "fistState 7 = fst (update (handSample Fist) 11900 (fistState 6))"
  "(Reset \<in> set (snd (update (handSample Fist) 11900 (fistState 6)))) = False"
  "currentGesture (fistState 7) = Fist \<and> gestureStartTime (fistState 7) = 11000
   \<and> u_fistTriggered (fistState 7) = False \<and> u_lastFistTime (fistState 7) = 10801"
proof -
  have t: "take 7 fistRun = take 6 fistRun @ [(handSample Fist, 11900)]"
    by (simp add: fistRun_def)
  show e: "fistState 7 = fst (update (handSample Fist) 11900 (fistState 6))"
    unfolding fistState_def t updates_snoc by (rule refl)
  show r: "(Reset \<in> set (snd (update (handSample Fist) 11900 (fistState 6)))) = False"
    using fistState_6(3) by (simp add: update_reset(1) fistFires_def handSample_fields)
  show "currentGesture (fistState 7) = Fist \<and> gestureStartTime (fistState 7) = 11000
   \<and> u_fistTriggered (fistState 7) = False \<and> u_lastFistTime (fistState 7) = 10801"
    unfolding e using fistState_6(3) r
    by (simp add: update_current update_start update_reset(2) update_fist(3) handSample_fields fistFires_def)
qed

lemma fistState_8:
  "fistState 8 = fst (update (handSample Fist) 12301 (fistState 7))"
  "(Reset \<in> set (snd (update (handSample Fist) 12301 (fistState 7)))) = True"
  "currentGesture (fistState 8) = Fist \<and> gestureStartTime (fistState 8) = 11000
   \<and> u_fistTriggered (fistState 8) = True \<and> u_lastFistTime (fistState 8) = 12301"
proof -
  have t: "take 8 fistRun = take 7 fistRun @ [(handSample Fist, 12301)]"
    by (simp add: fistRun_def)
  show e: "fistState 8 = fst (update (handSample Fist) 12301 (fistState 7))"
    unfolding fistState_def t updates_snoc by (rule refl)
  show r: "(Reset \<in> set (snd (update (handSample Fist) 12301 (fistState 7)))) = True"
    using fistState_7(3) by (simp add: update_reset(1) fistFires_def handSample_fields)
  show "currentGesture (fistState 8) = Fist \<and> gestureStartTime (fistState 8) = 11000
   \<and> u_fistTriggered (fistState 8) = True \<and> u_lastFistTime (fistState 8) = 12301"
    unfolding e using fistState_7(3) r
    by (simp add: update_current update_start update_reset(2) update_fist(3) handSample_fields fistFires_def)
qed

lemma resetTimes_append: "resetTimes (xs @ ys) = resetTimes xs @ resetTimes ys"
  by (simp add: resetTimes_def)

lemma fistRun_resets:
  "resetTimes (snd (updates fistRun (newControls newBrain))) = [10801, 12301]"
proof -
  have step: "resetTimes (snd (updates (take k fistRun @ [(d, t)]) (newControls newBrain)))
      = resetTimes (snd (updates (take k fistRun) (newControls newBrain)))
        @ (if Reset \<in> set (snd (update d t (fistState k))) then [t] else [])" for k d t
    by (simp add: updates_snoc resetTimes_append fistState_def resetTimes_def)
  have t: "fistRun = take 0 fistRun @ [(handSample Fist, 10000)] @ [(handSample Fist, 10799)]
      @ [(handSample Fist, 10801)] @ [(handSample Fist, 10850)] @ [(handSample GNone, 10900)]
      @ [(handSample Fist, 11000)] @ [(handSample Fist, 11900)] @ [(handSample Fist, 12301)]"
    by (simp add: fistRun_def)
  have tk: "take 1 fistRun = take 0 fistRun @ [(handSample Fist, 10000)]"
    "take 2 fistRun = take 1 fistRun @ [(handSample Fist, 10799)]"
    "take 3 fistRun = take 2 fistRun @ [(handSample Fist, 10801)]"
    "take 4 fistRun = take 3 fistRun @ [(handSample Fist, 10850)]"
    "take 5 fistRun = take 4 fistRun @ [(handSample GNone, 10900)]"
    "take 6 fistRun = take 5 fistRun @ [(handSample Fist, 11000)]"
    "take 7 fistRun = take 6 fistRun @ [(handSample Fist, 11900)]"
    "fistRun = take 7 fistRun @ [(handSample Fist, 12301)]"
    by (simp_all add: fistRun_def)
  have r0: "resetTimes (snd (updates (take 0 fistRun) (newControls newBrain))) = []"
    by (simp add: resetTimes_def)
  have r1: "resetTimes (snd (updates (take 1 fistRun) (newControls newBrain))) = []"
    unfolding tk(1) step using r0 fistState_1(2) by simp
  have r2: "resetTimes (snd (updates (take 2 fistRun) (newControls newBrain))) = []"
    unfolding tk(2) step using r1 fistState_2(2) by simp
  have r3: "resetTimes (snd (updates (take 3 fistRun) (newControls newBrain))) = [10801]"
    unfolding tk(3) step using r2 fistState_3(2) by simp
  have r4: "resetTimes (snd (updates (take 4 fistRun) (newControls newBrain))) = [10801]"
    unfolding tk(4) step using r3 fistState_4(2) by simp
  have r5: "resetTimes (snd (updates (take 5 fistRun) (newControls newBrain))) = [10801]"
    unfolding tk(5) step using r4 fistState_5(2) by simp
  have r6: "resetTimes (snd (updates (take 6 fistRun) (newControls newBrain))) = [10801]"
    unfolding tk(6) step using r5 fistState_6(2) by simp
  have r7: "resetTimes (snd (updates (take 7 fistRun) (newControls newBrain))) = [10801]"
    unfolding tk(7) step using r6 fistState_7(2) by simp
  have "resetTimes (snd (updates (take 7 fistRun @ [(handSample Fist, 12301)])
          (newControls newBrain))) = [10801, 12301]"
    unfolding step using r7 fistState_8(2) by simp
  then show ?thesis using tk(8) by simp
qed

text \<open>
  Claim C5. A fist instance starts with an update whose label is \<open>fist\<close> on a controller
  whose current gesture is not \<open>fist\<close>, at clock \<open>t1\<close>, and continues with updates that
  all carry the label \<open>fist\<close>. No update of the instance less than 800 ms after \<open>t1\<close>
  calls \<open>reset\<close>. When a hand is detected on every update of the instance (and the fist
  flag was clear at the start, as it is whenever the current gesture is not \<open>fist\<close>), \<open>reset\<close>
  is called exactly once in the instance if some update lies at least 800 ms after \<open>t1\<close> and
  at least 1500 ms after the last fist reset, and not at all otherwise. Over any run of
  updates, every call of \<open>reset\<close> lies at least 1500 ms after the one before. The
  invariant that the fist flag is set only while the current gesture is \<open>fist\<close> is kept by
  every update.
\<close>

theorem fist_hold_and_cooldown:
  "(currentGesture c \<noteq> Fist \<and> gesture d1 = Fist \<and> (\<forall>(d, t)\<in>set fs. gesture d = Fist)
      \<longrightarrow> (\<forall>(t, cs)\<in>set (snd (updates ((d1, t1) # fs) c)). t - t1 < 800 \<longrightarrow> Reset \<notin> set cs))
   \<and> (currentGesture c \<noteq> Fist \<and> \<not> u_fistTriggered c
        \<and> gesture d1 = Fist \<and> handsDetected d1 \<noteq> 0
        \<and> (\<forall>(d, t)\<in>set fs. gesture d = Fist \<and> handsDetected d \<noteq> 0)
      \<longrightarrow> count_list (concat (map snd (snd (updates ((d1, t1) # fs) c)))) Reset
            = (if \<exists>(d, t)\<in>set fs. 800 \<le> t - t1 \<and> 1500 \<le> t - u_lastFistTime c then 1 else 0))
   \<and> cooldownFrom (u_lastFistTime c) (resetTimes (snd (updates fs c)))
   \<and> ((u_fistTriggered c \<longrightarrow> currentGesture c = Fist)
      \<longrightarrow> (u_fistTriggered (fst (updates fs c)) \<longrightarrow> currentGesture (fst (updates fs c)) = Fist))"
proof (intro conjI impI)
  let ?c1 = "fst (update d1 t1 c)"
  { assume a: "currentGesture c \<noteq> Fist \<and> gesture d1 = Fist \<and> (\<forall>(d, t)\<in>set fs. gesture d = Fist)"
    then have c1: "currentGesture ?c1 = Fist" "gestureStartTime ?c1 = t1"
      by (auto simp: update_current update_start)
    have first: "Reset \<notin> set (snd (update d1 t1 c))"
      using a by (auto simp: update_reset(1) fistFires_def)
    from a have "\<forall>(d, t)\<in>set fs. gesture d = Fist" by blast
    from fist_instance_hold [OF c1 this]
    have "\<forall>(t, cs)\<in>set (snd (updates fs ?c1)). Reset \<in> set cs \<longrightarrow> 800 \<le> t - t1" .
    with first
    show "\<forall>(t, cs)\<in>set (snd (updates ((d1, t1) # fs) c)). t - t1 < 800 \<longrightarrow> Reset \<notin> set cs"
      by (fastforce simp: updates_Cons simp del: updates.simps) }
  { assume a: "currentGesture c \<noteq> Fist \<and> \<not> u_fistTriggered c
        \<and> gesture d1 = Fist \<and> handsDetected d1 \<noteq> 0
        \<and> (\<forall>(d, t)\<in>set fs. gesture d = Fist \<and> handsDetected d \<noteq> 0)"
    then have g: "gesture d1 = Fist" "handsDetected d1 \<noteq> 0" by simp_all
    have nf: "\<not> fistFires t1 c" using a by (auto simp: fistFires_def)
    have c1: "currentGesture ?c1 = Fist" "gestureStartTime ?c1 = t1"
      using a by (auto simp: update_current update_start)
    have f1: "\<not> u_fistTriggered ?c1" "u_lastFistTime ?c1 = u_lastFistTime c"
      "count_list (snd (update d1 t1 c)) Reset = 0"
      using update_fist(2,3,4) [OF g, where now = t1 and c = c] nf a by simp_all
    from a have "\<forall>(d, t)\<in>set fs. gesture d = Fist \<and> handsDetected d \<noteq> 0" by blast
    from fist_instance_count [OF c1 this] f1
    show "count_list (concat (map snd (snd (updates ((d1, t1) # fs) c)))) Reset
            = (if \<exists>(d, t)\<in>set fs. 800 \<le> t - t1 \<and> 1500 \<le> t - u_lastFistTime c then 1 else 0)"
      by (simp add: updates_Cons del: updates.simps) }
  show "cooldownFrom (u_lastFistTime c) (resetTimes (snd (updates fs c)))"
    by (rule updates_cooldown)
  show "currentGesture (fst (updates fs c)) = Fist"
    if "u_fistTriggered c \<longrightarrow> currentGesture c = Fist" "u_fistTriggered (fst (updates fs c))"
    using updates_invariant [OF that(1), of fs] that(2) by simp
qed

text \<open>
  Claim C5, witness, on a new controller: a fist held from 10000 to 10799 ms calls no
  \<open>reset\<close>; held on to 10801 and 10850 ms it calls it once, at 10801 ms; a second fist from
  11000 ms does not fire at 11900 ms (held 900 ms, 1099 ms after the firing) and fires at
  12301 ms.
\<close>

theorem fist_hold_and_cooldown_witness:
  "currentGesture (newControls newBrain) \<noteq> Fist \<and> \<not> u_fistTriggered (newControls newBrain)
   \<and> gesture (handSample Fist) = Fist \<and> handsDetected (handSample Fist) \<noteq> 0
   \<and> u_lastFistTime (newControls newBrain) = 0
   \<and> count_list (concat (map snd (snd (updates
         [(handSample Fist, 10000), (handSample Fist, 10799)] (newControls newBrain))))) Reset = 0
   \<and> count_list (concat (map snd (snd (updates
         [(handSample Fist, 10000), (handSample Fist, 10799), (handSample Fist, 10801),
          (handSample Fist, 10850)] (newControls newBrain))))) Reset = 1
   \<and> Reset \<notin> set (snd (update (handSample Fist) 10799 (fistState 1)))
   \<and> Reset \<in> set (snd (update (handSample Fist) 10801 (fistState 2)))
   \<and> Reset \<notin> set (snd (update (handSample Fist) 11900 (fistState 6)))
   \<and> resetTimes (snd (updates fistRun (newControls newBrain))) = [10801, 12301]
   \<and> cooldownFrom 0 [10801, 12301]
   \<and> currentGesture (fst (updates fistRun (newControls newBrain))) = Fist"
proof -
  let ?c = "newControls newBrain"
  have c0: "currentGesture ?c \<noteq> Fist" "\<not> u_fistTriggered ?c" "u_lastFistTime ?c = 0"
    by (simp_all add: newControls_def)
  note h = handSample_fields
  note tA = fist_hold_and_cooldown [where c = ?c and ?d1.0 = "handSample Fist" and ?t1.0 = 10000
      and fs = "[(handSample Fist, 10799)]"]
  note tB = fist_hold_and_cooldown [where c = ?c and ?d1.0 = "handSample Fist" and ?t1.0 = 10000
      and fs = "[(handSample Fist, 10799), (handSample Fist, 10801), (handSample Fist, 10850)]"]
  note tC = fist_hold_and_cooldown [where c = ?c and ?d1.0 = "handSample Fist" and ?t1.0 = 10000
      and fs = fistRun]
  have cA: "count_list (concat (map snd (snd (updates
         [(handSample Fist, 10000), (handSample Fist, 10799)] ?c)))) Reset = 0"
    using tA c0 by (simp add: h)
  have cB: "count_list (concat (map snd (snd (updates
         [(handSample Fist, 10000), (handSample Fist, 10799), (handSample Fist, 10801),
          (handSample Fist, 10850)] ?c)))) Reset = 1"
    using tB c0 by (simp add: h)
  have cd: "cooldownFrom (u_lastFistTime ?c) (resetTimes (snd (updates fistRun ?c)))"
    using tC by blast
  have inv: "u_fistTriggered (fst (updates fistRun ?c))
      \<longrightarrow> currentGesture (fst (updates fistRun ?c)) = Fist"
    using tC c0 by blast
  have last: "fst (updates fistRun ?c) = fistState 8"
    by (simp add: fistState_def fistRun_def)
  show ?thesis
    using c0 cA cB cd inv last fistRun_resets fistState_2(2) fistState_3(2) fistState_7(2)
      fistState_8(3)
    by (simp add: h)
qed

lemma recognize_gesture_needs_hand:
  assumes "recognize res now sw st = Inr (out, st')" "handsDetected out = 0"
  shows "gesture out = GNone"
proof (cases "noHands res")
  case True
  with assms(1) show ?thesis by (auto simp: recognize_def output0_def)
next
  case False
  from recognize_hands(1) [OF False assms(1)]
  have "out = fst (recognizeHands (the (the res)) now sw st)" by (metis fst_conv)
  with assms(2) have "length (the (the res)) = 0" by (simp add: recognizeHands_twist)
  with False show ?thesis by (auto simp: noHands_def split: option.splits)
qed

subsection \<open>Twist-driven rotation\<close>

lemma handleRotation_velocity:
  "u_rotationVelocityY (fst (handleRotation d c))
     = u_rotationVelocityY c + (targetVel d - u_rotationVelocityY c) * u_twistAccel"
  "rotation_y (brain (fst (handleRotation d c)))
     = rotation_y (brain c) + u_rotationVelocityY (fst (handleRotation d c))"
  by (simp_all add: handleRotation_def targetVel_def Let_def split_def setIdle_def
        split: option.splits)

lemma update_twist:
  assumes "gesture d = TwistPose" "handsDetected d \<noteq> 0"
  shows "u_rotationVelocityY (fst (update d now c))
           = u_rotationVelocityY c + (targetVel d - u_rotationVelocityY c) * u_twistAccel"
    and "rotation_y (brain (fst (update d now c)))
           = rotation_y (brain c) + u_rotationVelocityY (fst (update d now c))"
  using assms
  by (simp_all add: update_def Let_def split_def handleRotation_velocity)

lemma updates_twist:
  assumes "gesture d = TwistPose" "handsDetected d \<noteq> 0"
  shows "u_rotationVelocityY (fst (updates (map (\<lambda>t. (d, t)) ts) c))
           = targetVel d + (u_rotationVelocityY c - targetVel d) * (1 - u_twistAccel) ^ length ts"
proof (induction ts arbitrary: c)
  case Nil
  show ?case by simp
next
  case (Cons t ts)
  show ?case
    by (simp add: updates_Cons Cons.IH update_twist(1) [OF assms] algebra_simps
          del: updates.simps)
qed

lemma twist_limit:
  assumes "gesture d = TwistPose" "handsDetected d \<noteq> 0"
  shows "(\<lambda>n. u_rotationVelocityY (fst (updates (twistFrames d n) c))) \<longlonglongrightarrow> targetVel d"
proof -
  have "(\<lambda>n. (1 - u_twistAccel) ^ n) \<longlonglongrightarrow> 0"
    by (rule LIMSEQ_realpow_zero) (simp_all add: u_twistAccel_def)
  then have "(\<lambda>n. (u_rotationVelocityY c - targetVel d) * (1 - u_twistAccel) ^ n)
      \<longlonglongrightarrow> (u_rotationVelocityY c - targetVel d) * 0"
    by (rule tendsto_mult_left)
  then have "(\<lambda>n. targetVel d + (u_rotationVelocityY c - targetVel d) * (1 - u_twistAccel) ^ n)
      \<longlonglongrightarrow> targetVel d + (u_rotationVelocityY c - targetVel d) * 0"
    by (rule tendsto_add [OF tendsto_const])
  moreover have "u_rotationVelocityY (fst (updates (twistFrames d n) c))
      = targetVel d + (u_rotationVelocityY c - targetVel d) * (1 - u_twistAccel) ^ n" for n
    using updates_twist [OF assms, of "map (\<lambda>i. 50 * int i) [0..<n]" c]
    by (simp add: twistFrames_def comp_def)
  ultimately show ?thesis by (simp only: mult_zero_right add_0_right)
qed

lemma twistSample_fields:
  "gesture (twistSample a) = TwistPose" "handsDetected (twistSample a) = 1"
  "handAngleDelta (twistSample a) = a"
  by (simp_all add: twistSample_def)

text \<open>
  Claim C7, as amended. On an update with the label \<open>twist_pose\<close> and a hand, the target
  velocity is \<open>2.8 * handAngleDelta\<close> when \<open>|handAngleDelta| > 0.0012\<close> (the dead zone) and 0
  otherwise; the velocity moves towards the target by the factor 0.45 and is added to the
  brain's Y rotation, with no clamp. Under a constant \<open>handAngleDelta\<close> outside the dead
  zone the velocity converges to \<open>2.8 * handAngleDelta\<close>, which is a fixed point of the
  update; doubling the input doubles that limit, and for every bound \<open>B\<close> there is an
  input whose limit exceeds \<open>B\<close>.
\<close>

theorem twist_velocity_unclamped:
  "(gesture d = TwistPose \<and> handsDetected d \<noteq> 0 \<longrightarrow>
      u_rotationVelocityY (fst (update d now c))
        = u_rotationVelocityY c
          + ((if \<bar>handAngleDelta d\<bar> > 0.0012 then handAngleDelta d * 2.8 else 0)
             - u_rotationVelocityY c) * 0.45
      \<and> rotation_y (brain (fst (update d now c)))
        = rotation_y (brain c) + u_rotationVelocityY (fst (update d now c)))
   \<and> (gesture d = TwistPose \<and> handsDetected d \<noteq> 0 \<and> \<bar>handAngleDelta d\<bar> > 0.0012 \<longrightarrow>
      (\<lambda>n. u_rotationVelocityY (fst (updates (twistFrames d n) c)))
        \<longlonglongrightarrow> 2.8 * handAngleDelta d
      \<and> (u_rotationVelocityY c = 2.8 * handAngleDelta d
           \<longrightarrow> u_rotationVelocityY (fst (update d now c)) = 2.8 * handAngleDelta d))
   \<and> (0.0012 < \<bar>a\<bar> \<longrightarrow>
      (\<lambda>n. u_rotationVelocityY (fst (updates (twistFrames (twistSample a) n) c)))
        \<longlonglongrightarrow> 2.8 * a
      \<and> (\<lambda>n. u_rotationVelocityY (fst (updates (twistFrames (twistSample (2 * a)) n) c)))
        \<longlonglongrightarrow> 2 * (2.8 * a))
   \<and> (\<exists>a. 0.0012 < a \<and> B < 2.8 * a
          \<and> (\<lambda>n. u_rotationVelocityY (fst (updates (twistFrames (twistSample a) n) c)))
                \<longlonglongrightarrow> 2.8 * a)"
proof -
  have tv: "targetVel d = (if \<bar>handAngleDelta d\<bar> > 0.0012 then handAngleDelta d * 2.8 else 0)" for d
    by (simp add: targetVel_def u_twistDeadZone_def u_twistSensitivity_def)
  have lim: "(\<lambda>n. u_rotationVelocityY (fst (updates (twistFrames (twistSample x) n) c)))
        \<longlonglongrightarrow> 2.8 * x" if "0.0012 < \<bar>x\<bar>" for x
  proof -
    have e: "targetVel (twistSample x) = 2.8 * x"
      using that by (simp add: tv twistSample_fields)
    have "handsDetected (twistSample x) \<noteq> 0" by (simp add: twistSample_fields)
    from twist_limit [OF twistSample_fields(1) this, of c] show ?thesis
      unfolding e .
  qed
  have p1: "gesture d = TwistPose \<and> handsDetected d \<noteq> 0 \<longrightarrow>
      u_rotationVelocityY (fst (update d now c))
        = u_rotationVelocityY c
          + ((if \<bar>handAngleDelta d\<bar> > 0.0012 then handAngleDelta d * 2.8 else 0)
             - u_rotationVelocityY c) * 0.45
      \<and> rotation_y (brain (fst (update d now c)))
        = rotation_y (brain c) + u_rotationVelocityY (fst (update d now c))"
    using update_twist [of d now c] by (simp add: tv u_twistAccel_def)
  have p2: "gesture d = TwistPose \<and> handsDetected d \<noteq> 0 \<and> \<bar>handAngleDelta d\<bar> > 0.0012 \<longrightarrow>
      (\<lambda>n. u_rotationVelocityY (fst (updates (twistFrames d n) c)))
        \<longlonglongrightarrow> 2.8 * handAngleDelta d
      \<and> (u_rotationVelocityY c = 2.8 * handAngleDelta d
           \<longrightarrow> u_rotationVelocityY (fst (update d now c)) = 2.8 * handAngleDelta d)"
  proof (intro impI conjI)
    assume a: "gesture d = TwistPose \<and> handsDetected d \<noteq> 0 \<and> \<bar>handAngleDelta d\<bar> > 0.0012"
    then have e: "targetVel d = 2.8 * handAngleDelta d" by (simp add: tv)
    from a twist_limit [of d c]
    show "(\<lambda>n. u_rotationVelocityY (fst (updates (twistFrames d n) c)))
        \<longlonglongrightarrow> 2.8 * handAngleDelta d"
      unfolding e by blast
    assume "u_rotationVelocityY c = 2.8 * handAngleDelta d"
    with a update_twist(1) [of d now c] e
    show "u_rotationVelocityY (fst (update d now c)) = 2.8 * handAngleDelta d"
      by simp
  qed
  have p3: "0.0012 < \<bar>a\<bar> \<longrightarrow>
      (\<lambda>n. u_rotationVelocityY (fst (updates (twistFrames (twistSample a) n) c)))
        \<longlonglongrightarrow> 2.8 * a
      \<and> (\<lambda>n. u_rotationVelocityY (fst (updates (twistFrames (twistSample (2 * a)) n) c)))
        \<longlonglongrightarrow> 2 * (2.8 * a)"
    using lim [of a] lim [of "2 * a"] by simp
  have p4: "\<exists>a. 0.0012 < a \<and> B < 2.8 * a
          \<and> (\<lambda>n. u_rotationVelocityY (fst (updates (twistFrames (twistSample a) n) c)))
                \<longlonglongrightarrow> 2.8 * a"
  proof (intro exI conjI)
    show "0.0012 < \<bar>B\<bar> + 1" by simp
    show "B < 2.8 * (\<bar>B\<bar> + 1)" by (simp add: abs_if)
    show "(\<lambda>n. u_rotationVelocityY (fst (updates (twistFrames (twistSample (\<bar>B\<bar> + 1)) n) c)))
                \<longlonglongrightarrow> 2.8 * (\<bar>B\<bar> + 1)"
      by (rule lim) simp
  qed
  from p1 p2 p3 p4 show ?thesis by blast
qed

text \<open>
  Claim C7, witness: on a new controller, a \<open>handAngleDelta\<close> of 0.1 gives the velocity
  0.126 after one update and the limit 0.28; 0.2 gives the limit 0.56; some input has a
  limit above 1000.
\<close>

theorem twist_velocity_unclamped_witness:
  "gesture (twistSample 0.1) = TwistPose \<and> handsDetected (twistSample 0.1) \<noteq> 0
   \<and> \<bar>handAngleDelta (twistSample 0.1)\<bar> > 0.0012
   \<and> u_rotationVelocityY (newControls newBrain) = 0
   \<and> u_rotationVelocityY (fst (update (twistSample 0.1) 1000 (newControls newBrain))) = 0.126
   \<and> rotation_y (brain (fst (update (twistSample 0.1) 1000 (newControls newBrain)))) = 0.126
   \<and> (\<lambda>n. u_rotationVelocityY (fst (updates (twistFrames (twistSample 0.1) n)
              (newControls newBrain)))) \<longlonglongrightarrow> 0.28
   \<and> (\<lambda>n. u_rotationVelocityY (fst (updates (twistFrames (twistSample 0.2) n)
              (newControls newBrain)))) \<longlonglongrightarrow> 0.56
   \<and> (\<exists>a. 0.0012 < a \<and> 1000 < 2.8 * a
          \<and> (\<lambda>n. u_rotationVelocityY (fst (updates (twistFrames (twistSample a) n)
                    (newControls newBrain)))) \<longlonglongrightarrow> 2.8 * a)"
proof -
  have c0: "u_rotationVelocityY (newControls newBrain) = 0"
    "rotation_y (brain (newControls newBrain)) = 0"
    by (simp_all add: newControls_def newBrain_def)
  note t = twist_velocity_unclamped [where d = "twistSample 0.1" and now = 1000
      and c = "newControls newBrain" and a = "0.1" and B = 1000]
  have h: "gesture (twistSample 0.1) = TwistPose \<and> handsDetected (twistSample 0.1) \<noteq> 0
      \<and> \<bar>handAngleDelta (twistSample 0.1)\<bar> > 0.0012" "(0.0012::real) < \<bar>0.1\<bar>"
    by (simp_all add: twistSample_fields)
  from t h have v: "u_rotationVelocityY (fst (update (twistSample 0.1) 1000 (newControls newBrain)))
        = u_rotationVelocityY (newControls newBrain)
          + ((if \<bar>handAngleDelta (twistSample 0.1)\<bar> > 0.0012
              then handAngleDelta (twistSample 0.1) * 2.8 else 0)
             - u_rotationVelocityY (newControls newBrain)) * 0.45"
    "rotation_y (brain (fst (update (twistSample 0.1) 1000 (newControls newBrain))))
        = rotation_y (brain (newControls newBrain))
          + u_rotationVelocityY (fst (update (twistSample 0.1) 1000 (newControls newBrain)))"
    by blast+
  from t h have l: "(\<lambda>n. u_rotationVelocityY (fst (updates (twistFrames (twistSample 0.1) n)
              (newControls newBrain)))) \<longlonglongrightarrow> 2.8 * 0.1"
    "(\<lambda>n. u_rotationVelocityY (fst (updates (twistFrames (twistSample (2 * 0.1)) n)
              (newControls newBrain)))) \<longlonglongrightarrow> 2 * (2.8 * 0.1)"
    by blast+
  from t have e: "\<exists>a. 0.0012 < a \<and> 1000 < 2.8 * a
          \<and> (\<lambda>n. u_rotationVelocityY (fst (updates (twistFrames (twistSample a) n)
                    (newControls newBrain)))) \<longlonglongrightarrow> 2.8 * a"
    by blast
  have v1: "u_rotationVelocityY (fst (update (twistSample 0.1) 1000 (newControls newBrain))) = 0.126"
    using v(1) c0 by (simp add: twistSample_fields)
  have v2: "rotation_y (brain (fst (update (twistSample 0.1) 1000 (newControls newBrain)))) = 0.126"
    using v(2) v1 c0 by simp
  have l1: "(\<lambda>n. u_rotationVelocityY (fst (updates (twistFrames (twistSample 0.1) n)
              (newControls newBrain)))) \<longlonglongrightarrow> 0.28"
    using l(1) by simp
  have l2: "(\<lambda>n. u_rotationVelocityY (fst (updates (twistFrames (twistSample 0.2) n)
              (newControls newBrain)))) \<longlonglongrightarrow> 0.56"
    using l(2) by simp
  from h(1) c0(1) v1 v2 l1 l2 e show ?thesis by blast
qed

text \<open>
  Claim C7 as stated fails in the dead zone: with \<open>handAngleDelta = 0.001\<close> on a new
  controller the velocity stays 0, while a target of \<open>2.8 * 0.001\<close> would give 0.00126.
\<close>

theorem twist_target_dead_zone:
  "u_rotationVelocityY (fst (update (twistSample 0.001) 1000 (newControls newBrain)))
     \<noteq> u_rotationVelocityY (newControls newBrain)
         + (handAngleDelta (twistSample 0.001) * 2.8 - u_rotationVelocityY (newControls newBrain))
           * 0.45"
proof -
  have "u_rotationVelocityY (fst (update (twistSample 0.001) 1000 (newControls newBrain))) = 0"
    by (simp add: update_twist(1) twistSample_fields targetVel_def u_twistDeadZone_def
          newControls_def)
  then show ?thesis by (simp add: twistSample_fields newControls_def)
qed

end
